theory Spec2Isabelle
  imports Complex_Main "HOL-Library.Word"
begin

unbundle bit_operations_syntax

section \<open>Data model of the capture (webglDump.ts)\<close>

text \<open>
  The TypeScript types of the capture are records. A field of type \<open>number\<close> that holds a
  byte quantity, an enum or an id is an \<open>int\<close> (the capture file writes integers; negative
  values are kept). An optional field (\<open>f?: T\<close>) is an \<open>option\<close>. Field names that clash
  with a HOL constant carry a prime (\<open>id'\<close>, \<open>size'\<close>, \<open>count'\<close>).

  The draw call's \<open>count\<close> is the one field the selector tests with \<open>typeof\<close> and compares
  with \<open>>\<close>. A trace is what \<open>JSON.parse\<close> returned, cast to \<open>CaptureJson\<close> unchecked, so
  in a draw call of a trace the field holds any JSON value, or nothing (\<open>undefined\<close>). A
  number there may have a fraction and may be infinite (\<open>JSON.parse\<close> yields \<open>Infinity\<close> for
  a literal such as \<open>1e999\<close>); the type \<open>number\<close> contains \<open>NaN\<close> as well. Of an array or an
  object only \<open>typeof\<close> is ever asked, so one value stands for them all.
\<close>

datatype jsnumber = Finite real | PosInfinity | NegInfinity | NaN

datatype jsvalue = JNumber jsnumber | JString string | JBool bool | JNull | JUndefined | JObject

text \<open>An integer of the model as a JavaScript number.\<close>

definition intNumber :: "int \<Rightarrow> jsnumber" where
  "intNumber k = Finite (real_of_int k)"

record BufferEntry =
  id' :: int
  binOffset :: int
  byteLength :: int

record Attribute =
  index :: int
  size' :: int
  typeEnum :: int
  normalized :: "bool option"
  stride :: "int option"
  offset :: "int option"
  bufferId :: int

text \<open>
  The type of the field \<open>count\<close> is a parameter of the record: \<open>jsvalue\<close> in the draw calls
  of a trace, where nothing has looked at the field yet, and \<open>jsnumber\<close> in the draw call of
  a selection, which has passed the \<open>typeof\<close> test of \<open>pickMainDrawCall\<close> (and which
  \<open>buildGltf\<close> and \<open>buildObj\<close> use as the number its declaration says it is).
\<close>

record 'c DrawCall =
  kind :: string
  mode :: int
  count' :: 'c
  indexTypeEnum :: int
  indexOffset :: "int option"
  elementArrayBufferId :: "int option"
  attribs :: "Attribute list option"

record ContextEntry =
  draws :: "jsvalue DrawCall list option"

record CaptureJson =
  buffers :: "BufferEntry list option"
  contexts :: "ContextEntry list option"

record SelectedDraw =
  draw :: "jsnumber DrawCall"
  buffersById :: "int \<rightharpoonup> BufferEntry"

record DecodeOptions =
  scale :: real
  biasX :: real
  biasY :: real
  biasZ :: real
  swapYZ :: bool
  invertZ :: bool

text \<open>
  Every \<open>throw\<close> of the decoder and every exception of the built-ins it calls is a value.
  The three \<open>Missing...\<close> errors are the three \<open>new Error(...)\<close> messages of \<open>buildGltf\<close>;
  the two \<open>Unsupported...\<close> errors are the defaults of \<open>bytesPerComponent\<close> and
  \<open>readScalar\<close>; \<open>OffsetOutOfBounds\<close> is the \<open>RangeError\<close> of a \<open>DataView\<close> getter and
  \<open>InvalidArrayLength\<close> the \<open>RangeError\<close> of an array constructor.
\<close>

datatype error =
    MissingPositionAttribute
  | MissingPositionBuffer
  | MissingIndexBuffer
  | UnsupportedComponentType int
  | UnsupportedScalarType int
  | OffsetOutOfBounds
  | InvalidArrayLength

text \<open>
  JavaScript numbers that carry decoded values are modelled as \<open>real\<close>. The conversions and
  roundings of the platform are parameters of the model, so every theorem holds for any
  such functions: \<open>float32\<close> is the value \<open>DataView.getFloat32\<close> gives to a 32-bit pattern,
  \<open>fround\<close> is the rounding of a store into a \<open>Float32Array\<close>, and \<open>double\<close> is the
  rounding to binary64 that ends the multiplication and the addition of the affine transform
  of a position. The integers a getter returns and the sums of byte offsets are doubles as
  they are; the quotient of \<open>normalizeInt\<close> is kept as the exact quotient.
\<close>

record platform =
  float32 :: "32 word \<Rightarrow> real"
  fround :: "real \<Rightarrow> real"
  double :: "real \<Rightarrow> real"

type_synonym byte = "8 word"

section \<open>Scalar codec\<close>

subsection \<open>DataView getters (little-endian)\<close>

text \<open>
  A getter of width \<open>w\<close> at \<open>byteOffset\<close> raises \<open>RangeError\<close> unless
  \<open>0 \<le> byteOffset\<close> and \<open>byteOffset + w \<le> byteLength\<close>. \<open>readScalar\<close> always passes
  \<open>littleEndian = true\<close>.
\<close>

definition inBounds :: "byte list \<Rightarrow> int \<Rightarrow> int \<Rightarrow> bool" where
  "inBounds dv byteOffset w = (0 \<le> byteOffset \<and> byteOffset + w \<le> int (length dv))"

definition byteAt :: "byte list \<Rightarrow> int \<Rightarrow> nat \<Rightarrow> nat" where
  "byteAt dv byteOffset k = unat (dv ! (nat byteOffset + k))"

definition le16 :: "byte list \<Rightarrow> int \<Rightarrow> 16 word" where
  "le16 dv byteOffset = word_of_nat (byteAt dv byteOffset 0 + 256 * byteAt dv byteOffset 1)"

definition le32 :: "byte list \<Rightarrow> int \<Rightarrow> 32 word" where
  "le32 dv byteOffset =
     word_of_nat (byteAt dv byteOffset 0 + 256 * byteAt dv byteOffset 1
                  + 65536 * byteAt dv byteOffset 2 + 16777216 * byteAt dv byteOffset 3)"

definition getInt8 :: "byte list \<Rightarrow> int \<Rightarrow> error + real" where
  "getInt8 dv byteOffset =
     (if inBounds dv byteOffset 1 then Inr (real_of_int (sint (dv ! nat byteOffset)))
      else Inl OffsetOutOfBounds)"

definition getUint8 :: "byte list \<Rightarrow> int \<Rightarrow> error + real" where
  "getUint8 dv byteOffset =
     (if inBounds dv byteOffset 1 then Inr (real_of_int (uint (dv ! nat byteOffset)))
      else Inl OffsetOutOfBounds)"

definition getInt16 :: "byte list \<Rightarrow> int \<Rightarrow> error + real" where
  "getInt16 dv byteOffset =
     (if inBounds dv byteOffset 2 then Inr (real_of_int (sint (le16 dv byteOffset)))
      else Inl OffsetOutOfBounds)"

definition getUint16 :: "byte list \<Rightarrow> int \<Rightarrow> error + real" where
  "getUint16 dv byteOffset =
     (if inBounds dv byteOffset 2 then Inr (real_of_int (uint (le16 dv byteOffset)))
      else Inl OffsetOutOfBounds)"

definition getInt32 :: "byte list \<Rightarrow> int \<Rightarrow> error + real" where
  "getInt32 dv byteOffset =
     (if inBounds dv byteOffset 4 then Inr (real_of_int (sint (le32 dv byteOffset)))
      else Inl OffsetOutOfBounds)"

definition getUint32 :: "byte list \<Rightarrow> int \<Rightarrow> error + real" where
  "getUint32 dv byteOffset =
     (if inBounds dv byteOffset 4 then Inr (real_of_int (uint (le32 dv byteOffset)))
      else Inl OffsetOutOfBounds)"

definition getFloat32 :: "platform \<Rightarrow> byte list \<Rightarrow> int \<Rightarrow> error + real" where
  "getFloat32 P dv byteOffset =
     (if inBounds dv byteOffset 4 then Inr (float32 P (le32 dv byteOffset))
      else Inl OffsetOutOfBounds)"

subsection \<open>bytesPerComponent, readScalar, normalizeInt\<close>

definition bytesPerComponent :: "int \<Rightarrow> error + int" where
  "bytesPerComponent t =
     (if t = 5120 then Inr 1
      else if t = 5121 then Inr 1
      else if t = 5122 then Inr 2
      else if t = 5123 then Inr 2
      else if t = 5124 then Inr 4
      else if t = 5125 then Inr 4
      else if t = 5126 then Inr 4
      else Inl (UnsupportedComponentType t))"

definition readScalar :: "platform \<Rightarrow> byte list \<Rightarrow> int \<Rightarrow> int \<Rightarrow> error + real" where
  "readScalar P dv byteOffset t =
     (if t = 5120 then getInt8 dv byteOffset
      else if t = 5121 then getUint8 dv byteOffset
      else if t = 5122 then getInt16 dv byteOffset
      else if t = 5123 then getUint16 dv byteOffset
      else if t = 5124 then getInt32 dv byteOffset
      else if t = 5125 then getUint32 dv byteOffset
      else if t = 5126 then getFloat32 P dv byteOffset
      else Inl (UnsupportedScalarType t))"

definition normalizeInt :: "real \<Rightarrow> int \<Rightarrow> real" where
  "normalizeInt val t =
     (if t = 5120 then max (-1) (val / 127)
      else if t = 5121 then val / 255
      else if t = 5122 then max (-1) (val / 32767)
      else if t = 5123 then val / 65535
      else if t = 5124 then max (-1) (val / 2147483647)
      else if t = 5125 then val / 4294967295
      else val)"

text \<open>The seven component types the codec knows.\<close>

definition supportedTypes :: "int set" where
  "supportedTypes = {5120, 5121, 5122, 5123, 5124, 5125, 5126}"

section \<open>Draw-call selector\<close>

text \<open>\<open>xs || []\<close> for an optional array.\<close>

definition orEmpty :: "'a list option \<Rightarrow> 'a list" where
  "orEmpty xs = (case xs of None \<Rightarrow> [] | Some ys \<Rightarrow> ys)"

text \<open>
  \<open>typeof v === 'number'\<close>: true for every number, \<open>NaN\<close> and the infinities included, and
  for nothing else.
\<close>

fun typeofNumber :: "jsvalue \<Rightarrow> bool" where
  "typeofNumber (JNumber n) = True"
| "typeofNumber (JString s) = False"
| "typeofNumber (JBool b) = False"
| "typeofNumber JNull = False"
| "typeofNumber JUndefined = False"
| "typeofNumber JObject = False"

text \<open>The \<open>>\<close> of JavaScript on two numbers: false as soon as one side is \<open>NaN\<close>.\<close>

fun jsGreater :: "jsnumber \<Rightarrow> jsnumber \<Rightarrow> bool" where
  "jsGreater NaN b = False"
| "jsGreater a NaN = False"
| "jsGreater (Finite a) (Finite b) = (a > b)"
| "jsGreater (Finite a) PosInfinity = False"
| "jsGreater (Finite a) NegInfinity = True"
| "jsGreater PosInfinity (Finite b) = True"
| "jsGreater PosInfinity PosInfinity = False"
| "jsGreater PosInfinity NegInfinity = True"
| "jsGreater NegInfinity b = False"

text \<open>\<open>!v\<close> on an optional number: true when the field is absent or zero.\<close>

definition falsyId :: "int option \<Rightarrow> bool" where
  "falsyId v = (case v of None \<Rightarrow> True | Some n \<Rightarrow> n = 0)"

text \<open>
  A draw call of a trace whose \<open>count\<close> is the number \<open>c\<close>, as a draw call whose count is
  known to be a number. In the source it is the same object.
\<close>

definition withCount :: "'a DrawCall \<Rightarrow> 'b \<Rightarrow> 'b DrawCall" where
  "withCount d c =
     \<lparr>kind = kind d, mode = mode d, count' = c, indexTypeEnum = indexTypeEnum d,
      indexOffset = indexOffset d, elementArrayBufferId = elementArrayBufferId d,
      attribs = attribs d\<rparr>"

text \<open>
  One iteration of the inner loop of \<open>pickMainDrawCall\<close>: the five \<open>continue\<close> guards in the
  order of the source, then the update of \<open>best\<close>. The third guard,
  \<open>typeof draw.count !== 'number'\<close>, is the case distinction on the count: past it the count
  is a number \<open>c\<close>.
\<close>

definition considerDraw ::
  "jsnumber DrawCall option \<Rightarrow> jsvalue DrawCall \<Rightarrow> jsnumber DrawCall option" where
  "considerDraw best d =
     (if kind d \<noteq> ''drawElements'' then best
      else if mode d \<noteq> 4 then best
      else (case count' d of
              JNumber c \<Rightarrow>
                if (case attribs d of None \<Rightarrow> True | Some as \<Rightarrow> length as = 0) then best
                else if falsyId (elementArrayBufferId d) then best
                else (case best of
                        None \<Rightarrow> Some (withCount d c)
                      | Some b \<Rightarrow> if jsGreater c (count' b) then Some (withCount d c) else best)
            | _ \<Rightarrow> best))"

definition pickMainDrawCall :: "CaptureJson \<Rightarrow> SelectedDraw option" where
  "pickMainDrawCall json =
     (let byId = fold (\<lambda>buffer m. m(id' buffer \<mapsto> buffer)) (orEmpty (buffers json)) Map.empty;
          best = fold (\<lambda>ctx best. fold (\<lambda>d best. considerDraw best d) (orEmpty (draws ctx)) best)
                      (orEmpty (contexts json)) None
      in case best of
           None \<Rightarrow> None
         | Some b \<Rightarrow> Some \<lparr>draw = b, buffersById = byId\<rparr>)"

text \<open>The draw calls of a trace in traversal order: context by context, draw by draw.\<close>

definition allDraws :: "CaptureJson \<Rightarrow> jsvalue DrawCall list" where
  "allDraws json = concat (map (\<lambda>ctx. orEmpty (draws ctx)) (orEmpty (contexts json)))"

text \<open>The eligibility test of the source, as one predicate.\<close>

definition eligible :: "jsvalue DrawCall \<Rightarrow> bool" where
  "eligible d =
     (kind d = ''drawElements'' \<and> mode d = 4 \<and> typeofNumber (count' d)
      \<and> (case attribs d of None \<Rightarrow> False | Some as \<Rightarrow> as \<noteq> [])
      \<and> (case elementArrayBufferId d of None \<Rightarrow> False | Some n \<Rightarrow> n \<noteq> 0))"

text \<open>Eligibility as the specification words it: the count must be a finite number.\<close>

definition isFinite :: "jsvalue \<Rightarrow> bool" where
  "isFinite v = (case v of JNumber (Finite r) \<Rightarrow> True | _ \<Rightarrow> False)"

definition eligibleFinite :: "jsvalue DrawCall \<Rightarrow> bool" where
  "eligibleFinite d =
     (kind d = ''drawElements'' \<and> mode d = 4 \<and> isFinite (count' d)
      \<and> (case attribs d of None \<Rightarrow> False | Some as \<Rightarrow> as \<noteq> [])
      \<and> (case elementArrayBufferId d of None \<Rightarrow> False | Some n \<Rightarrow> n \<noteq> 0))"

definition bestOf :: "jsvalue DrawCall list \<Rightarrow> jsnumber DrawCall option" where
  "bestOf ds = fold (\<lambda>d best. considerDraw best d) ds None"

text \<open>
  Position \<open>k\<close> of a list of draw calls holds an eligible one of count \<open>c\<close> that no eligible
  one exceeds and that exceeds every eligible one before it.
\<close>

definition firstGreatest :: "jsvalue DrawCall list \<Rightarrow> nat \<Rightarrow> jsnumber \<Rightarrow> bool" where
  "firstGreatest ds k c =
     (k < length ds \<and> eligible (ds ! k) \<and> count' (ds ! k) = JNumber c
      \<and> (\<forall>j < length ds. \<forall>c'. eligible (ds ! j) \<and> count' (ds ! j) = JNumber c'
             \<longrightarrow> \<not> jsGreater c' c)
      \<and> (\<forall>j < k. \<forall>c'. eligible (ds ! j) \<and> count' (ds ! j) = JNumber c'
             \<longrightarrow> jsGreater c c'))"

section \<open>Attribute classifier\<close>

text \<open>Truthiness of the optional flag \<open>normalized\<close>: absent counts as false.\<close>

definition truthy :: "bool option \<Rightarrow> bool" where
  "truthy b = (case b of None \<Rightarrow> False | Some v \<Rightarrow> v)"

definition isPositionLike :: "Attribute \<Rightarrow> bool" where
  "isPositionLike a =
     (size' a = 3 \<and> (typeEnum a = 5126 \<or> (typeEnum a = 5123 \<and> \<not> truthy (normalized a))))"

definition isNormalLike :: "Attribute \<Rightarrow> bool" where
  "isNormalLike a =
     (size' a = 3 \<and> truthy (normalized a) \<and> (typeEnum a = 5120 \<or> typeEnum a = 5122))"

definition isUvLike :: "Attribute \<Rightarrow> bool" where
  "isUvLike a =
     (size' a = 2 \<and> truthy (normalized a) \<and> (typeEnum a = 5121 \<or> typeEnum a = 5123))"

definition findPositionAttrib :: "Attribute list \<Rightarrow> Attribute option" where
  "findPositionAttrib as = List.find isPositionLike as"

definition findNormalAttrib :: "Attribute list \<Rightarrow> Attribute option" where
  "findNormalAttrib as = List.find isNormalLike as"

definition findUvAttrib :: "Attribute list \<Rightarrow> Attribute option" where
  "findUvAttrib as = List.find isUvLike as"

text \<open>
  \<open>(draw.attribs || []).slice().sort((a, b) => a.index - b.index)\<close>: the sort of an array
  is stable, so attributes of equal index keep their order.
\<close>

definition sortedAttribs :: "'c DrawCall \<Rightarrow> Attribute list" where
  "sortedAttribs d = sort_key index (orEmpty (attribs d))"

section \<open>Vertex decoder\<close>

definition bindE :: "error + 'a \<Rightarrow> ('a \<Rightarrow> error + 'b) \<Rightarrow> error + 'b" where
  "bindE m f = (case m of Inl e \<Rightarrow> Inl e | Inr x \<Rightarrow> f x)"

text \<open>
  A counting loop \<open>for (let i = 0; i < n; i++)\<close> whose body may throw runs the body on
  \<open>0, 1, ..., n - 1\<close> in order, stops at the first exception and otherwise collects what
  each iteration stores.
\<close>

primrec traverse :: "(nat \<Rightarrow> error + 'a) \<Rightarrow> nat list \<Rightarrow> error + 'a list" where
  "traverse f [] = Inr []"
| "traverse f (i # is) =
     (case f i of
        Inl e \<Rightarrow> Inl e
      | Inr x \<Rightarrow> (case traverse f is of Inl e \<Rightarrow> Inl e | Inr xs \<Rightarrow> Inr (x # xs)))"

definition forLoop :: "nat \<Rightarrow> (nat \<Rightarrow> error + 'a) \<Rightarrow> error + 'a list" where
  "forLoop n body = traverse body [0..<n]"

text \<open>\<open>v || 0\<close> for an optional number.\<close>

definition orZero :: "int option \<Rightarrow> int" where
  "orZero v = (case v of None \<Rightarrow> 0 | Some n \<Rightarrow> n)"

definition getStride :: "Attribute \<Rightarrow> error + int" where
  "getStride attrib =
     (case stride attrib of
        Some s \<Rightarrow> if s \<noteq> 0 then Inr s
                  else bindE (bytesPerComponent (typeEnum attrib)) (\<lambda>w. Inr (size' attrib * w))
      | None \<Rightarrow> bindE (bytesPerComponent (typeEnum attrib)) (\<lambda>w. Inr (size' attrib * w)))"

text \<open>
  \<open>new Uint32Array(n)\<close> and \<open>new Float32Array(n)\<close> drop the fraction of \<open>n\<close> (towards zero),
  raise \<open>RangeError\<close> when what remains is negative or \<open>n\<close> is infinite, and read \<open>NaN\<close> as
  length 0. Memory exhaustion is outside the model.
\<close>

definition typedArrayLength :: "jsnumber \<Rightarrow> error + nat" where
  "typedArrayLength n =
     (case n of
        Finite r \<Rightarrow> if r \<le> - 1 then Inl InvalidArrayLength else Inr (nat \<lfloor>r\<rfloor>)
      | NaN \<Rightarrow> Inr 0
      | _ \<Rightarrow> Inl InvalidArrayLength)"

text \<open>
  \<open>new Array(n)\<close> raises \<open>RangeError\<close> unless \<open>n\<close> is an integer in \<open>[0, 2^32 - 1]\<close>.
\<close>

definition arrayLength :: "jsnumber \<Rightarrow> error + nat" where
  "arrayLength n =
     (case n of
        Finite r \<Rightarrow> if r = real_of_int \<lfloor>r\<rfloor> \<and> 0 \<le> r \<and> r < 4294967296 then Inr (nat \<lfloor>r\<rfloor>)
                    else Inl InvalidArrayLength
      | _ \<Rightarrow> Inl InvalidArrayLength)"

text \<open>A store into a \<open>Uint32Array\<close>: truncation towards zero, then modulo \<open>2^32\<close>.\<close>

definition toUint32 :: "real \<Rightarrow> 32 word" where
  "toUint32 r = word_of_int (if r < 0 then \<lceil>r\<rceil> else \<lfloor>r\<rfloor>)"

text \<open>
  \<open>draw.elementArrayBufferId ? buffersById.get(draw.elementArrayBufferId) : null\<close>
\<close>

definition lookupIndexBuffer :: "'c DrawCall \<Rightarrow> (int \<rightharpoonup> BufferEntry) \<Rightarrow> BufferEntry option" where
  "lookupIndexBuffer d byId =
     (case elementArrayBufferId d of
        None \<Rightarrow> None
      | Some n \<Rightarrow> if n = 0 then None else byId n)"

text \<open>
  What \<open>buildGltf\<close> decodes: the local arrays \<open>indices\<close>, \<open>positions\<close>, \<open>normals\<close> and
  \<open>uvs\<close> (\<open>None\<close> for \<open>null\<close>) and \<open>vertexCount\<close>. The running bounds, the packing of the
  arrays into \<open>binU8\<close> and the JSON object built from them are not modelled: no statement
  below is about them, and none of that code can throw.
\<close>

record decoded =
  indices :: "32 word list"
  vertexCount :: int
  positions :: "real list"
  normals :: "real list option"
  uvs :: "real list option"

text \<open>
  The index loop (source lines 150 to 158). The array has the length the constructor gave
  it; the loop runs while \<open>i < indexCount\<close>. Past the constructor \<open>indexCount\<close> is \<open>NaN\<close>,
  for which the loop does not run, or a finite number \<open>r\<close> above \<open>-1\<close>, for which it runs
  for every natural number below \<open>r\<close>: with a fraction in \<open>r\<close> that is one read more than
  the array has elements, and the store of that last read, past the end of the typed
  array, stores nothing.
\<close>

definition decodeIndices ::
  "platform \<Rightarrow> byte list \<Rightarrow> jsnumber DrawCall \<Rightarrow> BufferEntry \<Rightarrow> error + 32 word list" where
  "decodeIndices P dv d idxBuf =
     (let idxType = indexTypeEnum d in
      bindE (bytesPerComponent idxType) (\<lambda>idxBpc.
        let idxStart = binOffset idxBuf + orZero (indexOffset d);
            indexCount = count' d
        in bindE (typedArrayLength indexCount) (\<lambda>len.
             bindE (forLoop (case indexCount of Finite r \<Rightarrow> nat \<lceil>r\<rceil> | _ \<Rightarrow> 0) (\<lambda>i.
                      bindE (readScalar P dv (idxStart + int i * idxBpc) idxType)
                        (\<lambda>v. Inr (toUint32 v))))
               (\<lambda>vs. Inr (take len vs)))))"

text \<open>
  The affine transform of one position (source lines 183 to 188). The product is a double
  and so is the sum; the swap and the negation change no value.
\<close>

definition transform ::
  "platform \<Rightarrow> DecodeOptions \<Rightarrow> real \<times> real \<times> real \<Rightarrow> real \<times> real \<times> real" where
  "transform P options v =
     (case v of (x0, y0, z0) \<Rightarrow>
        let x = double P (double P (x0 * scale options) + biasX options);
            y = double P (double P (y0 * scale options) + biasY options);
            z = double P (double P (z0 * scale options) + biasZ options);
            (y, z) = (if swapYZ options then (z, y) else (y, z));
            z = (if invertZ options then - z else z)
        in (x, y, z))"

text \<open>One iteration of the position loop (source lines 171 to 192).\<close>

definition positionVertex ::
  "platform \<Rightarrow> byte list \<Rightarrow> DecodeOptions \<Rightarrow> Attribute \<Rightarrow> BufferEntry \<Rightarrow> int \<Rightarrow> int \<Rightarrow> int \<Rightarrow> nat
   \<Rightarrow> error + real list" where
  "positionVertex P dv options posA posBuf posStride posOffset posCompBytes i =
     (let base = binOffset posBuf + posOffset + int i * posStride in
      bindE (readScalar P dv (base + 0 * posCompBytes) (typeEnum posA)) (\<lambda>x.
      bindE (readScalar P dv (base + 1 * posCompBytes) (typeEnum posA)) (\<lambda>y.
      bindE (readScalar P dv (base + 2 * posCompBytes) (typeEnum posA)) (\<lambda>z.
        let (x, y, z) = (if truthy (normalized posA)
                         then (normalizeInt x (typeEnum posA), normalizeInt y (typeEnum posA),
                               normalizeInt z (typeEnum posA))
                         else (x, y, z));
            (x, y, z) = transform P options (x, y, z)
        in Inr [fround P x, fround P y, fround P z]))))"

definition decodePositions ::
  "platform \<Rightarrow> byte list \<Rightarrow> DecodeOptions \<Rightarrow> Attribute \<Rightarrow> BufferEntry \<Rightarrow> int \<Rightarrow> int \<Rightarrow> int
   \<Rightarrow> error + real list" where
  "decodePositions P dv options posA posBuf posStride posOffset vCount =
     bindE (typedArrayLength (intNumber (vCount * 3))) (\<lambda>len.
     bindE (bytesPerComponent (typeEnum posA)) (\<lambda>posCompBytes.
     bindE (forLoop (nat vCount)
              (positionVertex P dv options posA posBuf posStride posOffset posCompBytes))
       (\<lambda>vs. Inr (concat vs))))"

text \<open>One iteration of the normal loop and of the UV loop (source lines 214 to 225, 248 to 256).\<close>

definition normalVertex ::
  "platform \<Rightarrow> byte list \<Rightarrow> Attribute \<Rightarrow> BufferEntry \<Rightarrow> int \<Rightarrow> int \<Rightarrow> int \<Rightarrow> nat \<Rightarrow> error + real list" where
  "normalVertex P dv nrmA nrmBuf nrmStride nrmOffset nrmCompBytes i =
     (let base = binOffset nrmBuf + nrmOffset + int i * nrmStride in
      bindE (readScalar P dv (base + 0 * nrmCompBytes) (typeEnum nrmA)) (\<lambda>nx.
      bindE (readScalar P dv (base + 1 * nrmCompBytes) (typeEnum nrmA)) (\<lambda>ny.
      bindE (readScalar P dv (base + 2 * nrmCompBytes) (typeEnum nrmA)) (\<lambda>nz.
        let (nx, ny, nz) = (if truthy (normalized nrmA)
                            then (normalizeInt nx (typeEnum nrmA), normalizeInt ny (typeEnum nrmA),
                                  normalizeInt nz (typeEnum nrmA))
                            else (nx, ny, nz))
        in Inr [fround P nx, fround P ny, fround P nz]))))"

definition uvVertex ::
  "platform \<Rightarrow> byte list \<Rightarrow> Attribute \<Rightarrow> BufferEntry \<Rightarrow> int \<Rightarrow> int \<Rightarrow> int \<Rightarrow> nat \<Rightarrow> error + real list" where
  "uvVertex P dv uvA uvBuf uvStride uvOffset uvCompBytes i =
     (let base = binOffset uvBuf + uvOffset + int i * uvStride in
      bindE (readScalar P dv (base + 0 * uvCompBytes) (typeEnum uvA)) (\<lambda>u.
      bindE (readScalar P dv (base + 1 * uvCompBytes) (typeEnum uvA)) (\<lambda>v.
        let (u, v) = (if truthy (normalized uvA)
                      then (normalizeInt u (typeEnum uvA), normalizeInt v (typeEnum uvA))
                      else (u, v))
        in Inr [fround P u, fround P v])))"

text \<open>
  The optional channels (source lines 202 to 229 and 231 to 264): no candidate attribute,
  or no buffer entry for it, leaves the channel \<open>null\<close>.
\<close>

definition decodeNormals ::
  "platform \<Rightarrow> byte list \<Rightarrow> (int \<rightharpoonup> BufferEntry) \<Rightarrow> int \<Rightarrow> Attribute option
   \<Rightarrow> error + real list option" where
  "decodeNormals P dv byId vCount nrmA' =
     (case nrmA' of
        None \<Rightarrow> Inr None
      | Some nrmA \<Rightarrow>
          (case byId (bufferId nrmA) of
             None \<Rightarrow> Inr None
           | Some nrmBuf \<Rightarrow>
               bindE (getStride nrmA) (\<lambda>nrmStride.
                 let nrmOffset = orZero (offset nrmA);
                     nrmCount = min vCount ((byteLength nrmBuf - nrmOffset) div nrmStride)
                 in bindE (typedArrayLength (intNumber (nrmCount * 3))) (\<lambda>len.
                    bindE (bytesPerComponent (typeEnum nrmA)) (\<lambda>nrmCompBytes.
                    bindE (forLoop (nat nrmCount)
                             (normalVertex P dv nrmA nrmBuf nrmStride nrmOffset nrmCompBytes))
                      (\<lambda>vs. Inr (Some (concat vs))))))))"

definition decodeUvs ::
  "platform \<Rightarrow> byte list \<Rightarrow> (int \<rightharpoonup> BufferEntry) \<Rightarrow> int \<Rightarrow> Attribute option
   \<Rightarrow> error + real list option" where
  "decodeUvs P dv byId vCount uvA' =
     (case uvA' of
        None \<Rightarrow> Inr None
      | Some uvA \<Rightarrow>
          (case byId (bufferId uvA) of
             None \<Rightarrow> Inr None
           | Some uvBuf \<Rightarrow>
               bindE (getStride uvA) (\<lambda>uvStride.
                 let uvOffset = orZero (offset uvA);
                     uvCount = min vCount ((byteLength uvBuf - uvOffset) div uvStride)
                 in bindE (typedArrayLength (intNumber (uvCount * 2))) (\<lambda>len.
                    bindE (bytesPerComponent (typeEnum uvA)) (\<lambda>uvCompBytes.
                    bindE (forLoop (nat uvCount)
                             (uvVertex P dv uvA uvBuf uvStride uvOffset uvCompBytes))
                      (\<lambda>vs. Inr (Some (concat vs))))))))"

text \<open>
  \<open>buildGltf\<close>, in the order of the source: the three lookups and their errors, the stride
  and the vertex count, the indices, the positions, the normals, the UVs.
  \<open>Math.floor(a / b)\<close> on integers with \<open>b \<noteq> 0\<close> is \<open>a div b\<close>; the stride of a classified
  attribute is never 0 (lemma \<open>getStride_nonzero\<close> below).
\<close>

definition buildGltf :: "platform \<Rightarrow> byte list \<Rightarrow> SelectedDraw \<Rightarrow> DecodeOptions \<Rightarrow> error + decoded" where
  "buildGltf P captureBin selected options =
     (let d = draw selected; byId = buffersById selected; attrs = sortedAttribs d in
      case findPositionAttrib attrs of
        None \<Rightarrow> Inl MissingPositionAttribute
      | Some posA \<Rightarrow>
          let nrmA = findNormalAttrib attrs; uvA = findUvAttrib attrs in
          (case byId (bufferId posA) of
             None \<Rightarrow> Inl MissingPositionBuffer
           | Some posBuf \<Rightarrow>
               (case lookupIndexBuffer d byId of
                  None \<Rightarrow> Inl MissingIndexBuffer
                | Some idxBuf \<Rightarrow>
                    bindE (getStride posA) (\<lambda>posStride.
                      let posOffset = orZero (offset posA);
                          vCount = (byteLength posBuf - posOffset) div posStride
                      in bindE (decodeIndices P captureBin d idxBuf) (\<lambda>is.
                         bindE (decodePositions P captureBin options posA posBuf posStride posOffset vCount) (\<lambda>ps.
                         bindE (decodeNormals P captureBin byId vCount nrmA) (\<lambda>ns.
                         bindE (decodeUvs P captureBin byId vCount uvA) (\<lambda>ts.
                           Inr \<lparr>indices = is, vertexCount = vCount, positions = ps,
                                normals = ns, uvs = ts\<rparr>))))))))"

section \<open>Plain-text mesh encoder: the decode of buildObj\<close>

text \<open>
  What \<open>buildObj\<close> decodes before it prints (source lines 405 to 507): the local arrays
  \<open>vertices\<close>, \<open>normals\<close>, \<open>uvs\<close> and \<open>indices\<close>. They are ordinary arrays of numbers, so
  nothing is rounded to binary32 or reduced modulo \<open>2^32\<close> on the way in. The text
  printed from them is not modelled.
\<close>

record objDecoded =
  objVertices :: "real list list"
  objNormals :: "real list list option"
  objUvs :: "real list list option"
  objIndices :: "real list"

text \<open>
  One iteration of each loop. \<open>buildObj\<close> calls \<open>bytesPerComponent\<close> inside every
  \<open>readScalar\<close> argument, so the call is repeated before each read.
\<close>

definition objPositionVertex ::
  "platform \<Rightarrow> byte list \<Rightarrow> DecodeOptions \<Rightarrow> Attribute \<Rightarrow> BufferEntry \<Rightarrow> int \<Rightarrow> int \<Rightarrow> nat
   \<Rightarrow> error + real list" where
  "objPositionVertex P dv options posA posBuf posStride posOffset i =
     (let base = binOffset posBuf + posOffset + int i * posStride in
      bindE (bytesPerComponent (typeEnum posA)) (\<lambda>w0.
      bindE (readScalar P dv (base + 0 * w0) (typeEnum posA)) (\<lambda>x.
      bindE (bytesPerComponent (typeEnum posA)) (\<lambda>w1.
      bindE (readScalar P dv (base + 1 * w1) (typeEnum posA)) (\<lambda>y.
      bindE (bytesPerComponent (typeEnum posA)) (\<lambda>w2.
      bindE (readScalar P dv (base + 2 * w2) (typeEnum posA)) (\<lambda>z.
        let (x, y, z) = (if truthy (normalized posA)
                         then (normalizeInt x (typeEnum posA), normalizeInt y (typeEnum posA),
                               normalizeInt z (typeEnum posA))
                         else (x, y, z));
            (x, y, z) = transform P options (x, y, z)
        in Inr [x, y, z])))))))"

definition objNormalVertex ::
  "platform \<Rightarrow> byte list \<Rightarrow> Attribute \<Rightarrow> BufferEntry \<Rightarrow> int \<Rightarrow> int \<Rightarrow> nat \<Rightarrow> error + real list" where
  "objNormalVertex P dv nrmA nrmBuf nrmStride nrmOffset i =
     (let base = binOffset nrmBuf + nrmOffset + int i * nrmStride in
      bindE (bytesPerComponent (typeEnum nrmA)) (\<lambda>w0.
      bindE (readScalar P dv (base + 0 * w0) (typeEnum nrmA)) (\<lambda>nx.
      bindE (bytesPerComponent (typeEnum nrmA)) (\<lambda>w1.
      bindE (readScalar P dv (base + 1 * w1) (typeEnum nrmA)) (\<lambda>ny.
      bindE (bytesPerComponent (typeEnum nrmA)) (\<lambda>w2.
      bindE (readScalar P dv (base + 2 * w2) (typeEnum nrmA)) (\<lambda>nz.
        let (nx, ny, nz) = (if truthy (normalized nrmA)
                            then (normalizeInt nx (typeEnum nrmA), normalizeInt ny (typeEnum nrmA),
                                  normalizeInt nz (typeEnum nrmA))
                            else (nx, ny, nz))
        in Inr [nx, ny, nz])))))))"

definition objUvVertex ::
  "platform \<Rightarrow> byte list \<Rightarrow> Attribute \<Rightarrow> BufferEntry \<Rightarrow> int \<Rightarrow> int \<Rightarrow> nat \<Rightarrow> error + real list" where
  "objUvVertex P dv uvA uvBuf uvStride uvOffset i =
     (let base = binOffset uvBuf + uvOffset + int i * uvStride in
      bindE (bytesPerComponent (typeEnum uvA)) (\<lambda>w0.
      bindE (readScalar P dv (base + 0 * w0) (typeEnum uvA)) (\<lambda>u.
      bindE (bytesPerComponent (typeEnum uvA)) (\<lambda>w1.
      bindE (readScalar P dv (base + 1 * w1) (typeEnum uvA)) (\<lambda>v.
        let (u, v) = (if truthy (normalized uvA)
                      then (normalizeInt u (typeEnum uvA), normalizeInt v (typeEnum uvA))
                      else (u, v))
        in Inr [u, v])))))"

definition objNormals' ::
  "platform \<Rightarrow> byte list \<Rightarrow> (int \<rightharpoonup> BufferEntry) \<Rightarrow> int \<Rightarrow> Attribute option
   \<Rightarrow> error + real list list option" where
  "objNormals' P dv byId posVertCount nrmA' =
     (case nrmA' of
        None \<Rightarrow> Inr None
      | Some nrmA \<Rightarrow>
          (case byId (bufferId nrmA) of
             None \<Rightarrow> Inr None
           | Some nrmBuf \<Rightarrow>
               bindE (getStride nrmA) (\<lambda>nrmStride.
                 let nrmOffset = orZero (offset nrmA);
                     nrmVertCount = min posVertCount ((byteLength nrmBuf - nrmOffset) div nrmStride)
                 in bindE (arrayLength (intNumber nrmVertCount)) (\<lambda>len.
                    bindE (forLoop len (objNormalVertex P dv nrmA nrmBuf nrmStride nrmOffset))
                      (\<lambda>vs. Inr (Some vs))))))"

definition objUvs' ::
  "platform \<Rightarrow> byte list \<Rightarrow> (int \<rightharpoonup> BufferEntry) \<Rightarrow> int \<Rightarrow> Attribute option
   \<Rightarrow> error + real list list option" where
  "objUvs' P dv byId posVertCount uvA' =
     (case uvA' of
        None \<Rightarrow> Inr None
      | Some uvA \<Rightarrow>
          (case byId (bufferId uvA) of
             None \<Rightarrow> Inr None
           | Some uvBuf \<Rightarrow>
               bindE (getStride uvA) (\<lambda>uvStride.
                 let uvOffset = orZero (offset uvA);
                     uvVertCount = min posVertCount ((byteLength uvBuf - uvOffset) div uvStride)
                 in bindE (arrayLength (intNumber uvVertCount)) (\<lambda>len.
                    bindE (forLoop len (objUvVertex P dv uvA uvBuf uvStride uvOffset))
                      (\<lambda>vs. Inr (Some vs))))))"

definition buildObj :: "platform \<Rightarrow> byte list \<Rightarrow> SelectedDraw \<Rightarrow> DecodeOptions \<Rightarrow> error + objDecoded" where
  "buildObj P captureBin selected options =
     (let d = draw selected; byId = buffersById selected; attrs = sortedAttribs d in
      case findPositionAttrib attrs of
        None \<Rightarrow> Inl MissingPositionAttribute
      | Some posA \<Rightarrow>
          let nrmA = findNormalAttrib attrs; uvA = findUvAttrib attrs in
          (case byId (bufferId posA) of
             None \<Rightarrow> Inl MissingPositionBuffer
           | Some posBuf \<Rightarrow>
               (case lookupIndexBuffer d byId of
                  None \<Rightarrow> Inl MissingIndexBuffer
                | Some idxBuf \<Rightarrow>
                    let idxType = indexTypeEnum d in
                    bindE (bytesPerComponent idxType) (\<lambda>idxBpc.
                      let idxStart = binOffset idxBuf + orZero (indexOffset d);
                          idxCount = count' d
                      in bindE (getStride posA) (\<lambda>posStride.
                           let posOffset = orZero (offset posA);
                               posVertCount = (byteLength posBuf - posOffset) div posStride
                           in bindE (arrayLength (intNumber posVertCount)) (\<lambda>len.
                              bindE (forLoop len
                                       (objPositionVertex P captureBin options posA posBuf posStride posOffset)) (\<lambda>vs.
                              bindE (objNormals' P captureBin byId posVertCount nrmA) (\<lambda>ns.
                              bindE (objUvs' P captureBin byId posVertCount uvA) (\<lambda>ts.
                              bindE (arrayLength idxCount) (\<lambda>n.
                              bindE (forLoop n (\<lambda>i. readScalar P captureBin (idxStart + int i * idxBpc) idxType)) (\<lambda>is.
                                Inr \<lparr>objVertices = vs, objNormals = ns, objUvs = ts,
                                     objIndices = is\<rparr>)))))))))))"

section \<open>Single-file binary container (glb.ts)\<close>

text \<open>
  The four bytes \<open>DataView.setUint32(offset, v, true)\<close> writes: \<open>v\<close> modulo \<open>2^32\<close>, least
  significant byte first.
\<close>

definition u32le :: "nat \<Rightarrow> byte list" where
  "u32le v =
     (let w = v mod 4294967296
      in [word_of_nat (w mod 256), word_of_nat (w div 256 mod 256),
          word_of_nat (w div 65536 mod 256), word_of_nat (w div 16777216)])"

definition setUint32 :: "byte list \<Rightarrow> nat \<Rightarrow> nat \<Rightarrow> error + byte list" where
  "setUint32 buf byteOffset v =
     (if byteOffset + 4 \<le> length buf
      then Inr (take byteOffset buf @ u32le v @ drop (byteOffset + 4) buf)
      else Inl OffsetOutOfBounds)"

text \<open>\<open>target.set(source, offset)\<close> on a \<open>Uint8Array\<close>.\<close>

definition u8set :: "byte list \<Rightarrow> byte list \<Rightarrow> nat \<Rightarrow> error + byte list" where
  "u8set target source off =
     (if off + length source \<le> length target
      then Inr (take off target @ source @ drop (off + length source) target)
      else Inl OffsetOutOfBounds)"

text \<open>\<open>target.fill(value, start)\<close> on a \<open>Uint8Array\<close>.\<close>

definition u8fill :: "byte list \<Rightarrow> byte \<Rightarrow> nat \<Rightarrow> byte list" where
  "u8fill target v start = take start target @ replicate (length target - start) v"

definition padTo4 :: "byte list \<Rightarrow> byte \<Rightarrow> error + byte list" where
  "padTo4 bytes padByte =
     (let pad = (4 - length bytes mod 4) mod 4
      in if pad = 0 then Inr bytes
         else bindE (u8set (replicate (length bytes + pad) (0::byte)) bytes 0) (\<lambda>out.
                Inr (u8fill out padByte (length bytes))))"

text \<open>
  \<open>buildGlb\<close> from the point where the JSON text has been encoded: \<open>jsonBytes\<close> stands for
  \<open>new TextEncoder().encode(JSON.stringify(gltf))\<close>, \<open>binU8\<close> for \<open>built.binU8\<close>. The
  array \<open>glb\<close> and the view on its buffer are one byte list, passed from write to write.
\<close>

definition buildGlb :: "byte list \<Rightarrow> byte list \<Rightarrow> error + byte list" where
  "buildGlb jsonBytes binU8 =
     bindE (padTo4 jsonBytes 0x20) (\<lambda>jsonPadded.
     bindE (padTo4 binU8 0x00) (\<lambda>binPadded.
       let totalLength = (12::nat) + 8 + length jsonPadded + 8 + length binPadded;
           glb = replicate totalLength (0::byte);
           off = (0::nat)
       in bindE (setUint32 glb off 0x46546c67) (\<lambda>glb. let off = off + 4 in
          bindE (setUint32 glb off 2) (\<lambda>glb. let off = off + 4 in
          bindE (setUint32 glb off totalLength) (\<lambda>glb. let off = off + 4 in
          bindE (setUint32 glb off (length jsonPadded)) (\<lambda>glb. let off = off + 4 in
          bindE (setUint32 glb off 0x4e4f534a) (\<lambda>glb. let off = off + 4 in
          bindE (u8set glb jsonPadded off) (\<lambda>glb. let off = off + length jsonPadded in
          bindE (setUint32 glb off (length binPadded)) (\<lambda>glb. let off = off + 4 in
          bindE (setUint32 glb off 0x004e4942) (\<lambda>glb. let off = off + 4 in
          bindE (u8set glb binPadded off) (\<lambda>glb. Inr glb)))))))))))"

section \<open>Example captures\<close>

text \<open>
  The platform of the examples. \<open>binary32\<close> is the number a finite binary32 pattern stands
  for: a sign bit, 8 exponent bits, 23 fraction bits. (The patterns of exponent 255, the
  infinities and \<open>NaN\<close>, stand for no real number; no example holds one.) Every number the
  examples compute is a binary32 and a double already, so both roundings leave it as it is.
\<close>

definition binary32 :: "32 word \<Rightarrow> real" where
  "binary32 w =
     (let n = unat w; s = n div 2147483648; e = n div 8388608 mod 256; m = n mod 8388608;
          mag = (if e = 0 then real m / 2 ^ 149
                 else if e < 150 then real (8388608 + m) / 2 ^ (150 - e)
                 else real (8388608 + m) * 2 ^ (e - 150))
      in if s = 1 then - mag else mag)"

definition exPlatform :: platform where
  "exPlatform = \<lparr>float32 = binary32, fround = (\<lambda>x. x), double = (\<lambda>x. x)\<rparr>"

text \<open>
  A small capture: two vertices with 16-bit unsigned positions, 8-bit normalized UVs, 8-bit
  normalized normals in a buffer that holds one normal only, and three 8-bit indices.
\<close>

definition exPosAttr :: Attribute where
  "exPosAttr = \<lparr>index = 0, size' = 3, typeEnum = 5123, normalized = None, stride = None,
                 offset = None, bufferId = 1\<rparr>"

definition exNrmAttr :: Attribute where
  "exNrmAttr = \<lparr>index = 1, size' = 3, typeEnum = 5120, normalized = Some True, stride = Some 0,
                 offset = Some 0, bufferId = 3\<rparr>"

definition exUvAttr :: Attribute where
  "exUvAttr = \<lparr>index = 2, size' = 2, typeEnum = 5121, normalized = Some True, stride = Some 2,
                offset = Some 0, bufferId = 2\<rparr>"

definition exDraw :: "jsnumber DrawCall" where
  "exDraw = \<lparr>kind = ''drawElements'', mode = 4, count' = Finite 3, indexTypeEnum = 5121,
              indexOffset = None, elementArrayBufferId = Some 4,
              attribs = Some [exUvAttr, exNrmAttr, exPosAttr]\<rparr>"

definition exPosBuf :: BufferEntry where
  "exPosBuf = \<lparr>id' = 1, binOffset = 0, byteLength = 12\<rparr>"

definition exUvBuf :: BufferEntry where
  "exUvBuf = \<lparr>id' = 2, binOffset = 15, byteLength = 6\<rparr>"

definition exNrmBuf :: BufferEntry where
  "exNrmBuf = \<lparr>id' = 3, binOffset = 12, byteLength = 5\<rparr>"

definition exIdxBuf :: BufferEntry where
  "exIdxBuf = \<lparr>id' = 4, binOffset = 12, byteLength = 3\<rparr>"

text \<open>
  A trace of five draw calls that differ in their count only: a string, 2, twice 2.5 (the
  second of them with an index offset, to tell them apart) and no count at all.
\<close>

definition exJson :: CaptureJson where
  "exJson = \<lparr>buffers = Some [exPosBuf, exUvBuf, exNrmBuf, exIdxBuf],
              contexts = Some [\<lparr>draws = None\<rparr>,
                               \<lparr>draws = Some [withCount exDraw (JString ''7''),
                                               withCount exDraw (JNumber (Finite 2)),
                                               withCount exDraw (JNumber (Finite (5 / 2)))]\<rparr>,
                               \<lparr>draws = Some [withCount exDraw JUndefined,
                                               withCount (exDraw\<lparr>indexOffset := Some 0\<rparr>)
                                                 (JNumber (Finite (5 / 2)))]\<rparr>]\<rparr>"

definition exSelected :: SelectedDraw where
  "exSelected = \<lparr>draw = exDraw, buffersById = [1 \<mapsto> exPosBuf, 2 \<mapsto> exUvBuf, 3 \<mapsto> exNrmBuf, 4 \<mapsto> exIdxBuf]\<rparr>"

definition exBin :: "byte list" where
  "exBin = [1, 0, 2, 0, 3, 0,  0, 1, 5, 0, 6, 0,  0, 1, 1,  255, 0, 0, 51]"

definition exOptions :: DecodeOptions where
  "exOptions = \<lparr>scale = 2, biasX = 1, biasY = 0, biasZ = 0, swapYZ = True, invertZ = True\<rparr>"

text \<open>
  A second capture, laid out the way interleaved vertex data is: two vertices with 32-bit
  float positions that lie 4 bytes into records of 16 bytes, one 8-bit normalized normal
  2 bytes into records of 4 bytes, two 16-bit normalized UVs 1 byte into records of
  5 bytes, and three 16-bit indices 2 bytes into the index buffer. No buffer starts at
  address 0, and the position buffer is 48 bytes long, which is room for two records
  after the offset and for three without it.
\<close>

definition f32PosAttr :: Attribute where
  "f32PosAttr = \<lparr>index = 1, size' = 3, typeEnum = 5126, normalized = Some False,
                  stride = Some 16, offset = Some 4, bufferId = 1\<rparr>"

definition f32NrmAttr :: Attribute where
  "f32NrmAttr = \<lparr>index = 2, size' = 3, typeEnum = 5120, normalized = Some True,
                  stride = Some 4, offset = Some 2, bufferId = 2\<rparr>"

definition f32UvAttr :: Attribute where
  "f32UvAttr = \<lparr>index = 3, size' = 2, typeEnum = 5123, normalized = Some True,
                 stride = Some 5, offset = Some 1, bufferId = 3\<rparr>"

definition f32Draw :: "jsnumber DrawCall" where
  "f32Draw = \<lparr>kind = ''drawElements'', mode = 4, count' = Finite 3, indexTypeEnum = 5123,
               indexOffset = Some 2, elementArrayBufferId = Some 4,
               attribs = Some [f32UvAttr, f32NrmAttr, f32PosAttr]\<rparr>"

definition f32PosBuf :: BufferEntry where
  "f32PosBuf = \<lparr>id' = 1, binOffset = 4, byteLength = 48\<rparr>"

definition f32NrmBuf :: BufferEntry where
  "f32NrmBuf = \<lparr>id' = 2, binOffset = 52, byteLength = 9\<rparr>"

definition f32UvBuf :: BufferEntry where
  "f32UvBuf = \<lparr>id' = 3, binOffset = 61, byteLength = 12\<rparr>"

definition f32IdxBuf :: BufferEntry where
  "f32IdxBuf = \<lparr>id' = 4, binOffset = 73, byteLength = 8\<rparr>"

definition f32Selected :: SelectedDraw where
  "f32Selected = \<lparr>draw = f32Draw,
                   buffersById = [1 \<mapsto> f32PosBuf, 2 \<mapsto> f32NrmBuf, 3 \<mapsto> f32UvBuf, 4 \<mapsto> f32IdxBuf]\<rparr>"

text \<open>
  The positions are \<open>(1, 2, -3)\<close> and \<open>(0.5, -1.5, 4)\<close>, the normal is \<open>(127, -127, -128)\<close>,
  the UVs are \<open>(65535, 0)\<close> and \<open>(0, 65535)\<close>, the indices 0, 1, 1.
\<close>

definition f32Bin :: "byte list" where
  "f32Bin = [9, 9, 9, 9,
             7, 7, 7, 7,  0, 0, 128, 63,  0, 0, 0, 64,  0, 0, 64, 192,
             7, 7, 7, 7,  0, 0, 0, 63,  0, 0, 192, 191,  0, 0, 128, 64,
             0, 0, 0, 0,  0, 0, 0, 0,  0, 0, 0, 0,  0, 0, 0, 0,
             5, 5,  127, 129, 128,  5, 5, 5, 5,
             6,  255, 255, 0, 0,  6,  0, 0, 255, 255,  6, 6,
             8, 8,  0, 0,  1, 0,  1, 0]"

definition f32Options :: DecodeOptions where
  "f32Options = \<lparr>scale = 2, biasX = 1, biasY = 0, biasZ = - 1, swapYZ = True, invertZ = True\<rparr>"

section \<open>Read addresses\<close>



text \<open>
  The addresses one channel dereferences: \<open>comps\<close> scalars of width \<open>w\<close> for each of
  \<open>cnt\<close> elements that lie \<open>step\<close> bytes apart from \<open>base\<close> on. \<open>readsWithin\<close> says that
  each of them lies within the raw buffer.
\<close>

definition readsWithin :: "byte list \<Rightarrow> int \<Rightarrow> int \<Rightarrow> int \<Rightarrow> int \<Rightarrow> int \<Rightarrow> bool" where
  "readsWithin dv base step w comps cnt =
     (\<forall>i \<in> {0..<cnt}. \<forall>c \<in> {0..<comps}. inBounds dv (base + i * step + c * w) w)"

text \<open>The same capture with \<open>0xFF\<close> as its first index byte, for draw calls with a signed index type.\<close>

definition exBinSigned :: "byte list" where
  "exBinSigned = [1, 0, 2, 0, 3, 0,  0, 1, 5, 0, 6, 0,  255, 1, 1,  255, 0, 0, 51]"

section \<open>Errors and loops\<close>

lemma bindE_simps [simp]:
  "bindE (Inl e) f = Inl e"
  "bindE (Inr x) f = f x"
  by (simp_all add: bindE_def)

lemma bindE_eq_Inr: "bindE m f = Inr y \<longleftrightarrow> (\<exists>x. m = Inr x \<and> f x = Inr y)"
  by (cases m) simp_all

lemma bindE_eq_Inl: "bindE m f = Inl e \<longleftrightarrow> m = Inl e \<or> (\<exists>x. m = Inr x \<and> f x = Inl e)"
  by (cases m) simp_all

lemma traverse_eq_Inr:
  "traverse f xs = Inr ys \<longleftrightarrow> length ys = length xs \<and> (\<forall>k < length xs. f (xs ! k) = Inr (ys ! k))"
proof (induction xs arbitrary: ys)
  case Nil
  show ?case by auto
next
  case (Cons x xs)
  show ?case
  proof (cases ys)
    case Nil
    then show ?thesis by (auto split: sum.splits)
  next
    case (Cons y ys')
    then show ?thesis
      using Cons.IH [of ys']
      by (auto simp: less_Suc_eq_0_disj split: sum.splits)
  qed
qed

lemma traverse_eq_Inl:
  "traverse f xs = Inl e \<Longrightarrow> \<exists>k < length xs. f (xs ! k) = Inl e"
proof (induction xs)
  case Nil
  then show ?case by simp
next
  case (Cons x xs)
  show ?case
  proof (cases "f x")
    case (Inl e')
    then show ?thesis using Cons.prems by auto
  next
    case (Inr v)
    then have "traverse f xs = Inl e"
      using Cons.prems by (auto split: sum.splits)
    then obtain k where "k < length xs" "f (xs ! k) = Inl e"
      using Cons.IH by blast
    then have "Suc k < length (x # xs) \<and> f ((x # xs) ! Suc k) = Inl e" by simp
    then show ?thesis by blast
  qed
qed

lemma traverse_all_Inr:
  "(\<forall>k < length xs. \<exists>v. f (xs ! k) = Inr v) \<Longrightarrow> \<exists>ys. traverse f xs = Inr ys"
proof (cases "traverse f xs")
  case (Inl e)
  assume a: "\<forall>k < length xs. \<exists>v. f (xs ! k) = Inr v"
  from traverse_eq_Inl [OF Inl] a show ?thesis by fastforce
next
  case (Inr ys)
  then show ?thesis by blast
qed

lemma forLoop_eq_Inr:
  "forLoop n body = Inr ys \<longleftrightarrow> length ys = n \<and> (\<forall>i < n. body i = Inr (ys ! i))"
  by (simp add: forLoop_def traverse_eq_Inr)

lemma forLoop_eq_Inl: "forLoop n body = Inl e \<Longrightarrow> \<exists>i < n. body i = Inl e"
  using traverse_eq_Inl [of body "[0..<n]" e] by (auto simp: forLoop_def)

lemma forLoop_all_Inr: "(\<forall>i < n. \<exists>v. body i = Inr v) \<Longrightarrow> \<exists>ys. forLoop n body = Inr ys"
  using traverse_all_Inr [of "[0..<n]" body] by (simp add: forLoop_def)

lemma traverse_map_sum:
  "(\<And>i. i \<in> set xs \<Longrightarrow> f i = map_sum id h (g i))
   \<Longrightarrow> traverse f xs = map_sum id (map h) (traverse g xs)"
  by (induction xs) (auto split: sum.splits)

lemma forLoop_map_sum:
  "(\<And>i. i < n \<Longrightarrow> f i = map_sum id h (g i))
   \<Longrightarrow> forLoop n f = map_sum id (map h) (forLoop n g)"
  unfolding forLoop_def by (rule traverse_map_sum) simp

lemma forLoop_Inr_map:
  assumes "forLoop n g = Inr vs" and "\<And>i. i < n \<Longrightarrow> f i = map_sum id h (g i)"
  shows "forLoop n f = Inr (map h vs)"
  using forLoop_map_sum [of n f h g] assms by simp

lemma concat_chunks_length:
  "(\<forall>v \<in> set vs. length v = m) \<Longrightarrow> length (concat vs) = m * length vs"
  by (induction vs) simp_all

lemma concat_chunks_nth:
  "(\<forall>v \<in> set vs. length v = m) \<Longrightarrow> i < length vs \<Longrightarrow> c < m
   \<Longrightarrow> concat vs ! (m * i + c) = vs ! i ! c"
proof (induction vs arbitrary: i)
  case Nil
  then show ?case by simp
next
  case (Cons v vs)
  show ?case
  proof (cases i)
    case 0
    then show ?thesis using Cons.prems by (simp add: nth_append)
  next
    case (Suc j)
    have "m * Suc j + c = length v + (m * j + c)"
      using Cons.prems(1) by simp
    then have "concat (v # vs) ! (m * Suc j + c) = concat vs ! (m * j + c)"
      by (simp add: nth_append)
    then show ?thesis
      using Cons.IH [of j] Cons.prems Suc by simp
  qed
qed

lemma forLoop_chunks:
  assumes "forLoop n body = Inr vs" and "\<And>i v. body i = Inr v \<Longrightarrow> length v = m"
  shows "length (concat vs) = m * n"
proof -
  have len: "length vs = n" and each: "\<And>i. i < n \<Longrightarrow> body i = Inr (vs ! i)"
    using assms(1) by (simp_all add: forLoop_eq_Inr)
  have "\<forall>v \<in> set vs. length v = m"
  proof
    fix v assume "v \<in> set vs"
    then obtain i where i: "i < n" "v = vs ! i"
      using len by (auto simp: in_set_conv_nth)
    from each [OF i(1)] i(2) have "body i = Inr v" by simp
    then show "length v = m" by (rule assms(2))
  qed
  from concat_chunks_length [OF this] len show ?thesis by simp
qed

section \<open>Scalar codec: facts\<close>

lemma bytesPerComponent_supported:
  "t \<in> supportedTypes \<Longrightarrow> \<exists>w. bytesPerComponent t = Inr w \<and> 0 < w"
  by (auto simp: supportedTypes_def bytesPerComponent_def)

lemma bytesPerComponent_Inr_supported: "bytesPerComponent t = Inr w \<Longrightarrow> t \<in> supportedTypes \<and> 0 < w"
  by (auto simp: supportedTypes_def bytesPerComponent_def split: if_splits)

lemma readScalar_in_bounds:
  "bytesPerComponent t = Inr w \<Longrightarrow> inBounds dv a w \<Longrightarrow> \<exists>v. readScalar P dv a t = Inr v"
  by (auto simp: bytesPerComponent_def readScalar_def getInt8_def getUint8_def getInt16_def
      getUint16_def getInt32_def getUint32_def getFloat32_def split: if_splits)

lemma readScalar_out_of_bounds:
  "bytesPerComponent t = Inr w \<Longrightarrow> \<not> inBounds dv a w \<Longrightarrow> readScalar P dv a t = Inl OffsetOutOfBounds"
  by (auto simp: bytesPerComponent_def readScalar_def getInt8_def getUint8_def getInt16_def
      getUint16_def getInt32_def getUint32_def getFloat32_def split: if_splits)

lemma readScalar_error:
  "bytesPerComponent t = Inr w \<Longrightarrow> readScalar P dv a t = Inl e \<Longrightarrow> e = OffsetOutOfBounds \<and> \<not> inBounds dv a w"
  by (auto simp: bytesPerComponent_def readScalar_def getInt8_def getUint8_def getInt16_def
      getUint16_def getInt32_def getUint32_def getFloat32_def split: if_splits)

lemma typedArrayLength_Finite:
  "typedArrayLength (intNumber k) = Inr n \<longleftrightarrow> 0 \<le> k \<and> n = nat k"
proof -
  have "real_of_int k \<le> - 1 \<longleftrightarrow> k \<le> - 1"
    using of_int_le_iff [of k "- 1", where ?'a = real] by simp
  then show ?thesis
    by (auto simp: typedArrayLength_def intNumber_def)
qed

lemma typedArrayLength_Inl: "typedArrayLength n = Inl e \<Longrightarrow> e = InvalidArrayLength"
  by (cases n) (auto simp: typedArrayLength_def split: if_splits)

lemma arrayLength_Finite:
  "arrayLength (intNumber k) = Inr m \<longleftrightarrow> 0 \<le> k \<and> k < 4294967296 \<and> m = nat k"
proof -
  have "real_of_int k < 4294967296 \<longleftrightarrow> k < 4294967296"
    using of_int_less_iff [of k 4294967296, where ?'a = real] by simp
  then show ?thesis
    by (auto simp: arrayLength_def intNumber_def)
qed

lemma arrayLength_Inr:
  "arrayLength c = Inr n \<longleftrightarrow> c = Finite (real n) \<and> n < 4294967296"
proof (cases c)
  case (Finite r)
  show ?thesis
  proof
    assume a: "arrayLength c = Inr n"
    then have r: "r = real_of_int \<lfloor>r\<rfloor>" "0 \<le> r" "r < 4294967296" "n = nat \<lfloor>r\<rfloor>"
      using Finite by (auto simp: arrayLength_def split: if_splits)
    have "0 \<le> \<lfloor>r\<rfloor>" using r(2) by simp
    then have "real n = real_of_int \<lfloor>r\<rfloor>" using r(4) by simp
    then have "real n = r" using r(1) by simp
    moreover from this r(3) have "n < 4294967296" by simp
    ultimately show "c = Finite (real n) \<and> n < 4294967296" using Finite by simp
  next
    assume "c = Finite (real n) \<and> n < 4294967296"
    then show "arrayLength c = Inr n" by (simp add: arrayLength_def)
  qed
qed (simp_all add: arrayLength_def)

lemma typedArrayLength_nat: "typedArrayLength (Finite (real n)) = Inr n"
proof -
  have "\<not> real n \<le> - 1"
    using of_nat_0_le_iff [of n, where ?'a = real] by linarith
  then show ?thesis by (simp add: typedArrayLength_def)
qed

lemma toUint32_of_int: "toUint32 (real_of_int k) = word_of_int k"
  by (simp add: toUint32_def)

lemma unat_word_of_int_32:
  "0 \<le> k \<Longrightarrow> k < 4294967296 \<Longrightarrow> real (unat (word_of_int k :: 32 word)) = real_of_int k"
  by (simp add: unat_eq_nat_uint uint_word_of_int take_bit_eq_mod)

lemma uint8_bound: "uint (w :: 8 word) < 4294967296"
  using uint_bounded [of w] by simp

lemma uint16_bound: "uint (w :: 16 word) < 4294967296"
  using uint_bounded [of w] by simp

lemma uint32_bound: "uint (w :: 32 word) < 4294967296"
  using uint_bounded [of w] by simp

lemma toUint32_unsigned_word:
  assumes "uint w < 4294967296"
  shows "(unsigned (toUint32 (unsigned w)) :: real) = unsigned w"
proof -
  have u: "(unsigned w :: real) = real_of_int (uint w)" by simp
  have "real (unat (toUint32 (real_of_int (uint w)))) = real_of_int (uint w)"
    unfolding toUint32_of_int using assms by (intro unat_word_of_int_32) simp_all
  then show ?thesis unfolding u by simp
qed

lemma toUint32_unsigned:
  assumes "t = 5121 \<or> t = 5123 \<or> t = 5125" and "readScalar P dv a t = Inr v"
  shows "real (unat (toUint32 v)) = v"
  using assms
  by (auto simp: readScalar_def getUint8_def getUint16_def getUint32_def
      toUint32_unsigned_word uint8_bound uint16_bound uint32_bound split: if_splits)








section \<open>Draw-call selector: facts\<close>

lemma eligible_iff:
  "eligible d \<longleftrightarrow> kind d = ''drawElements'' \<and> mode d = 4
     \<and> (\<exists>c. count' d = JNumber c)
     \<and> (\<exists>as. attribs d = Some as \<and> as \<noteq> [])
     \<and> (\<exists>n. elementArrayBufferId d = Some n \<and> n \<noteq> 0)"
  by (cases "count' d") (auto simp: eligible_def split: option.splits)

lemma eligible_number: "eligible d \<Longrightarrow> \<exists>c. count' d = JNumber c"
  by (simp add: eligible_iff)

lemma considerDraw_not_eligible: "\<not> eligible d \<Longrightarrow> considerDraw best d = best"
  by (cases "count' d") (auto simp: considerDraw_def eligible_def falsyId_def split: option.splits)

lemma considerDraw_eligible:
  "eligible d \<Longrightarrow> count' d = JNumber c \<Longrightarrow> considerDraw best d =
     (case best of None \<Rightarrow> Some (withCount d c)
      | Some b \<Rightarrow> if jsGreater c (count' b) then Some (withCount d c) else best)"
  by (auto simp: considerDraw_def eligible_def falsyId_def split: option.splits)

lemma count_withCount [simp]: "count' (withCount d c) = c"
  by (simp add: withCount_def)

lemma fold_nested_concat:
  "fold (\<lambda>x acc. fold f (g x) acc) xs acc = fold f (concat (map g xs)) acc"
  by (induction xs arbitrary: acc) simp_all

lemma pickMainDrawCall_bestOf:
  "pickMainDrawCall json =
     (case bestOf (allDraws json) of None \<Rightarrow> None
      | Some b \<Rightarrow> Some \<lparr>draw = b,
            buffersById = fold (\<lambda>buffer m. m(id' buffer \<mapsto> buffer)) (orEmpty (buffers json)) Map.empty\<rparr>)"
  by (simp add: pickMainDrawCall_def bestOf_def allDraws_def fold_nested_concat)

lemma bestOf_snoc: "bestOf (ds @ [d]) = considerDraw (bestOf ds) d"
  by (simp add: bestOf_def)

lemma jsGreater_irrefl: "\<not> jsGreater a a"
  by (cases a) simp_all

lemma jsGreater_step:
  "a \<noteq> NaN \<Longrightarrow> b \<noteq> NaN \<Longrightarrow> c \<noteq> NaN \<Longrightarrow> \<not> jsGreater a b \<Longrightarrow> jsGreater c b \<Longrightarrow> jsGreater c a"
  by (cases a; cases b; cases c) simp_all

lemma jsGreater_asym: "jsGreater a b \<Longrightarrow> \<not> jsGreater b a"
  by (cases a; cases b) simp_all

lemma bestOf_None: "bestOf ds = None \<longleftrightarrow> (\<forall>d \<in> set ds. \<not> eligible d)"
proof (induction ds rule: rev_induct)
  case Nil
  show ?case by (simp add: bestOf_def)
next
  case (snoc d ds)
  show ?case
  proof (cases "eligible d")
    case True
    then obtain c where "count' d = JNumber c"
      using eligible_number by blast
    with True show ?thesis
      by (auto simp: bestOf_snoc considerDraw_eligible split: option.splits)
  next
    case False
    then show ?thesis
      using snoc.IH by (auto simp: bestOf_snoc considerDraw_not_eligible)
  qed
qed

lemma bestOf_Some:
  assumes "\<forall>d \<in> set ds. eligible d \<longrightarrow> count' d \<noteq> JNumber NaN"
    and "bestOf ds = Some b"
  shows "\<exists>k c. firstGreatest ds k c \<and> b = withCount (ds ! k) c"
  using assms
proof (induction ds arbitrary: b rule: rev_induct)
  case Nil
  then show ?case by (simp add: bestOf_def)
next
  case (snoc d ds)
  have nan: "\<forall>e \<in> set ds. eligible e \<longrightarrow> count' e \<noteq> JNumber NaN"
    using snoc.prems(1) by simp
  show ?case
  proof (cases "eligible d")
    case False
    then have "bestOf ds = Some b"
      using snoc.prems(2) by (simp add: bestOf_snoc considerDraw_not_eligible)
    then obtain k c where k: "firstGreatest ds k c" "b = withCount (ds ! k) c"
      using snoc.IH [OF nan] by blast
    have "firstGreatest (ds @ [d]) k c"
      using k(1) False
      by (auto simp: firstGreatest_def nth_append less_Suc_eq)
    moreover have "b = withCount ((ds @ [d]) ! k) c"
      using k by (simp add: firstGreatest_def nth_append)
    ultimately show ?thesis by blast
  next
    case True
    then obtain cd where cd: "count' d = JNumber cd"
      using eligible_number by blast
    have dn: "cd \<noteq> NaN"
      using snoc.prems(1) True cd by auto
    note step = considerDraw_eligible [OF True cd]
    show ?thesis
    proof (cases "bestOf ds")
      case None
      then have b: "b = withCount d cd"
        using snoc.prems(2) by (simp add: bestOf_snoc step)
      have "\<forall>e \<in> set ds. \<not> eligible e"
        using None by (simp add: bestOf_None)
      then have "firstGreatest (ds @ [d]) (length ds) cd"
        using True cd
        by (auto simp: firstGreatest_def nth_append less_Suc_eq jsGreater_irrefl)
      moreover have "b = withCount ((ds @ [d]) ! length ds) cd"
        using b by simp
      ultimately show ?thesis by blast
    next
      case (Some b0)
      then obtain k c0 where k: "firstGreatest ds k c0" "b0 = withCount (ds ! k) c0"
        using snoc.IH [OF nan] by blast
      have cb: "count' b0 = c0"
        using k(2) by simp
      have kn: "c0 \<noteq> NaN"
        using k(1) nan by (auto simp: firstGreatest_def)
      show ?thesis
      proof (cases "jsGreater cd c0")
        case gt: True
        then have b: "b = withCount d cd"
          using snoc.prems(2) Some cb by (simp add: bestOf_snoc step)
        have below: "jsGreater cd c'"
          if "j < length ds" "eligible (ds ! j)" "count' (ds ! j) = JNumber c'" for j c'
        proof -
          have "c' \<noteq> NaN" using that nan by auto
          moreover have "\<not> jsGreater c' c0"
            using k(1) that by (auto simp: firstGreatest_def)
          ultimately show ?thesis
            using jsGreater_step [of c' c0 cd] kn dn gt by simp
        qed
        have "firstGreatest (ds @ [d]) (length ds) cd"
          using True cd below
          by (auto simp: firstGreatest_def nth_append less_Suc_eq jsGreater_irrefl
                   dest: jsGreater_asym)
        moreover have "b = withCount ((ds @ [d]) ! length ds) cd"
          using b by simp
        ultimately show ?thesis by blast
      next
        case ngt: False
        then have b: "b = b0"
          using snoc.prems(2) Some cb by (simp add: bestOf_snoc step)
        have "firstGreatest (ds @ [d]) k c0"
          using k ngt cd
          by (auto simp: firstGreatest_def nth_append less_Suc_eq)
        moreover have "b = withCount ((ds @ [d]) ! k) c0"
          using k b by (simp add: firstGreatest_def nth_append)
        ultimately show ?thesis by blast
      qed
    qed
  qed
qed

section \<open>Attribute classifier: facts\<close>

lemma truthy_Some_True: "truthy b \<longleftrightarrow> b = Some True"
  by (cases b) (simp_all add: truthy_def)

lemma findPositionAttrib_Some: "findPositionAttrib as = Some a \<Longrightarrow> isPositionLike a"
  by (auto simp: findPositionAttrib_def find_Some_iff)

lemma findNormalAttrib_Some: "findNormalAttrib as = Some a \<Longrightarrow> isNormalLike a"
  by (auto simp: findNormalAttrib_def find_Some_iff)

lemma findUvAttrib_Some: "findUvAttrib as = Some a \<Longrightarrow> isUvLike a"
  by (auto simp: findUvAttrib_def find_Some_iff)

lemma isPositionLike_width:
  "isPositionLike a \<Longrightarrow> bytesPerComponent (typeEnum a) = Inr (if typeEnum a = 5126 then 4 else 2)"
  by (auto simp: isPositionLike_def bytesPerComponent_def)

lemma isNormalLike_width:
  "isNormalLike a \<Longrightarrow> bytesPerComponent (typeEnum a) = Inr (if typeEnum a = 5120 then 1 else 2)"
  by (auto simp: isNormalLike_def bytesPerComponent_def)

lemma isUvLike_width:
  "isUvLike a \<Longrightarrow> bytesPerComponent (typeEnum a) = Inr (if typeEnum a = 5121 then 1 else 2)"
  by (auto simp: isUvLike_def bytesPerComponent_def)

lemma getStride_width:
  "bytesPerComponent (typeEnum a) = Inr w \<Longrightarrow>
   getStride a = Inr (case stride a of None \<Rightarrow> size' a * w | Some s \<Rightarrow> if s = 0 then size' a * w else s)"
  by (simp add: getStride_def split: option.splits)

lemma getStride_nonzero:
  assumes "isPositionLike a \<or> isNormalLike a \<or> isUvLike a"
  shows "\<exists>es. getStride a = Inr es \<and> es \<noteq> 0"
proof -
  obtain w where w: "bytesPerComponent (typeEnum a) = Inr w" "0 < w"
    using assms isPositionLike_width [of a] isNormalLike_width [of a] isUvLike_width [of a]
    by (auto split: if_splits)
  have "size' a \<noteq> 0"
    using assms by (auto simp: isPositionLike_def isNormalLike_def isUvLike_def)
  then have "size' a * w \<noteq> 0" using w(2) by simp
  then show ?thesis
    using getStride_width [OF w(1)] by (auto split: option.splits)
qed

section \<open>Vertex decoder: facts\<close>

subsection \<open>The stages of buildGltf\<close>

lemma buildGltf_stages:
  assumes "findPositionAttrib (sortedAttribs (draw sel)) = Some posA"
    and "buffersById sel (bufferId posA) = Some posBuf"
    and "lookupIndexBuffer (draw sel) (buffersById sel) = Some idxBuf"
    and "getStride posA = Inr es"
  shows "buildGltf P bin sel opts =
     bindE (decodeIndices P bin (draw sel) idxBuf) (\<lambda>is.
     bindE (decodePositions P bin opts posA posBuf es (orZero (offset posA))
              ((byteLength posBuf - orZero (offset posA)) div es)) (\<lambda>ps.
     bindE (decodeNormals P bin (buffersById sel) ((byteLength posBuf - orZero (offset posA)) div es)
              (findNormalAttrib (sortedAttribs (draw sel)))) (\<lambda>ns.
     bindE (decodeUvs P bin (buffersById sel) ((byteLength posBuf - orZero (offset posA)) div es)
              (findUvAttrib (sortedAttribs (draw sel)))) (\<lambda>ts.
       Inr \<lparr>indices = is, vertexCount = (byteLength posBuf - orZero (offset posA)) div es,
            positions = ps, normals = ns, uvs = ts\<rparr>))))"
  by (simp add: buildGltf_def Let_def assms)

lemma buildGltf_Inr:
  assumes "buildGltf P bin sel opts = Inr g"
  shows "\<exists>posA posBuf idxBuf es is ps ns ts.
      findPositionAttrib (sortedAttribs (draw sel)) = Some posA
    \<and> buffersById sel (bufferId posA) = Some posBuf
    \<and> lookupIndexBuffer (draw sel) (buffersById sel) = Some idxBuf
    \<and> getStride posA = Inr es \<and> es \<noteq> 0
    \<and> decodeIndices P bin (draw sel) idxBuf = Inr is
    \<and> decodePositions P bin opts posA posBuf es (orZero (offset posA))
         ((byteLength posBuf - orZero (offset posA)) div es) = Inr ps
    \<and> decodeNormals P bin (buffersById sel) ((byteLength posBuf - orZero (offset posA)) div es)
         (findNormalAttrib (sortedAttribs (draw sel))) = Inr ns
    \<and> decodeUvs P bin (buffersById sel) ((byteLength posBuf - orZero (offset posA)) div es)
         (findUvAttrib (sortedAttribs (draw sel))) = Inr ts
    \<and> g = \<lparr>indices = is, vertexCount = (byteLength posBuf - orZero (offset posA)) div es,
           positions = ps, normals = ns, uvs = ts\<rparr>"
proof -
  obtain posA where a: "findPositionAttrib (sortedAttribs (draw sel)) = Some posA"
    using assms by (auto simp: buildGltf_def Let_def split: option.splits)
  obtain posBuf where b: "buffersById sel (bufferId posA) = Some posBuf"
    using assms a by (auto simp: buildGltf_def Let_def split: option.splits)
  obtain idxBuf where c: "lookupIndexBuffer (draw sel) (buffersById sel) = Some idxBuf"
    using assms a b by (auto simp: buildGltf_def Let_def split: option.splits)
  obtain es where d: "getStride posA = Inr es" "es \<noteq> 0"
    using getStride_nonzero [of posA] findPositionAttrib_Some [OF a] by blast
  show ?thesis
    using assms unfolding buildGltf_stages [OF a b c d(1)]
    by (auto simp: bindE_eq_Inr a b c d)
qed

lemma buildGltf_Inl_stage:
  assumes "findPositionAttrib (sortedAttribs (draw sel)) = Some posA"
    and "buffersById sel (bufferId posA) = Some posBuf"
    and "lookupIndexBuffer (draw sel) (buffersById sel) = Some idxBuf"
    and "getStride posA = Inr es"
    and "buildGltf P bin sel opts = Inl e"
  shows "decodeIndices P bin (draw sel) idxBuf = Inl e
     \<or> decodePositions P bin opts posA posBuf es (orZero (offset posA))
          ((byteLength posBuf - orZero (offset posA)) div es) = Inl e
     \<or> decodeNormals P bin (buffersById sel) ((byteLength posBuf - orZero (offset posA)) div es)
          (findNormalAttrib (sortedAttribs (draw sel))) = Inl e
     \<or> decodeUvs P bin (buffersById sel) ((byteLength posBuf - orZero (offset posA)) div es)
          (findUvAttrib (sortedAttribs (draw sel))) = Inl e"
  using assms(5) unfolding buildGltf_stages [OF assms(1-4)]
  by (auto simp: bindE_eq_Inl)

subsection \<open>The position loop\<close>

lemma positionVertex_Inr:
  assumes "positionVertex P dv opts posA posBuf es off w i = Inr v"
  shows "\<exists>x y z.
      readScalar P dv (binOffset posBuf + off + int i * es + 0 * w) (typeEnum posA) = Inr x
    \<and> readScalar P dv (binOffset posBuf + off + int i * es + 1 * w) (typeEnum posA) = Inr y
    \<and> readScalar P dv (binOffset posBuf + off + int i * es + 2 * w) (typeEnum posA) = Inr z
    \<and> (let nx = (if truthy (normalized posA) then normalizeInt x (typeEnum posA) else x);
           ny = (if truthy (normalized posA) then normalizeInt y (typeEnum posA) else y);
           nz = (if truthy (normalized posA) then normalizeInt z (typeEnum posA) else z);
           x' = double P (double P (nx * scale opts) + biasX opts);
           y' = double P (double P (ny * scale opts) + biasY opts);
           z' = double P (double P (nz * scale opts) + biasZ opts);
           ys = (if swapYZ opts then z' else y');
           zs = (if swapYZ opts then y' else z');
           zf = (if invertZ opts then - zs else zs)
       in v = [fround P x', fround P ys, fround P zf])"
proof -
  let ?t = "typeEnum posA" and ?b = "binOffset posBuf + off + int i * es"
  obtain x y z where r:
    "readScalar P dv (?b + 0 * w) ?t = Inr x"
    "readScalar P dv (?b + 1 * w) ?t = Inr y"
    "readScalar P dv (?b + 2 * w) ?t = Inr z"
    and v: "(let (x, y, z) = (if truthy (normalized posA)
                         then (normalizeInt x ?t, normalizeInt y ?t, normalizeInt z ?t)
                         else (x, y, z));
                 (x, y, z) = transform P opts (x, y, z)
             in Inr [fround P x, fround P y, fround P z]) = (Inr v :: error + real list)"
    using assms unfolding positionVertex_def Let_def bindE_eq_Inr by blast
  have "let nx = (if truthy (normalized posA) then normalizeInt x ?t else x);
           ny = (if truthy (normalized posA) then normalizeInt y ?t else y);
           nz = (if truthy (normalized posA) then normalizeInt z ?t else z);
           x' = double P (double P (nx * scale opts) + biasX opts);
           y' = double P (double P (ny * scale opts) + biasY opts);
           z' = double P (double P (nz * scale opts) + biasZ opts);
           ys = (if swapYZ opts then z' else y');
           zs = (if swapYZ opts then y' else z');
           zf = (if invertZ opts then - zs else zs)
       in v = [fround P x', fround P ys, fround P zf]"
    using v
    by (cases "truthy (normalized posA)"; cases "swapYZ opts"; cases "invertZ opts";
        simp add: transform_def Let_def; blast)
  with r show ?thesis by blast
qed

lemma decodePositions_Inr:
  assumes "decodePositions P dv opts posA posBuf es off vc = Inr ps"
    and "bytesPerComponent (typeEnum posA) = Inr w"
  shows "0 \<le> vc \<and> length ps = 3 * nat vc
    \<and> (\<forall>i < nat vc. \<exists>x y z.
          readScalar P dv (binOffset posBuf + off + int i * es + 0 * w) (typeEnum posA) = Inr x
        \<and> readScalar P dv (binOffset posBuf + off + int i * es + 1 * w) (typeEnum posA) = Inr y
        \<and> readScalar P dv (binOffset posBuf + off + int i * es + 2 * w) (typeEnum posA) = Inr z
        \<and> (let nx = (if truthy (normalized posA) then normalizeInt x (typeEnum posA) else x);
               ny = (if truthy (normalized posA) then normalizeInt y (typeEnum posA) else y);
               nz = (if truthy (normalized posA) then normalizeInt z (typeEnum posA) else z);
               x' = double P (double P (nx * scale opts) + biasX opts);
               y' = double P (double P (ny * scale opts) + biasY opts);
               z' = double P (double P (nz * scale opts) + biasZ opts);
               ys = (if swapYZ opts then z' else y');
               zs = (if swapYZ opts then y' else z');
               zf = (if invertZ opts then - zs else zs)
           in ps ! (3 * i) = fround P x' \<and> ps ! (3 * i + 1) = fround P ys
              \<and> ps ! (3 * i + 2) = fround P zf))"
proof -
  obtain vs where nonneg: "0 \<le> vc"
    and loop: "forLoop (nat vc) (positionVertex P dv opts posA posBuf es off w) = Inr vs"
    and ps: "ps = concat vs"
    using assms
    by (auto simp: decodePositions_def bindE_eq_Inr typedArrayLength_Finite)
  have len: "length vs = nat vc"
    and each: "\<And>i. i < nat vc \<Longrightarrow> positionVertex P dv opts posA posBuf es off w i = Inr (vs ! i)"
    using loop by (simp_all add: forLoop_eq_Inr)
  have three: "\<forall>v \<in> set vs. length v = 3"
  proof
    fix v assume "v \<in> set vs"
    then obtain i where i: "i < length vs" "v = vs ! i"
      by (auto simp: in_set_conv_nth)
    from positionVertex_Inr [OF each [of i]] i len show "length v = 3"
      by (auto simp: Let_def)
  qed
  have l: "length ps = 3 * nat vc"
    using concat_chunks_length [OF three] len ps by simp
  have "\<exists>x y z.
          readScalar P dv (binOffset posBuf + off + int i * es + 0 * w) (typeEnum posA) = Inr x
        \<and> readScalar P dv (binOffset posBuf + off + int i * es + 1 * w) (typeEnum posA) = Inr y
        \<and> readScalar P dv (binOffset posBuf + off + int i * es + 2 * w) (typeEnum posA) = Inr z
        \<and> (let nx = (if truthy (normalized posA) then normalizeInt x (typeEnum posA) else x);
               ny = (if truthy (normalized posA) then normalizeInt y (typeEnum posA) else y);
               nz = (if truthy (normalized posA) then normalizeInt z (typeEnum posA) else z);
               x' = double P (double P (nx * scale opts) + biasX opts);
               y' = double P (double P (ny * scale opts) + biasY opts);
               z' = double P (double P (nz * scale opts) + biasZ opts);
               ys = (if swapYZ opts then z' else y');
               zs = (if swapYZ opts then y' else z');
               zf = (if invertZ opts then - zs else zs)
           in ps ! (3 * i) = fround P x' \<and> ps ! (3 * i + 1) = fround P ys
              \<and> ps ! (3 * i + 2) = fround P zf)" if i: "i < nat vc" for i
  proof -
    have n0: "ps ! (3 * i) = vs ! i ! 0"
      using concat_chunks_nth [OF three, of i 0] i len ps by simp
    have n1: "ps ! (3 * i + 1) = vs ! i ! 1"
      using concat_chunks_nth [OF three, of i 1] i len ps by simp
    have n2: "ps ! (3 * i + 2) = vs ! i ! 2"
      using concat_chunks_nth [OF three, of i 2] i len ps by simp
    from positionVertex_Inr [OF each [OF i]] show ?thesis
      unfolding n0 n1 n2 Let_def
      by (elim exE conjE) (intro exI conjI, assumption+, simp_all)
  qed
  with nonneg l show ?thesis by blast
qed

lemma decodePositions_length:
  assumes "decodePositions P dv opts posA posBuf es off vc = Inr ps"
    and "bytesPerComponent (typeEnum posA) = Inr w"
  shows "0 \<le> vc \<and> length ps = 3 * nat vc"
  using decodePositions_Inr [OF assms] by blast

subsection \<open>The optional channels\<close>

lemma normalVertex_length: "normalVertex P dv a buf es off w i = Inr v \<Longrightarrow> length v = 3"
  by (auto simp: normalVertex_def Let_def bindE_eq_Inr split: if_splits)

lemma uvVertex_length: "uvVertex P dv a buf es off w i = Inr v \<Longrightarrow> length v = 2"
  by (auto simp: uvVertex_def Let_def bindE_eq_Inr split: if_splits)

lemma decodeNormals_Some:
  assumes "decodeNormals P dv byId vc nrmA' = Inr (Some ns)"
  shows "\<exists>a buf es. nrmA' = Some a \<and> byId (bufferId a) = Some buf \<and> getStride a = Inr es
     \<and> 0 \<le> min vc ((byteLength buf - orZero (offset a)) div es)
     \<and> length ns = 3 * nat (min vc ((byteLength buf - orZero (offset a)) div es))"
proof -
  obtain a where a: "nrmA' = Some a"
    using assms by (cases nrmA') (simp_all add: decodeNormals_def)
  obtain buf where buf: "byId (bufferId a) = Some buf"
    using assms a by (cases "byId (bufferId a)") (simp_all add: decodeNormals_def)
  let ?c = "\<lambda>es. min vc ((byteLength buf - orZero (offset a)) div es)"
  obtain es w vs where es: "getStride a = Inr es" and nonneg: "0 \<le> ?c es * 3"
    and loop: "forLoop (nat (?c es)) (normalVertex P dv a buf es (orZero (offset a)) w) = Inr vs"
    and ns: "ns = concat vs"
    using assms a buf
    by (auto simp: decodeNormals_def Let_def bindE_eq_Inr typedArrayLength_Finite)
  have "length ns = 3 * nat (?c es)"
    using forLoop_chunks [OF loop normalVertex_length] ns by simp
  with a buf es nonneg show ?thesis by auto
qed

lemma decodeUvs_Some:
  assumes "decodeUvs P dv byId vc uvA' = Inr (Some ts)"
  shows "\<exists>a buf es. uvA' = Some a \<and> byId (bufferId a) = Some buf \<and> getStride a = Inr es
     \<and> 0 \<le> min vc ((byteLength buf - orZero (offset a)) div es)
     \<and> length ts = 2 * nat (min vc ((byteLength buf - orZero (offset a)) div es))"
proof -
  obtain a where a: "uvA' = Some a"
    using assms by (cases uvA') (simp_all add: decodeUvs_def)
  obtain buf where buf: "byId (bufferId a) = Some buf"
    using assms a by (cases "byId (bufferId a)") (simp_all add: decodeUvs_def)
  let ?c = "\<lambda>es. min vc ((byteLength buf - orZero (offset a)) div es)"
  obtain es w vs where es: "getStride a = Inr es" and nonneg: "0 \<le> ?c es * 2"
    and loop: "forLoop (nat (?c es)) (uvVertex P dv a buf es (orZero (offset a)) w) = Inr vs"
    and ts: "ts = concat vs"
    using assms a buf
    by (auto simp: decodeUvs_def Let_def bindE_eq_Inr typedArrayLength_Finite)
  have "length ts = 2 * nat (?c es)"
    using forLoop_chunks [OF loop uvVertex_length] ts by simp
  with a buf es nonneg show ?thesis by auto
qed

subsection \<open>Lookups and missing channels\<close>

lemma decodeNormals_absent:
  "nrmA' = None \<or> (\<exists>a. nrmA' = Some a \<and> byId (bufferId a) = None)
   \<Longrightarrow> decodeNormals P dv byId vc nrmA' = Inr None"
  by (auto simp: decodeNormals_def)

lemma decodeUvs_absent:
  "uvA' = None \<or> (\<exists>a. uvA' = Some a \<and> byId (bufferId a) = None)
   \<Longrightarrow> decodeUvs P dv byId vc uvA' = Inr None"
  by (auto simp: decodeUvs_def)

lemma buildGltf_no_position: 
  "findPositionAttrib (sortedAttribs (draw sel)) = None
   \<Longrightarrow> buildGltf P bin sel opts = Inl MissingPositionAttribute"
  by (simp add: buildGltf_def Let_def)

lemma buildGltf_no_position_buffer:
  "findPositionAttrib (sortedAttribs (draw sel)) = Some posA
   \<Longrightarrow> buffersById sel (bufferId posA) = None
   \<Longrightarrow> buildGltf P bin sel opts = Inl MissingPositionBuffer"
  by (simp add: buildGltf_def Let_def)

lemma buildGltf_no_index_buffer:
  "findPositionAttrib (sortedAttribs (draw sel)) = Some posA
   \<Longrightarrow> buffersById sel (bufferId posA) = Some posBuf
   \<Longrightarrow> lookupIndexBuffer (draw sel) (buffersById sel) = None
   \<Longrightarrow> buildGltf P bin sel opts = Inl MissingIndexBuffer"
  by (simp add: buildGltf_def Let_def)

lemma buildGltf_normals_absent:
  assumes "findPositionAttrib (sortedAttribs (draw sel)) = Some posA"
    and "buffersById sel (bufferId posA) = Some posBuf"
    and "lookupIndexBuffer (draw sel) (buffersById sel) = Some idxBuf"
    and "getStride posA = Inr es"
    and "findNormalAttrib (sortedAttribs (draw sel)) = None
         \<or> (\<exists>a. findNormalAttrib (sortedAttribs (draw sel)) = Some a
                \<and> buffersById sel (bufferId a) = None)"
  shows "buildGltf P bin sel opts =
     bindE (decodeIndices P bin (draw sel) idxBuf) (\<lambda>is.
     bindE (decodePositions P bin opts posA posBuf es (orZero (offset posA))
              ((byteLength posBuf - orZero (offset posA)) div es)) (\<lambda>ps.
     bindE (decodeUvs P bin (buffersById sel) ((byteLength posBuf - orZero (offset posA)) div es)
              (findUvAttrib (sortedAttribs (draw sel)))) (\<lambda>ts.
       Inr \<lparr>indices = is, vertexCount = (byteLength posBuf - orZero (offset posA)) div es,
            positions = ps, normals = None, uvs = ts\<rparr>)))"
  unfolding buildGltf_stages [OF assms(1-4)] decodeNormals_absent [OF assms(5)] by simp

lemma buildGltf_uvs_absent:
  assumes "findPositionAttrib (sortedAttribs (draw sel)) = Some posA"
    and "buffersById sel (bufferId posA) = Some posBuf"
    and "lookupIndexBuffer (draw sel) (buffersById sel) = Some idxBuf"
    and "getStride posA = Inr es"
    and "findUvAttrib (sortedAttribs (draw sel)) = None
         \<or> (\<exists>a. findUvAttrib (sortedAttribs (draw sel)) = Some a
                \<and> buffersById sel (bufferId a) = None)"
  shows "buildGltf P bin sel opts =
     bindE (decodeIndices P bin (draw sel) idxBuf) (\<lambda>is.
     bindE (decodePositions P bin opts posA posBuf es (orZero (offset posA))
              ((byteLength posBuf - orZero (offset posA)) div es)) (\<lambda>ps.
     bindE (decodeNormals P bin (buffersById sel) ((byteLength posBuf - orZero (offset posA)) div es)
              (findNormalAttrib (sortedAttribs (draw sel)))) (\<lambda>ns.
       Inr \<lparr>indices = is, vertexCount = (byteLength posBuf - orZero (offset posA)) div es,
            positions = ps, normals = ns, uvs = None\<rparr>)))"
  unfolding buildGltf_stages [OF assms(1-4)] decodeUvs_absent [OF assms(5)] by simp

lemma buildGltf_normals_None:
  assumes "buildGltf P bin sel opts = Inr g"
    and "findNormalAttrib (sortedAttribs (draw sel)) = None
         \<or> (\<exists>a. findNormalAttrib (sortedAttribs (draw sel)) = Some a
                \<and> buffersById sel (bufferId a) = None)"
  shows "normals g = None"
proof -
  from buildGltf_Inr [OF assms(1)] obtain vc ixs ps ns ts where
    dn: "decodeNormals P bin (buffersById sel) vc (findNormalAttrib (sortedAttribs (draw sel))) = Inr ns"
    and g: "g = \<lparr>indices = ixs, vertexCount = vc, positions = ps, normals = ns, uvs = ts\<rparr>"
    by blast
  from dn decodeNormals_absent [OF assms(2), of P bin vc] g show ?thesis by simp
qed

lemma buildGltf_uvs_None:
  assumes "buildGltf P bin sel opts = Inr g"
    and "findUvAttrib (sortedAttribs (draw sel)) = None
         \<or> (\<exists>a. findUvAttrib (sortedAttribs (draw sel)) = Some a
                \<and> buffersById sel (bufferId a) = None)"
  shows "uvs g = None"
proof -
  from buildGltf_Inr [OF assms(1)] obtain vc ixs ps ns ts where
    du: "decodeUvs P bin (buffersById sel) vc (findUvAttrib (sortedAttribs (draw sel))) = Inr ts"
    and g: "g = \<lparr>indices = ixs, vertexCount = vc, positions = ps, normals = ns, uvs = ts\<rparr>"
    by blast
  from du decodeUvs_absent [OF assms(2), of P bin vc] g show ?thesis by simp
qed

subsection \<open>What can go wrong in each stage\<close>

lemma loop_not_within:
  assumes "i < nat cnt"
    and "\<exists>c \<in> {0..<comps}. \<not> inBounds dv (base + int i * es + c * w) w"
  shows "\<not> readsWithin dv base es w comps cnt"
proof -
  have "int i \<in> {0..<cnt}" using assms(1) by auto
  with assms(2) show ?thesis unfolding readsWithin_def by blast
qed

lemma decodeIndices_Inl:
  assumes "decodeIndices P dv d idxBuf = Inl e"
    and "bytesPerComponent (indexTypeEnum d) = Inr bpc"
  shows "e = InvalidArrayLength
     \<or> (e = OffsetOutOfBounds
        \<and> (\<exists>r. count' d = Finite r
              \<and> \<not> readsWithin dv (binOffset idxBuf + orZero (indexOffset d)) bpc bpc 1 \<lceil>r\<rceil>))"
proof (cases "typedArrayLength (count' d)")
  case (Inl e')
  then have "e = e'"
    using assms by (simp add: decodeIndices_def Let_def)
  then show ?thesis using typedArrayLength_Inl [OF Inl] by simp
next
  case (Inr m)
  let ?a = "\<lambda>i. binOffset idxBuf + orZero (indexOffset d) + int i * bpc"
  let ?n = "case count' d of Finite r \<Rightarrow> nat \<lceil>r\<rceil> | _ \<Rightarrow> 0"
  have "forLoop ?n (\<lambda>i. bindE (readScalar P dv (?a i) (indexTypeEnum d)) (\<lambda>v. Inr (toUint32 v))) = Inl e"
    using assms Inr by (auto simp: decodeIndices_def Let_def bindE_eq_Inl)
  from forLoop_eq_Inl [OF this] obtain i where i: "i < ?n"
    and "readScalar P dv (?a i) (indexTypeEnum d) = Inl e"
    by (auto simp: bindE_eq_Inl)
  from readScalar_error [OF assms(2) this(2)]
  have e: "e = OffsetOutOfBounds" and nb: "\<not> inBounds dv (?a i) bpc" by simp_all
  from i obtain r where r: "count' d = Finite r" "i < nat \<lceil>r\<rceil>"
    by (cases "count' d") simp_all
  have "\<exists>c \<in> {0..<1}. \<not> inBounds dv (binOffset idxBuf + orZero (indexOffset d) + int i * bpc + c * bpc) bpc"
    using nb by (auto intro!: bexI [of _ 0])
  with r(2) have "\<not> readsWithin dv (binOffset idxBuf + orZero (indexOffset d)) bpc bpc 1 \<lceil>r\<rceil>"
    by (rule loop_not_within)
  with e r(1) show ?thesis by blast
qed

lemma vertex3_Inl:
  assumes "bindE (readScalar P dv (b + 0 * w) t) (\<lambda>x.
           bindE (readScalar P dv (b + 1 * w) t) (\<lambda>y.
           bindE (readScalar P dv (b + 2 * w) t) (\<lambda>z. Inr (f x y z)))) = Inl e"
    and "bytesPerComponent t = Inr w"
  shows "e = OffsetOutOfBounds \<and> (\<exists>c \<in> {0..<3}. \<not> inBounds dv (b + c * w) w)"
proof -
  from assms(1) consider
      "readScalar P dv (b + 0 * w) t = Inl e"
    | "readScalar P dv (b + 1 * w) t = Inl e"
    | "readScalar P dv (b + 2 * w) t = Inl e"
    by (auto simp: bindE_eq_Inl)
  then show ?thesis
  proof cases
    case 1
    from readScalar_error [OF assms(2) 1] show ?thesis
      by (auto intro!: bexI [of _ 0])
  next
    case 2
    from readScalar_error [OF assms(2) 2] show ?thesis
      by (auto intro!: bexI [of _ 1])
  next
    case 3
    from readScalar_error [OF assms(2) 3] show ?thesis
      by (auto intro!: bexI [of _ 2])
  qed
qed

lemma vertex2_Inl:
  assumes "bindE (readScalar P dv (b + 0 * w) t) (\<lambda>x.
           bindE (readScalar P dv (b + 1 * w) t) (\<lambda>y. Inr (f x y))) = Inl e"
    and "bytesPerComponent t = Inr w"
  shows "e = OffsetOutOfBounds \<and> (\<exists>c \<in> {0..<2}. \<not> inBounds dv (b + c * w) w)"
proof -
  from assms(1) consider
      "readScalar P dv (b + 0 * w) t = Inl e"
    | "readScalar P dv (b + 1 * w) t = Inl e"
    by (auto simp: bindE_eq_Inl)
  then show ?thesis
  proof cases
    case 1
    from readScalar_error [OF assms(2) 1] show ?thesis
      by (auto intro!: bexI [of _ 0])
  next
    case 2
    from readScalar_error [OF assms(2) 2] show ?thesis
      by (auto intro!: bexI [of _ 1])
  qed
qed

lemma positionVertex_Inl:
  assumes "positionVertex P dv opts posA posBuf es off w i = Inl e"
    and "bytesPerComponent (typeEnum posA) = Inr w"
  shows "e = OffsetOutOfBounds
     \<and> (\<exists>c \<in> {0..<3}. \<not> inBounds dv (binOffset posBuf + off + int i * es + c * w) w)"
  using assms(1) unfolding positionVertex_def Let_def split_def
  by (rule vertex3_Inl [OF _ assms(2)])

lemma normalVertex_Inl:
  assumes "normalVertex P dv a buf es off w i = Inl e"
    and "bytesPerComponent (typeEnum a) = Inr w"
  shows "e = OffsetOutOfBounds
     \<and> (\<exists>c \<in> {0..<3}. \<not> inBounds dv (binOffset buf + off + int i * es + c * w) w)"
  using assms(1) unfolding normalVertex_def Let_def split_def
  by (rule vertex3_Inl [OF _ assms(2)])

lemma uvVertex_Inl:
  assumes "uvVertex P dv a buf es off w i = Inl e"
    and "bytesPerComponent (typeEnum a) = Inr w"
  shows "e = OffsetOutOfBounds
     \<and> (\<exists>c \<in> {0..<2}. \<not> inBounds dv (binOffset buf + off + int i * es + c * w) w)"
  using assms(1) unfolding uvVertex_def Let_def split_def
  by (rule vertex2_Inl [OF _ assms(2)])

lemma decodePositions_Inl:
  assumes "decodePositions P dv opts posA posBuf es off vc = Inl e"
    and "bytesPerComponent (typeEnum posA) = Inr w"
  shows "e = InvalidArrayLength
     \<or> (e = OffsetOutOfBounds \<and> \<not> readsWithin dv (binOffset posBuf + off) es w 3 vc)"
proof (cases "typedArrayLength (intNumber (vc * 3))")
  case (Inl e')
  then have "e = e'"
    using assms by (simp add: decodePositions_def)
  then show ?thesis using typedArrayLength_Inl [OF Inl] by simp
next
  case (Inr m)
  have "forLoop (nat vc) (positionVertex P dv opts posA posBuf es off w) = Inl e"
    using assms Inr by (auto simp: decodePositions_def bindE_eq_Inl)
  from forLoop_eq_Inl [OF this] obtain i where i: "i < nat vc"
    and "positionVertex P dv opts posA posBuf es off w i = Inl e"
    by blast
  from positionVertex_Inl [OF this(2) assms(2)] loop_not_within [OF i]
  show ?thesis by blast
qed

lemma decodeNormals_Inl:
  assumes "decodeNormals P dv byId vc nrmA' = Inl e"
    and "\<And>a. nrmA' = Some a \<Longrightarrow> isNormalLike a"
  shows "e = InvalidArrayLength
     \<or> (e = OffsetOutOfBounds
        \<and> (\<exists>a buf es w. nrmA' = Some a \<and> byId (bufferId a) = Some buf
              \<and> getStride a = Inr es \<and> bytesPerComponent (typeEnum a) = Inr w
              \<and> \<not> readsWithin dv (binOffset buf + orZero (offset a)) es w 3
                     (min vc ((byteLength buf - orZero (offset a)) div es))))"
proof -
  obtain a where a: "nrmA' = Some a"
    using assms(1) by (cases nrmA') (simp_all add: decodeNormals_def)
  obtain buf where buf: "byId (bufferId a) = Some buf"
    using assms(1) a by (cases "byId (bufferId a)") (simp_all add: decodeNormals_def)
  obtain w where w: "bytesPerComponent (typeEnum a) = Inr w"
    using isNormalLike_width [OF assms(2) [OF a]] by blast
  obtain es where es: "getStride a = Inr es"
    using getStride_nonzero [of a] assms(2) [OF a] by blast
  let ?c = "min vc ((byteLength buf - orZero (offset a)) div es)"
  show ?thesis
  proof (cases "typedArrayLength (intNumber (?c * 3))")
    case (Inl e')
    then have "e = e'"
      using assms(1) a buf es by (simp add: decodeNormals_def Let_def)
    then show ?thesis using typedArrayLength_Inl [OF Inl] by simp
  next
    case (Inr m)
    have "forLoop (nat ?c) (normalVertex P dv a buf es (orZero (offset a)) w) = Inl e"
      using assms(1) a buf es w Inr by (auto simp: decodeNormals_def Let_def bindE_eq_Inl)
    from forLoop_eq_Inl [OF this] obtain i where i: "i < nat ?c"
      and "normalVertex P dv a buf es (orZero (offset a)) w i = Inl e"
      by blast
    from normalVertex_Inl [OF this(2) w] loop_not_within [OF i] a buf es w
    show ?thesis by blast
  qed
qed

lemma decodeUvs_Inl:
  assumes "decodeUvs P dv byId vc uvA' = Inl e"
    and "\<And>a. uvA' = Some a \<Longrightarrow> isUvLike a"
  shows "e = InvalidArrayLength
     \<or> (e = OffsetOutOfBounds
        \<and> (\<exists>a buf es w. uvA' = Some a \<and> byId (bufferId a) = Some buf
              \<and> getStride a = Inr es \<and> bytesPerComponent (typeEnum a) = Inr w
              \<and> \<not> readsWithin dv (binOffset buf + orZero (offset a)) es w 2
                     (min vc ((byteLength buf - orZero (offset a)) div es))))"
proof -
  obtain a where a: "uvA' = Some a"
    using assms(1) by (cases uvA') (simp_all add: decodeUvs_def)
  obtain buf where buf: "byId (bufferId a) = Some buf"
    using assms(1) a by (cases "byId (bufferId a)") (simp_all add: decodeUvs_def)
  obtain w where w: "bytesPerComponent (typeEnum a) = Inr w"
    using isUvLike_width [OF assms(2) [OF a]] by blast
  obtain es where es: "getStride a = Inr es"
    using getStride_nonzero [of a] assms(2) [OF a] by blast
  let ?c = "min vc ((byteLength buf - orZero (offset a)) div es)"
  show ?thesis
  proof (cases "typedArrayLength (intNumber (?c * 2))")
    case (Inl e')
    then have "e = e'"
      using assms(1) a buf es by (simp add: decodeUvs_def Let_def)
    then show ?thesis using typedArrayLength_Inl [OF Inl] by simp
  next
    case (Inr m)
    have "forLoop (nat ?c) (uvVertex P dv a buf es (orZero (offset a)) w) = Inl e"
      using assms(1) a buf es w Inr by (auto simp: decodeUvs_def Let_def bindE_eq_Inl)
    from forLoop_eq_Inl [OF this] obtain i where i: "i < nat ?c"
      and "uvVertex P dv a buf es (orZero (offset a)) w i = Inl e"
      by blast
    from uvVertex_Inl [OF this(2) w] loop_not_within [OF i] a buf es w
    show ?thesis by blast
  qed
qed

section \<open>buildObj against buildGltf: facts\<close>

lemma positionVertex_obj:
  assumes "bytesPerComponent (typeEnum posA) = Inr w"
  shows "positionVertex P dv opts posA posBuf es off w i
       = map_sum id (map (fround P)) (objPositionVertex P dv opts posA posBuf es off i)"
  unfolding positionVertex_def objPositionVertex_def Let_def assms bindE_simps
  by (auto simp: bindE_def split_def split: sum.splits)

lemma normalVertex_obj:
  assumes "bytesPerComponent (typeEnum a) = Inr w"
  shows "normalVertex P dv a buf es off w i
       = map_sum id (map (fround P)) (objNormalVertex P dv a buf es off i)"
  unfolding normalVertex_def objNormalVertex_def Let_def assms bindE_simps
  by (auto simp: bindE_def split_def split: sum.splits)

lemma uvVertex_obj:
  assumes "bytesPerComponent (typeEnum a) = Inr w"
  shows "uvVertex P dv a buf es off w i
       = map_sum id (map (fround P)) (objUvVertex P dv a buf es off i)"
  unfolding uvVertex_def objUvVertex_def Let_def assms bindE_simps
  by (auto simp: bindE_def split_def split: sum.splits)

lemma objNormals_decodeNormals:
  assumes "objNormals' P dv byId vc nrmA' = Inr ns"
    and "\<And>a. nrmA' = Some a \<Longrightarrow> isNormalLike a"
  shows "decodeNormals P dv byId vc nrmA' = Inr (map_option (\<lambda>vs. map (fround P) (concat vs)) ns)"
proof (cases nrmA')
  case None
  then show ?thesis using assms(1) by (auto simp: objNormals'_def decodeNormals_def)
next
  case (Some a)
  show ?thesis
  proof (cases "byId (bufferId a)")
    case None
    then show ?thesis using assms(1) Some by (auto simp: objNormals'_def decodeNormals_def)
  next
    case buf: (Some buf)
    obtain w where w: "bytesPerComponent (typeEnum a) = Inr w"
      using isNormalLike_width [OF assms(2) [OF Some]] by blast
    let ?c = "\<lambda>es. min vc ((byteLength buf - orZero (offset a)) div es)"
    obtain es vs where es: "getStride a = Inr es" and nonneg: "0 \<le> ?c es"
      and loop: "forLoop (nat (?c es)) (objNormalVertex P dv a buf es (orZero (offset a))) = Inr vs"
      and ns: "ns = Some vs"
      using assms(1) Some buf
      by (auto simp: objNormals'_def Let_def bindE_eq_Inr arrayLength_Finite)
    have "forLoop (nat (?c es)) (normalVertex P dv a buf es (orZero (offset a)) w)
            = Inr (map (map (fround P)) vs)"
      by (rule forLoop_Inr_map [OF loop]) (rule normalVertex_obj [OF w])
    moreover have "typedArrayLength (intNumber (?c es * 3)) = Inr (nat (?c es * 3))"
      using nonneg by (simp only: typedArrayLength_Finite simp_thms mult_nonneg_nonneg zero_le_numeral)
    ultimately show ?thesis
      using Some buf es w ns
      by (simp add: decodeNormals_def Let_def map_concat)
  qed
qed

lemma objUvs_decodeUvs:
  assumes "objUvs' P dv byId vc uvA' = Inr ts"
    and "\<And>a. uvA' = Some a \<Longrightarrow> isUvLike a"
  shows "decodeUvs P dv byId vc uvA' = Inr (map_option (\<lambda>vs. map (fround P) (concat vs)) ts)"
proof (cases uvA')
  case None
  then show ?thesis using assms(1) by (auto simp: objUvs'_def decodeUvs_def)
next
  case (Some a)
  show ?thesis
  proof (cases "byId (bufferId a)")
    case None
    then show ?thesis using assms(1) Some by (auto simp: objUvs'_def decodeUvs_def)
  next
    case buf: (Some buf)
    obtain w where w: "bytesPerComponent (typeEnum a) = Inr w"
      using isUvLike_width [OF assms(2) [OF Some]] by blast
    let ?c = "\<lambda>es. min vc ((byteLength buf - orZero (offset a)) div es)"
    obtain es vs where es: "getStride a = Inr es" and nonneg: "0 \<le> ?c es"
      and loop: "forLoop (nat (?c es)) (objUvVertex P dv a buf es (orZero (offset a))) = Inr vs"
      and ts: "ts = Some vs"
      using assms(1) Some buf
      by (auto simp: objUvs'_def Let_def bindE_eq_Inr arrayLength_Finite)
    have "forLoop (nat (?c es)) (uvVertex P dv a buf es (orZero (offset a)) w)
            = Inr (map (map (fround P)) vs)"
      by (rule forLoop_Inr_map [OF loop]) (rule uvVertex_obj [OF w])
    moreover have "typedArrayLength (intNumber (?c es * 2)) = Inr (nat (?c es * 2))"
      using nonneg by (simp only: typedArrayLength_Finite simp_thms mult_nonneg_nonneg zero_le_numeral)
    ultimately show ?thesis
      using Some buf es w ts
      by (simp add: decodeUvs_def Let_def map_concat)
  qed
qed

lemma buildObj_stages:
  assumes "findPositionAttrib (sortedAttribs (draw sel)) = Some posA"
    and "buffersById sel (bufferId posA) = Some posBuf"
    and "lookupIndexBuffer (draw sel) (buffersById sel) = Some idxBuf"
    and "bytesPerComponent (indexTypeEnum (draw sel)) = Inr idxBpc"
    and "getStride posA = Inr es"
  shows "buildObj P bin sel opts =
     bindE (arrayLength (intNumber ((byteLength posBuf - orZero (offset posA)) div es))) (\<lambda>len.
     bindE (forLoop len (objPositionVertex P bin opts posA posBuf es (orZero (offset posA)))) (\<lambda>vs.
     bindE (objNormals' P bin (buffersById sel) ((byteLength posBuf - orZero (offset posA)) div es)
              (findNormalAttrib (sortedAttribs (draw sel)))) (\<lambda>ns.
     bindE (objUvs' P bin (buffersById sel) ((byteLength posBuf - orZero (offset posA)) div es)
              (findUvAttrib (sortedAttribs (draw sel)))) (\<lambda>ts.
     bindE (arrayLength (count' (draw sel))) (\<lambda>n.
     bindE (forLoop n (\<lambda>i. readScalar P bin
              (binOffset idxBuf + orZero (indexOffset (draw sel)) + int i * idxBpc)
              (indexTypeEnum (draw sel)))) (\<lambda>is.
       Inr \<lparr>objVertices = vs, objNormals = ns, objUvs = ts, objIndices = is\<rparr>))))))"
  by (simp add: buildObj_def Let_def assms)

lemma buildObj_Inr:
  assumes "buildObj P bin sel opts = Inr ob"
  shows "\<exists>posA posBuf idxBuf idxBpc es n.
      findPositionAttrib (sortedAttribs (draw sel)) = Some posA
    \<and> buffersById sel (bufferId posA) = Some posBuf
    \<and> lookupIndexBuffer (draw sel) (buffersById sel) = Some idxBuf
    \<and> bytesPerComponent (indexTypeEnum (draw sel)) = Inr idxBpc
    \<and> getStride posA = Inr es
    \<and> 0 \<le> (byteLength posBuf - orZero (offset posA)) div es
    \<and> forLoop (nat ((byteLength posBuf - orZero (offset posA)) div es))
         (objPositionVertex P bin opts posA posBuf es (orZero (offset posA))) = Inr (objVertices ob)
    \<and> objNormals' P bin (buffersById sel) ((byteLength posBuf - orZero (offset posA)) div es)
         (findNormalAttrib (sortedAttribs (draw sel))) = Inr (objNormals ob)
    \<and> objUvs' P bin (buffersById sel) ((byteLength posBuf - orZero (offset posA)) div es)
         (findUvAttrib (sortedAttribs (draw sel))) = Inr (objUvs ob)
    \<and> arrayLength (count' (draw sel)) = Inr n
    \<and> forLoop n (\<lambda>i. readScalar P bin
           (binOffset idxBuf + orZero (indexOffset (draw sel)) + int i * idxBpc)
           (indexTypeEnum (draw sel))) = Inr (objIndices ob)"
proof -
  obtain posA where a: "findPositionAttrib (sortedAttribs (draw sel)) = Some posA"
    using assms by (auto simp: buildObj_def Let_def split: option.splits)
  obtain posBuf where b: "buffersById sel (bufferId posA) = Some posBuf"
    using assms a by (auto simp: buildObj_def Let_def split: option.splits)
  obtain idxBuf where c: "lookupIndexBuffer (draw sel) (buffersById sel) = Some idxBuf"
    using assms a b by (auto simp: buildObj_def Let_def split: option.splits)
  from assms obtain idxBpc es len vs ns ts n ixs where
        f: "bytesPerComponent (indexTypeEnum (draw sel)) = Inr idxBpc"
           "getStride posA = Inr es"
           "0 \<le> (byteLength posBuf - orZero (offset posA)) div es
            \<and> (byteLength posBuf - orZero (offset posA)) div es < 4294967296
            \<and> len = nat ((byteLength posBuf - orZero (offset posA)) div es)"
           "forLoop len (objPositionVertex P bin opts posA posBuf es (orZero (offset posA))) = Inr vs"
           "objNormals' P bin (buffersById sel) ((byteLength posBuf - orZero (offset posA)) div es)
              (findNormalAttrib (sortedAttribs (draw sel))) = Inr ns"
           "objUvs' P bin (buffersById sel) ((byteLength posBuf - orZero (offset posA)) div es)
              (findUvAttrib (sortedAttribs (draw sel))) = Inr ts"
           "arrayLength (count' (draw sel)) = Inr n"
           "forLoop n (\<lambda>i. readScalar P bin
               (binOffset idxBuf + orZero (indexOffset (draw sel)) + int i * idxBpc)
               (indexTypeEnum (draw sel))) = Inr ixs"
    and ob: "ob = \<lparr>objVertices = vs, objNormals = ns, objUvs = ts, objIndices = ixs\<rparr>"
    unfolding buildObj_def Let_def a b c option.case bindE_eq_Inr arrayLength_Finite sum.inject
    by blast
  show ?thesis
    using a b c f unfolding ob by simp
qed

lemma decodeIndices_obj:
  assumes "bytesPerComponent (indexTypeEnum d) = Inr bpc"
    and "arrayLength (count' d) = Inr n"
    and "forLoop n (\<lambda>i. readScalar P dv (binOffset idxBuf + orZero (indexOffset d) + int i * bpc)
                          (indexTypeEnum d)) = Inr ixs"
  shows "decodeIndices P dv d idxBuf = Inr (map toUint32 ixs)"
proof -
  have c: "count' d = Finite (real n)"
    using assms(2) by (simp add: arrayLength_Inr)
  have l: "length ixs = n"
    using assms(3) by (simp add: forLoop_eq_Inr)
  have "forLoop n (\<lambda>i. bindE (readScalar P dv (binOffset idxBuf + orZero (indexOffset d) + int i * bpc)
                          (indexTypeEnum d)) (\<lambda>v. Inr (toUint32 v))) = Inr (map toUint32 ixs)"
    by (rule forLoop_Inr_map [OF assms(3)]) (simp add: bindE_def split: sum.splits)
  then show ?thesis
    using assms(1) l
    by (simp add: decodeIndices_def Let_def c typedArrayLength_nat)
qed

lemma decodePositions_obj:
  assumes "bytesPerComponent (typeEnum posA) = Inr w"
    and "0 \<le> vc"
    and "forLoop (nat vc) (objPositionVertex P dv opts posA posBuf es off) = Inr vs"
  shows "decodePositions P dv opts posA posBuf es off vc = Inr (map (fround P) (concat vs))"
proof -
  have "forLoop (nat vc) (positionVertex P dv opts posA posBuf es off w)
          = Inr (map (map (fround P)) vs)"
    by (rule forLoop_Inr_map [OF assms(3)]) (rule positionVertex_obj [OF assms(1)])
  moreover have "typedArrayLength (intNumber (vc * 3)) = Inr (nat (vc * 3))"
    using assms(2) by (simp only: typedArrayLength_Finite simp_thms mult_nonneg_nonneg zero_le_numeral)
  ultimately show ?thesis
    using assms(1) by (simp add: decodePositions_def map_concat)
qed

section \<open>The container writer: facts\<close>

lemma length_u32le [simp]: "length (u32le v) = 4"
  by (simp add: u32le_def Let_def)

lemma setUint32_at:
  "4 \<le> k \<Longrightarrow> setUint32 (pre @ replicate k 0) (length pre) v
     = Inr ((pre @ u32le v) @ replicate (k - 4) 0)"
  by (simp add: setUint32_def)

lemma u8set_at:
  "length src \<le> k \<Longrightarrow> u8set (pre @ replicate k 0) src (length pre)
     = Inr ((pre @ src) @ replicate (k - length src) 0)"
  by (simp add: u8set_def)

lemma padTo4_eq:
  "padTo4 bytes padByte = Inr (bytes @ replicate ((4 - length bytes mod 4) mod 4) padByte)"
proof (cases "(4 - length bytes mod 4) mod 4 = 0")
  case True
  then show ?thesis by (simp add: padTo4_def)
next
  case False
  let ?pad = "(4 - length bytes mod 4) mod 4"
  have "u8set (replicate (length bytes + ?pad) 0) bytes 0 = Inr (bytes @ replicate ?pad 0)"
    using u8set_at [of bytes "length bytes + ?pad" "[]"] by simp
  then show ?thesis
    using False by (simp add: padTo4_def Let_def u8fill_def)
qed

lemma pad_small: "r < 4 \<Longrightarrow> (r + (4 - r) mod 4) mod 4 = (0::nat)"
proof -
  assume "r < 4"
  then have "r = 0 \<or> r = 1 \<or> r = 2 \<or> r = 3" by arith
  then show ?thesis by (elim disjE) simp_all
qed

lemma pad_mod: "((n::nat) + (4 - n mod 4) mod 4) mod 4 = 0"
proof -
  have "(n + (4 - n mod 4) mod 4) mod 4 = (n mod 4 + (4 - n mod 4) mod 4) mod 4"
    by (rule mod_add_left_eq [symmetric])
  moreover have "n mod 4 < 4"
    by (rule mod_less_divisor) simp
  ultimately show ?thesis
    by (simp only: pad_small)
qed

lemma padded_dvd: "4 dvd length (bytes @ replicate ((4 - length bytes mod 4) mod 4) b)"
  unfolding dvd_eq_mod_eq_0 length_append length_replicate by (rule pad_mod)

lemma buildGlb_eq:
  "buildGlb jsonBytes binU8 =
     Inr (u32le 0x46546c67 @ u32le 2
          @ u32le (28 + length (jsonBytes @ replicate ((4 - length jsonBytes mod 4) mod 4) 0x20)
                     + length (binU8 @ replicate ((4 - length binU8 mod 4) mod 4) 0x00))
          @ u32le (length (jsonBytes @ replicate ((4 - length jsonBytes mod 4) mod 4) 0x20))
          @ u32le 0x4e4f534a
          @ (jsonBytes @ replicate ((4 - length jsonBytes mod 4) mod 4) 0x20)
          @ u32le (length (binU8 @ replicate ((4 - length binU8 mod 4) mod 4) 0x00))
          @ u32le 0x004e4942
          @ (binU8 @ replicate ((4 - length binU8 mod 4) mod 4) 0x00))"
proof -
  define jp where "jp = jsonBytes @ replicate ((4 - length jsonBytes mod 4) mod 4) (0x20 :: byte)"
  define bp where "bp = binU8 @ replicate ((4 - length binU8 mod 4) mod 4) (0x00 :: byte)"
  let ?t = "12 + 8 + length jp + 8 + length bp"
  let ?m = "u32le 0x46546c67" and ?v = "u32le 2" and ?l = "u32le (28 + length jp + length bp)"
  let ?jl = "u32le (length jp)" and ?jt = "u32le 0x4e4f534a"
  let ?bl = "u32le (length bp)" and ?bt = "u32le 0x004e4942"
  have s1: "setUint32 (replicate ?t 0) 0 0x46546c67 = Inr (?m @ replicate (?t - 4) 0)"
    using setUint32_at [of ?t "[]" "0x46546c67"] by simp
  have s2: "setUint32 (?m @ replicate (?t - 4) 0) (0 + 4) 2
              = Inr ((?m @ ?v) @ replicate (?t - 8) 0)"
    using setUint32_at [of "?t - 4" ?m 2] by simp
  have s3: "setUint32 ((?m @ ?v) @ replicate (?t - 8) 0) (0 + 4 + 4) ?t
              = Inr ((?m @ ?v @ ?l) @ replicate (?t - 12) 0)"
    using setUint32_at [of "?t - 8" "?m @ ?v" ?t] by (simp add: add.commute add.left_commute)
  have s4: "setUint32 ((?m @ ?v @ ?l) @ replicate (?t - 12) 0) (0 + 4 + 4 + 4) (length jp)
              = Inr ((?m @ ?v @ ?l @ ?jl) @ replicate (?t - 16) 0)"
    using setUint32_at [of "?t - 12" "?m @ ?v @ ?l" "length jp"] by simp
  have s5: "setUint32 ((?m @ ?v @ ?l @ ?jl) @ replicate (?t - 16) 0) (0 + 4 + 4 + 4 + 4) 0x4e4f534a
              = Inr ((?m @ ?v @ ?l @ ?jl @ ?jt) @ replicate (?t - 20) 0)"
    using setUint32_at [of "?t - 16" "?m @ ?v @ ?l @ ?jl" "0x4e4f534a"] by simp
  have s6: "u8set ((?m @ ?v @ ?l @ ?jl @ ?jt) @ replicate (?t - 20) 0) jp (0 + 4 + 4 + 4 + 4 + 4)
              = Inr ((?m @ ?v @ ?l @ ?jl @ ?jt @ jp) @ replicate (8 + length bp) 0)"
    using u8set_at [of jp "?t - 20" "?m @ ?v @ ?l @ ?jl @ ?jt"] by simp
  have s7: "setUint32 ((?m @ ?v @ ?l @ ?jl @ ?jt @ jp) @ replicate (8 + length bp) 0)
                (0 + 4 + 4 + 4 + 4 + 4 + length jp) (length bp)
              = Inr ((?m @ ?v @ ?l @ ?jl @ ?jt @ jp @ ?bl) @ replicate (4 + length bp) 0)"
    using setUint32_at [of "8 + length bp" "?m @ ?v @ ?l @ ?jl @ ?jt @ jp" "length bp"] by simp
  have s8: "setUint32 ((?m @ ?v @ ?l @ ?jl @ ?jt @ jp @ ?bl) @ replicate (4 + length bp) 0)
                (0 + 4 + 4 + 4 + 4 + 4 + length jp + 4) 0x004e4942
              = Inr ((?m @ ?v @ ?l @ ?jl @ ?jt @ jp @ ?bl @ ?bt) @ replicate (length bp) 0)"
    using setUint32_at [of "4 + length bp" "?m @ ?v @ ?l @ ?jl @ ?jt @ jp @ ?bl" "0x004e4942"]
    by simp
  have s9: "u8set ((?m @ ?v @ ?l @ ?jl @ ?jt @ jp @ ?bl @ ?bt) @ replicate (length bp) 0) bp
                (0 + 4 + 4 + 4 + 4 + 4 + length jp + 4 + 4)
              = Inr (?m @ ?v @ ?l @ ?jl @ ?jt @ jp @ ?bl @ ?bt @ bp)"
    using u8set_at [of bp "length bp" "?m @ ?v @ ?l @ ?jl @ ?jt @ jp @ ?bl @ ?bt"] by simp
  have main: "buildGlb jsonBytes binU8 = Inr (?m @ ?v @ ?l @ ?jl @ ?jt @ jp @ ?bl @ ?bt @ bp)"
    unfolding buildGlb_def padTo4_eq jp_def [symmetric] bp_def [symmetric] bindE_simps Let_def
    by (simp only: s1 s2 s3 s4 s5 s6 s7 s8 s9 bindE_simps)
  show ?thesis
    using main by (simp only: jp_def bp_def)
qed

lemma le_bytes_linear:
  fixes w q1 q2 q3 a b c :: nat
  shows "w = 256 * q1 + a \<Longrightarrow> q1 = 256 * q2 + b \<Longrightarrow> q2 = 256 * q3 + c
    \<Longrightarrow> a + 256 * b + 65536 * c + 16777216 * q3 = w"
  by simp

lemma le_bytes_sum:
  fixes w :: nat
  shows "w mod 256 + 256 * (w div 256 mod 256) + 65536 * (w div 65536 mod 256)
           + 16777216 * (w div 16777216) = w"
proof -
  have d2: "w div 65536 = w div 256 div 256"
    using div_mult2_eq [of w 256 256] by simp
  have d3: "w div 16777216 = w div 256 div 256 div 256"
    using div_mult2_eq [of w 65536 256] d2 by simp
  have e1: "w = 256 * (w div 256) + w mod 256"
    by (rule mult_div_mod_eq [symmetric])
  have e2: "w div 256 = 256 * (w div 256 div 256) + w div 256 mod 256"
    by (rule mult_div_mod_eq [symmetric])
  have e3: "w div 256 div 256 = 256 * (w div 256 div 256 div 256) + w div 256 div 256 mod 256"
    by (rule mult_div_mod_eq [symmetric])
  show ?thesis
    unfolding d2 d3 by (rule le_bytes_linear [OF e1 e2 e3])
qed

lemma unat_byte_of_nat: "x < 256 \<Longrightarrow> unat (word_of_nat x :: byte) = x"
  by (simp add: unat_of_nat)

lemma u32le_decode:
  "le32 (pre @ u32le v @ post) (int (length pre)) = word_of_nat v"
proof -
  let ?w = "v mod 4294967296"
  have lt: "?w div 16777216 < 256"
    by (rule less_mult_imp_div_less) simp
  have b: "byteAt (pre @ u32le v @ post) (int (length pre)) 0 = ?w mod 256"
    "byteAt (pre @ u32le v @ post) (int (length pre)) 1 = ?w div 256 mod 256"
    "byteAt (pre @ u32le v @ post) (int (length pre)) 2 = ?w div 65536 mod 256"
    "byteAt (pre @ u32le v @ post) (int (length pre)) 3 = ?w div 16777216"
    using lt by (simp_all add: byteAt_def u32le_def Let_def nth_append unat_byte_of_nat)
  have "le32 (pre @ u32le v @ post) (int (length pre)) = (word_of_nat ?w :: 32 word)"
    unfolding le32_def b le_bytes_sum ..
  also have "\<dots> = word_of_nat v"
    by (simp add: word_of_nat_eq_iff take_bit_eq_mod)
  finally show ?thesis .
qed

lemma uint_word_of_nat_32: "v < 4294967296 \<Longrightarrow> uint (word_of_nat v :: 32 word) = int v"
  by (simp add: unsigned_of_nat take_bit_eq_mod)

lemma u32le_consts:
  "u32le 0x46546c67 = [0x67, 0x6C, 0x54, 0x46]"
  "u32le 2 = [0x02, 0, 0, 0]"
  "u32le 0x4e4f534a = [0x4A, 0x53, 0x4F, 0x4E]"
  "u32le 0x004e4942 = [0x42, 0x49, 0x4E, 0x00]"
  by (simp_all add: u32le_def Let_def)

lemma container_fields:
  fixes jp bp :: "byte list"
  defines "glb \<equiv> u32le 0x46546c67 @ u32le 2 @ u32le (28 + length jp + length bp)
          @ u32le (length jp) @ u32le 0x4e4f534a @ jp
          @ u32le (length bp) @ u32le 0x004e4942 @ bp"
  shows "length glb = 28 + length jp + length bp"
    and "le32 glb 0 = 0x46546C67"
    and "le32 glb 4 = 2"
    and "le32 glb 8 = word_of_nat (length glb)"
    and "le32 glb 12 = word_of_nat (length jp)"
    and "le32 glb 16 = 0x4E4F534A"
    and "le32 glb (20 + int (length jp)) = word_of_nat (length bp)"
    and "le32 glb (24 + int (length jp)) = 0x004E4942"
proof -
  let ?m = "u32le 0x46546c67" and ?v = "u32le 2" and ?l = "u32le (28 + length jp + length bp)"
  let ?jl = "u32le (length jp)" and ?jt = "u32le 0x4e4f534a"
  let ?bl = "u32le (length bp)" and ?bt = "u32le 0x004e4942"
  show len: "length glb = 28 + length jp + length bp"
    by (simp add: glb_def)
  have "le32 ([] @ ?m @ (?v @ ?l @ ?jl @ ?jt @ jp @ ?bl @ ?bt @ bp)) (int (length ([] :: byte list)))
          = word_of_nat 0x46546c67"
    by (rule u32le_decode)
  then show "le32 glb 0 = 0x46546C67"
    by (simp add: glb_def)
  have "le32 (?m @ ?v @ (?l @ ?jl @ ?jt @ jp @ ?bl @ ?bt @ bp)) (int (length ?m)) = word_of_nat 2"
    by (rule u32le_decode)
  then show "le32 glb 4 = 2"
    by (simp add: glb_def)
  have "le32 ((?m @ ?v) @ ?l @ (?jl @ ?jt @ jp @ ?bl @ ?bt @ bp)) (int (length (?m @ ?v)))
          = word_of_nat (28 + length jp + length bp)"
    by (rule u32le_decode)
  then show "le32 glb 8 = word_of_nat (length glb)"
    unfolding len by (simp add: glb_def)
  have "le32 ((?m @ ?v @ ?l) @ ?jl @ (?jt @ jp @ ?bl @ ?bt @ bp)) (int (length (?m @ ?v @ ?l)))
          = word_of_nat (length jp)"
    by (rule u32le_decode)
  then show "le32 glb 12 = word_of_nat (length jp)"
    by (simp add: glb_def)
  have "le32 ((?m @ ?v @ ?l @ ?jl) @ ?jt @ (jp @ ?bl @ ?bt @ bp)) (int (length (?m @ ?v @ ?l @ ?jl)))
          = word_of_nat 0x4e4f534a"
    by (rule u32le_decode)
  then show "le32 glb 16 = 0x4E4F534A"
    by (simp add: glb_def)
  have "le32 ((?m @ ?v @ ?l @ ?jl @ ?jt @ jp) @ ?bl @ (?bt @ bp))
              (int (length (?m @ ?v @ ?l @ ?jl @ ?jt @ jp)))
          = word_of_nat (length bp)"
    by (rule u32le_decode)
  then show "le32 glb (20 + int (length jp)) = word_of_nat (length bp)"
    by (simp add: glb_def)
  have "le32 ((?m @ ?v @ ?l @ ?jl @ ?jt @ jp @ ?bl) @ ?bt @ bp)
              (int (length (?m @ ?v @ ?l @ ?jl @ ?jt @ jp @ ?bl)))
          = word_of_nat 0x004e4942"
    by (rule u32le_decode)
  then show "le32 glb (24 + int (length jp)) = 0x004E4942"
    by (simp add: glb_def)
qed

lemma replicate_small: "replicate 2 x = [x, x]" "replicate 3 x = [x, x, x]"
  by (simp_all add: numeral_2_eq_2 numeral_3_eq_3)

section \<open>The example capture, evaluated\<close>

lemmas ex_defs = exPlatform_def exPosAttr_def exNrmAttr_def exUvAttr_def exDraw_def exPosBuf_def
  exUvBuf_def exNrmBuf_def exIdxBuf_def exSelected_def exBin_def exOptions_def

lemmas codec_defs = readScalar_def getInt8_def getUint8_def getInt16_def getUint16_def
  getInt32_def getUint32_def getFloat32_def inBounds_def le16_def le32_def byteAt_def
  bytesPerComponent_def normalizeInt_def

lemma upt_3 : "[0..<3] = [0, 1, 2]" by (simp add: upt_rec)

lemma upt_2 : "[0..<2] = [0, 1]" by (simp add: upt_rec)

lemma ex_sortedAttribs: "sortedAttribs exDraw = [exPosAttr, exNrmAttr, exUvAttr]"
  by (simp add: sortedAttribs_def orEmpty_def exDraw_def exPosAttr_def exNrmAttr_def exUvAttr_def)

lemma ex_findPosition: "findPositionAttrib [exPosAttr, exNrmAttr, exUvAttr] = Some exPosAttr"
  by (simp add: findPositionAttrib_def isPositionLike_def truthy_def exPosAttr_def)

lemma ex_findNormal: "findNormalAttrib [exPosAttr, exNrmAttr, exUvAttr] = Some exNrmAttr"
  by (simp add: findNormalAttrib_def isNormalLike_def truthy_def exPosAttr_def exNrmAttr_def)

lemma ex_findUv: "findUvAttrib [exPosAttr, exNrmAttr, exUvAttr] = Some exUvAttr"
  by (simp add: findUvAttrib_def isUvLike_def truthy_def exPosAttr_def exNrmAttr_def exUvAttr_def)

lemma ex_lookups:
  "findPositionAttrib (sortedAttribs (draw exSelected)) = Some exPosAttr"
  "findNormalAttrib (sortedAttribs (draw exSelected)) = Some exNrmAttr"
  "findUvAttrib (sortedAttribs (draw exSelected)) = Some exUvAttr"
  "buffersById exSelected (bufferId exPosAttr) = Some exPosBuf"
  "buffersById exSelected (bufferId exNrmAttr) = Some exNrmBuf"
  "buffersById exSelected (bufferId exUvAttr) = Some exUvBuf"
  "lookupIndexBuffer (draw exSelected) (buffersById exSelected) = Some exIdxBuf"
  "bytesPerComponent (indexTypeEnum (draw exSelected)) = Inr 1"
  "getStride exPosAttr = Inr 6"
  "bytesPerComponent (typeEnum exPosAttr) = Inr 2"
  "getStride exNrmAttr = Inr 3"
  "bytesPerComponent (typeEnum exNrmAttr) = Inr 1"
  "getStride exUvAttr = Inr 2"
  "bytesPerComponent (typeEnum exUvAttr) = Inr 1"
proof -
  show "findPositionAttrib (sortedAttribs (draw exSelected)) = Some exPosAttr"
    "findNormalAttrib (sortedAttribs (draw exSelected)) = Some exNrmAttr"
    "findUvAttrib (sortedAttribs (draw exSelected)) = Some exUvAttr"
    by (simp_all add: exSelected_def ex_sortedAttribs ex_findPosition ex_findNormal ex_findUv)
  show "buffersById exSelected (bufferId exPosAttr) = Some exPosBuf"
    "buffersById exSelected (bufferId exNrmAttr) = Some exNrmBuf"
    "buffersById exSelected (bufferId exUvAttr) = Some exUvBuf"
    "lookupIndexBuffer (draw exSelected) (buffersById exSelected) = Some exIdxBuf"
    "bytesPerComponent (indexTypeEnum (draw exSelected)) = Inr 1"
    "getStride exPosAttr = Inr 6"
    "bytesPerComponent (typeEnum exPosAttr) = Inr 2"
    "getStride exNrmAttr = Inr 3"
    "bytesPerComponent (typeEnum exNrmAttr) = Inr 1"
    "getStride exUvAttr = Inr 2"
    "bytesPerComponent (typeEnum exUvAttr) = Inr 1"
    by (simp_all add: exSelected_def lookupIndexBuffer_def getStride_def bytesPerComponent_def
        exDraw_def exPosAttr_def exNrmAttr_def exUvAttr_def)
qed

lemma ex_decodeIndices: "decodeIndices exPlatform exBin exDraw exIdxBuf = Inr [0, 1, 1]"
  by (simp add: decodeIndices_def typedArrayLength_def intNumber_def forLoop_def orZero_def toUint32_def upt_3
      codec_defs exDraw_def exIdxBuf_def exBin_def)

lemma ex_decodeIndices_any_attribs:
  "decodeIndices exPlatform exBin (exDraw\<lparr>attribs := as\<rparr>) exIdxBuf = Inr [0, 1, 1]"
  by (simp add: decodeIndices_def typedArrayLength_def intNumber_def forLoop_def orZero_def toUint32_def upt_3
      codec_defs exDraw_def exIdxBuf_def exBin_def)

text \<open>With a fraction in the count the loop reads once more than the array is long.\<close>

lemma ex_decodeIndices_fraction:
  "decodeIndices exPlatform exBin (exDraw\<lparr>count' := Finite (5 / 2)\<rparr>) exIdxBuf = Inr [0, 1]"
  "decodeIndices exPlatform (take 14 exBin) (exDraw\<lparr>count' := Finite 2\<rparr>) exIdxBuf = Inr [0, 1]"
  "decodeIndices exPlatform (take 14 exBin) (exDraw\<lparr>count' := Finite (5 / 2)\<rparr>) exIdxBuf
     = Inl OffsetOutOfBounds"
  "decodeIndices exPlatform exBin (exDraw\<lparr>count' := Finite (- 1 / 2)\<rparr>) exIdxBuf = Inr []"
  "decodeIndices exPlatform exBin (exDraw\<lparr>count' := NaN\<rparr>) exIdxBuf = Inr []"
  "decodeIndices exPlatform exBin (exDraw\<lparr>count' := Finite (- 1)\<rparr>) exIdxBuf
     = Inl InvalidArrayLength"
  "decodeIndices exPlatform exBin (exDraw\<lparr>count' := PosInfinity\<rparr>) exIdxBuf
     = Inl InvalidArrayLength"
  by (simp_all add: decodeIndices_def typedArrayLength_def forLoop_def orZero_def toUint32_def upt_3
      upt_2 codec_defs exDraw_def exIdxBuf_def exBin_def)

lemma ex_decodePositions:
  "decodePositions exPlatform exBin exOptions exPosAttr exPosBuf 6 0 2 = Inr [3, 6, -4, 513, 12, -10]"
  by (simp add: decodePositions_def typedArrayLength_def intNumber_def forLoop_def positionVertex_def
      transform_def truthy_def upt_2 codec_defs
      exPlatform_def exBin_def exOptions_def exPosAttr_def exPosBuf_def)

lemma ex_decodeNormals:
  "decodeNormals exPlatform exBin (buffersById exSelected) 2 (Some exNrmAttr)
     = Inr (Some [0, 1 / 127, 1 / 127])"
  by (simp add: decodeNormals_def getStride_def typedArrayLength_def intNumber_def forLoop_def normalVertex_def
      orZero_def truthy_def codec_defs
      exPlatform_def exBin_def exSelected_def exNrmAttr_def exNrmBuf_def)

lemma ex_decodeUvs:
  "decodeUvs exPlatform exBin (buffersById exSelected) 2 (Some exUvAttr) = Inr (Some [1, 0, 0, 1 / 5])"
  by (simp add: decodeUvs_def getStride_def typedArrayLength_def intNumber_def forLoop_def uvVertex_def
      orZero_def truthy_def upt_2 codec_defs
      exPlatform_def exBin_def exSelected_def exUvAttr_def exUvBuf_def)

lemma ex_buildGltf:
  "buildGltf exPlatform exBin exSelected exOptions =
     Inr \<lparr>indices = [0, 1, 1], vertexCount = 2, positions = [3, 6, -4, 513, 12, -10],
          normals = Some [0, 1 / 127, 1 / 127], uvs = Some [1, 0, 0, 1 / 5]\<rparr>"
proof -
  have a: "draw exSelected = exDraw" by (simp add: exSelected_def)
  have b: "buffersById exSelected (bufferId exPosAttr) = Some exPosBuf"
    by (simp add: exSelected_def exPosAttr_def)
  have c: "lookupIndexBuffer exDraw (buffersById exSelected) = Some exIdxBuf"
    by (simp add: lookupIndexBuffer_def exSelected_def exDraw_def)
  have d: "getStride exPosAttr = Inr 6"
    by (simp add: getStride_def bytesPerComponent_def exPosAttr_def)
  have e: "orZero (offset exPosAttr) = 0" "byteLength exPosBuf = 12"
    by (simp_all add: orZero_def exPosAttr_def exPosBuf_def)
  show ?thesis
    unfolding buildGltf_def Let_def a ex_sortedAttribs ex_findPosition ex_findNormal ex_findUv
    by (simp add: b c d e ex_decodeIndices ex_decodePositions ex_decodeNormals ex_decodeUvs)
qed

lemma ex_buildObj:
  "buildObj exPlatform exBin exSelected exOptions
     = Inr \<lparr>objVertices = [[3, 6, -4], [513, 12, -10]], objNormals = Some [[0, 1 / 127, 1 / 127]],
            objUvs = Some [[1, 0], [0, 1 / 5]], objIndices = [0, 1, 1]\<rparr>"
proof -
  have e: "(byteLength exPosBuf - 0) div 6 = 2"
    "orZero (offset exPosAttr) = 0"
    by (simp_all add: orZero_def exPosAttr_def exPosBuf_def)
  have l: "arrayLength (intNumber 2) = Inr 2" "arrayLength (count' (draw exSelected)) = Inr 3"
    by (simp_all add: arrayLength_def intNumber_def exSelected_def exDraw_def)
  have v: "forLoop 2 (objPositionVertex exPlatform exBin exOptions exPosAttr exPosBuf 6 0)
             = Inr [[3, 6, -4], [513, 12, -10]]"
    by (simp add: forLoop_def objPositionVertex_def transform_def truthy_def upt_2 codec_defs
        exPlatform_def exBin_def exOptions_def exPosAttr_def exPosBuf_def)
  have n: "objNormals' exPlatform exBin (buffersById exSelected) 2
             (findNormalAttrib (sortedAttribs (draw exSelected)))
             = Inr (Some [[0, 1 / 127, 1 / 127]])"
    unfolding ex_lookups(2)
    by (simp add: objNormals'_def getStride_def arrayLength_def intNumber_def forLoop_def objNormalVertex_def
        orZero_def truthy_def codec_defs
        exPlatform_def exBin_def exSelected_def exNrmAttr_def exNrmBuf_def)
  have u: "objUvs' exPlatform exBin (buffersById exSelected) 2
             (findUvAttrib (sortedAttribs (draw exSelected)))
             = Inr (Some [[1, 0], [0, 1 / 5]])"
    unfolding ex_lookups(3)
    by (simp add: objUvs'_def getStride_def arrayLength_def intNumber_def forLoop_def objUvVertex_def
        orZero_def truthy_def upt_2 codec_defs
        exPlatform_def exBin_def exSelected_def exUvAttr_def exUvBuf_def)
  have i: "forLoop 3 (\<lambda>i. readScalar exPlatform exBin
              (binOffset exIdxBuf + orZero (indexOffset (draw exSelected)) + int i * 1)
              (indexTypeEnum (draw exSelected))) = Inr [0, 1, 1]"
    by (simp add: forLoop_def upt_3 codec_defs orZero_def exBin_def exSelected_def exDraw_def
        exIdxBuf_def)
  show ?thesis
    unfolding buildObj_stages [OF ex_lookups(1,4,7,8,9)]
    by (simp only: e l v n u i bindE_simps)
qed

lemma ex_allDraws:
  "allDraws exJson =
     [withCount exDraw (JString ''7''), withCount exDraw (JNumber (Finite 2)),
      withCount exDraw (JNumber (Finite (5 / 2))), withCount exDraw JUndefined,
      withCount (exDraw\<lparr>indexOffset := Some 0\<rparr>) (JNumber (Finite (5 / 2)))]"
  by (simp add: allDraws_def exJson_def orEmpty_def)

lemma ex_eligible:
  "eligible (withCount (exDraw\<lparr>indexOffset := off\<rparr>) c) \<longleftrightarrow> typeofNumber c"
  by (simp add: eligible_def withCount_def exDraw_def)

subsection \<open>The interleaved capture\<close>

lemmas f32_defs = exPlatform_def f32PosAttr_def f32NrmAttr_def f32UvAttr_def f32Draw_def
  f32PosBuf_def f32NrmBuf_def f32UvBuf_def f32IdxBuf_def f32Selected_def f32Bin_def f32Options_def

lemma f32_sortedAttribs: "sortedAttribs f32Draw = [f32PosAttr, f32NrmAttr, f32UvAttr]"
  by (simp add: sortedAttribs_def orEmpty_def f32Draw_def f32PosAttr_def f32NrmAttr_def f32UvAttr_def)

lemma f32_lookups:
  "findPositionAttrib (sortedAttribs (draw f32Selected)) = Some f32PosAttr"
  "findNormalAttrib (sortedAttribs (draw f32Selected)) = Some f32NrmAttr"
  "findUvAttrib (sortedAttribs (draw f32Selected)) = Some f32UvAttr"
  "buffersById f32Selected (bufferId f32PosAttr) = Some f32PosBuf"
  "buffersById f32Selected (bufferId f32NrmAttr) = Some f32NrmBuf"
  "buffersById f32Selected (bufferId f32UvAttr) = Some f32UvBuf"
  "lookupIndexBuffer (draw f32Selected) (buffersById f32Selected) = Some f32IdxBuf"
  "bytesPerComponent (indexTypeEnum (draw f32Selected)) = Inr 2"
  "getStride f32PosAttr = Inr 16"
  "bytesPerComponent (typeEnum f32PosAttr) = Inr 4"
  "getStride f32NrmAttr = Inr 4"
  "bytesPerComponent (typeEnum f32NrmAttr) = Inr 1"
  "getStride f32UvAttr = Inr 5"
  "bytesPerComponent (typeEnum f32UvAttr) = Inr 2"
proof -
  show "findPositionAttrib (sortedAttribs (draw f32Selected)) = Some f32PosAttr"
    "findNormalAttrib (sortedAttribs (draw f32Selected)) = Some f32NrmAttr"
    "findUvAttrib (sortedAttribs (draw f32Selected)) = Some f32UvAttr"
    by (simp_all add: f32Selected_def f32_sortedAttribs findPositionAttrib_def findNormalAttrib_def
        findUvAttrib_def isPositionLike_def isNormalLike_def isUvLike_def truthy_def
        f32PosAttr_def f32NrmAttr_def f32UvAttr_def)
  show "buffersById f32Selected (bufferId f32PosAttr) = Some f32PosBuf"
    "buffersById f32Selected (bufferId f32NrmAttr) = Some f32NrmBuf"
    "buffersById f32Selected (bufferId f32UvAttr) = Some f32UvBuf"
    "lookupIndexBuffer (draw f32Selected) (buffersById f32Selected) = Some f32IdxBuf"
    "bytesPerComponent (indexTypeEnum (draw f32Selected)) = Inr 2"
    "getStride f32PosAttr = Inr 16"
    "bytesPerComponent (typeEnum f32PosAttr) = Inr 4"
    "getStride f32NrmAttr = Inr 4"
    "bytesPerComponent (typeEnum f32NrmAttr) = Inr 1"
    "getStride f32UvAttr = Inr 5"
    "bytesPerComponent (typeEnum f32UvAttr) = Inr 2"
    by (simp_all add: f32Selected_def lookupIndexBuffer_def getStride_def bytesPerComponent_def
        f32Draw_def f32PosAttr_def f32NrmAttr_def f32UvAttr_def)
qed

lemma f32_decodeIndices: "decodeIndices exPlatform f32Bin f32Draw f32IdxBuf = Inr [0, 1, 1]"
  by (simp add: decodeIndices_def typedArrayLength_def forLoop_def orZero_def toUint32_def upt_3
      codec_defs f32Draw_def f32IdxBuf_def f32Bin_def)

lemma f32_decodePositions:
  "decodePositions exPlatform f32Bin f32Options f32PosAttr f32PosBuf 16 4 2
     = Inr [3, - 7, - 4, 2, 7, 3]"
  by (simp add: decodePositions_def typedArrayLength_def intNumber_def forLoop_def positionVertex_def
      transform_def truthy_def upt_2 codec_defs binary32_def
      exPlatform_def f32Bin_def f32Options_def f32PosAttr_def f32PosBuf_def)

lemma f32_decodeNormals:
  "decodeNormals exPlatform f32Bin (buffersById f32Selected) 2 (Some f32NrmAttr)
     = Inr (Some [1, - 1, - 1])"
  by (simp add: decodeNormals_def getStride_def typedArrayLength_def intNumber_def forLoop_def
      normalVertex_def orZero_def truthy_def codec_defs
      exPlatform_def f32Bin_def f32Selected_def f32NrmAttr_def f32NrmBuf_def)

lemma f32_decodeUvs:
  "decodeUvs exPlatform f32Bin (buffersById f32Selected) 2 (Some f32UvAttr) = Inr (Some [1, 0, 0, 1])"
  by (simp add: decodeUvs_def getStride_def typedArrayLength_def intNumber_def forLoop_def uvVertex_def
      orZero_def truthy_def upt_2 codec_defs
      exPlatform_def f32Bin_def f32Selected_def f32UvAttr_def f32UvBuf_def)

lemma f32_buildGltf:
  "buildGltf exPlatform f32Bin f32Selected f32Options =
     Inr \<lparr>indices = [0, 1, 1], vertexCount = 2, positions = [3, - 7, - 4, 2, 7, 3],
          normals = Some [1, - 1, - 1], uvs = Some [1, 0, 0, 1]\<rparr>"
proof -
  have a: "draw f32Selected = f32Draw" by (simp add: f32Selected_def)
  have e: "orZero (offset f32PosAttr) = 4" "(byteLength f32PosBuf - 4) div 16 = 2"
    by (simp_all add: orZero_def f32PosAttr_def f32PosBuf_def)
  have n: "findNormalAttrib (sortedAttribs f32Draw) = Some f32NrmAttr"
    "findUvAttrib (sortedAttribs f32Draw) = Some f32UvAttr"
    using f32_lookups(2,3) by (simp_all add: a)
  show ?thesis
    unfolding buildGltf_stages [OF f32_lookups(1,4,7,9)] a e n
    by (simp only: f32_decodeIndices f32_decodePositions f32_decodeNormals f32_decodeUvs bindE_simps)
qed

section \<open>Position decoding\<close>




section \<open>Draw-call selection\<close>

text \<open>
  C2, as amended. \<open>pickMainDrawCall\<close> goes through every draw call of every context in
  order. A draw call is eligible iff its kind is \<open>drawElements\<close>, its mode is 4
  (triangles), its count is a number (any number: a fraction, \<open>Infinity\<close> and \<open>NaN\<close> pass;
  a string, a missing count and every other value do not), its attribute list is present
  and non-empty, and its index buffer id is present and non-zero. The result is \<open>null\<close>
  exactly when no draw call is eligible. When no eligible count is \<open>NaN\<close>, the result is
  the first eligible draw call that no eligible draw call exceeds in count: every eligible
  one before it has a smaller count.
\<close>

theorem pickMainDrawCall_first_greatest:
  assumes "\<forall>d \<in> set (allDraws json). eligible d \<longrightarrow> count' d \<noteq> JNumber NaN"
  shows "(pickMainDrawCall json = None \<longleftrightarrow> (\<forall>d \<in> set (allDraws json). \<not> eligible d))
       \<and> (\<forall>sel. pickMainDrawCall json = Some sel
             \<longrightarrow> (\<exists>k c. k < length (allDraws json)
                    \<and> eligible (allDraws json ! k)
                    \<and> count' (allDraws json ! k) = JNumber c
                    \<and> draw sel = withCount (allDraws json ! k) c
                    \<and> (\<forall>j < length (allDraws json). \<forall>c'.
                          eligible (allDraws json ! j) \<and> count' (allDraws json ! j) = JNumber c'
                          \<longrightarrow> \<not> jsGreater c' c)
                    \<and> (\<forall>j < k. \<forall>c'.
                          eligible (allDraws json ! j) \<and> count' (allDraws json ! j) = JNumber c'
                          \<longrightarrow> jsGreater c c')))
       \<and> (eligible d \<longleftrightarrow> kind d = ''drawElements'' \<and> mode d = 4
             \<and> (\<exists>c. count' d = JNumber c)
             \<and> (\<exists>as. attribs d = Some as \<and> as \<noteq> [])
             \<and> (\<exists>n. elementArrayBufferId d = Some n \<and> n \<noteq> 0))"
proof -
  have a: "pickMainDrawCall json = None \<longleftrightarrow> (\<forall>d \<in> set (allDraws json). \<not> eligible d)"
    unfolding pickMainDrawCall_bestOf bestOf_None [symmetric]
    by (simp split: option.splits)
  have b: "\<exists>k c. k < length (allDraws json)
                    \<and> eligible (allDraws json ! k)
                    \<and> count' (allDraws json ! k) = JNumber c
                    \<and> draw sel = withCount (allDraws json ! k) c
                    \<and> (\<forall>j < length (allDraws json). \<forall>c'.
                          eligible (allDraws json ! j) \<and> count' (allDraws json ! j) = JNumber c'
                          \<longrightarrow> \<not> jsGreater c' c)
                    \<and> (\<forall>j < k. \<forall>c'.
                          eligible (allDraws json ! j) \<and> count' (allDraws json ! j) = JNumber c'
                          \<longrightarrow> jsGreater c c')"
    if "pickMainDrawCall json = Some sel" for sel
  proof -
    from that obtain b where b: "bestOf (allDraws json) = Some b" "draw sel = b"
      unfolding pickMainDrawCall_bestOf by (auto split: option.splits)
    from bestOf_Some [OF assms b(1)] obtain k c where
      "firstGreatest (allDraws json) k c" "b = withCount (allDraws json ! k) c"
      by blast
    with b(2) show ?thesis
      unfolding firstGreatest_def by blast
  qed
  have c: "eligible d \<longleftrightarrow> kind d = ''drawElements'' \<and> mode d = 4
             \<and> (\<exists>c. count' d = JNumber c)
             \<and> (\<exists>as. attribs d = Some as \<and> as \<noteq> [])
             \<and> (\<exists>n. elementArrayBufferId d = Some n \<and> n \<noteq> 0)"
    by (rule eligible_iff)
  from a b c show ?thesis by blast
qed

theorem pickMainDrawCall_first_greatest_witness:
  "JNumber NaN \<notin> set (map count' (filter eligible (allDraws exJson)))
   \<and> map count' (allDraws exJson)
       = [JString ''7'', JNumber (Finite 2), JNumber (Finite (5 / 2)), JUndefined,
          JNumber (Finite (5 / 2))]
   \<and> map eligible (allDraws exJson) = [False, True, True, False, True]
   \<and> (\<exists>sel. pickMainDrawCall exJson = Some sel
          \<and> draw sel = withCount (allDraws exJson ! 2) (Finite (5 / 2))
          \<and> draw sel = exDraw\<lparr>count' := Finite (5 / 2)\<rparr>)
   \<and> (\<exists>k c. firstGreatest (allDraws exJson) k c
          \<and> withCount (allDraws exJson ! 2) (Finite (5 / 2)) = withCount (allDraws exJson ! k) c)"
proof -
  have h: "\<forall>d \<in> set (allDraws exJson). eligible d \<longrightarrow> count' d \<noteq> JNumber NaN"
    by (simp add: ex_allDraws withCount_def)
  have c: "map count' (allDraws exJson)
       = [JString ''7'', JNumber (Finite 2), JNumber (Finite (5 / 2)), JUndefined,
          JNumber (Finite (5 / 2))]"
    by (simp add: ex_allDraws)
  have e: "map eligible (allDraws exJson) = [False, True, True, False, True]"
    using ex_eligible [of "indexOffset exDraw"] by (simp add: ex_allDraws ex_eligible)
  have "bestOf (allDraws exJson) = Some (withCount exDraw (Finite (5 / 2)))"
    by (simp add: ex_allDraws bestOf_def considerDraw_def falsyId_def withCount_def exDraw_def)
  then obtain sel where s: "pickMainDrawCall exJson = Some sel"
    "draw sel = withCount (allDraws exJson ! 2) (Finite (5 / 2))"
    "draw sel = exDraw\<lparr>count' := Finite (5 / 2)\<rparr>"
    unfolding pickMainDrawCall_bestOf by (simp add: ex_allDraws withCount_def exDraw_def)
  from pickMainDrawCall_first_greatest [OF h] s(1,2)
  have "\<exists>k c. firstGreatest (allDraws exJson) k c
          \<and> withCount (allDraws exJson ! 2) (Finite (5 / 2)) = withCount (allDraws exJson ! k) c"
    unfolding firstGreatest_def by metis
  moreover have "JNumber NaN \<notin> set (map count' (filter eligible (allDraws exJson)))"
    using h by auto
  ultimately show ?thesis using c e s by blast
qed

theorem pickMainDrawCall_infinite_count:
  "\<not> isFinite (JNumber PosInfinity)
   \<and> \<not> eligibleFinite (withCount exDraw (JNumber PosInfinity))
   \<and> eligibleFinite (withCount exDraw (JNumber (Finite 3)))
   \<and> pickMainDrawCall \<lparr>buffers = None,
        contexts = Some [\<lparr>draws = Some [withCount exDraw (JNumber (Finite 3)),
                                         withCount exDraw (JNumber PosInfinity)]\<rparr>]\<rparr>
      = Some \<lparr>draw = exDraw\<lparr>count' := PosInfinity\<rparr>, buffersById = Map.empty\<rparr>"
  by (simp add: isFinite_def eligibleFinite_def pickMainDrawCall_def orEmpty_def considerDraw_def
      falsyId_def withCount_def exDraw_def)

section \<open>Normalization\<close>

text \<open>
  C3. \<open>normalizeInt\<close> divides a signed n-bit value by \<open>2^(n-1) - 1\<close> and clamps the quotient
  from below at \<open>-1\<close>, so the most negative value of each signed type maps to exactly \<open>-1\<close>;
  it divides an unsigned n-bit value by \<open>2^n - 1\<close>; it returns a 32-bit float unchanged. The
  16-bit unsigned raw pair \<open>(65535, 0)\<close>, read from its little-endian bytes, normalizes to
  exactly \<open>(1, 0)\<close>.
\<close>

theorem normalizeInt_ranges:
  "normalizeInt v 5120 = max (-1) (v / (2 ^ 7 - 1))
   \<and> normalizeInt v 5122 = max (-1) (v / (2 ^ 15 - 1))
   \<and> normalizeInt v 5124 = max (-1) (v / (2 ^ 31 - 1))
   \<and> normalizeInt v 5121 = v / (2 ^ 8 - 1)
   \<and> normalizeInt v 5123 = v / (2 ^ 16 - 1)
   \<and> normalizeInt v 5125 = v / (2 ^ 32 - 1)
   \<and> normalizeInt v 5126 = v
   \<and> normalizeInt (- (2 ^ 7)) 5120 = -1
   \<and> normalizeInt (- (2 ^ 15)) 5122 = -1
   \<and> normalizeInt (- (2 ^ 31)) 5124 = -1
   \<and> readScalar P [0xFF, 0xFF, 0x00, 0x00] 0 5123 = Inr 65535
   \<and> readScalar P [0xFF, 0xFF, 0x00, 0x00] 2 5123 = Inr 0
   \<and> normalizeInt 65535 5123 = 1
   \<and> normalizeInt 0 5123 = 0"
  by (simp add: normalizeInt_def readScalar_def getUint16_def inBounds_def le16_def byteAt_def)

theorem normalizeInt_ranges_witness:
  "normalizeInt (- 128) 5120 = -1 \<and> normalizeInt 127 5120 = 1
   \<and> normalizeInt 255 5121 = 1 \<and> normalizeInt (- 32768) 5122 = -1
   \<and> normalizeInt 65535 5123 = 1 \<and> normalizeInt 0 5123 = 0
   \<and> normalizeInt (1 / 4) 5126 = 1 / 4"
  using normalizeInt_ranges [of "- 128" exPlatform] normalizeInt_ranges [of 127 exPlatform]
    normalizeInt_ranges [of 255 exPlatform] normalizeInt_ranges [of "1 / 4" exPlatform]
  by simp

section \<open>Container layout\<close>

text \<open>
  C4, as amended. For every JSON text and binary payload \<open>buildGlb\<close> returns the
  concatenation of: the bytes \<open>glTF\<close>, the version 2 and the total length, each a
  little-endian 32-bit field; the JSON chunk (padded length, the tag \<open>JSON\<close>, the JSON
  text padded with spaces to a multiple of 4); the binary chunk (padded length, the tag
  \<open>BIN\<close> and a zero byte, the payload padded with zero bytes to a multiple of 4). A length
  field holds its length modulo \<open>2^32\<close>: the three length fields equal the container's
  actual byte length and the two padded payload lengths when the container is shorter
  than \<open>2^32\<close> bytes.
\<close>

theorem buildGlb_layout:
  "\<exists>jsonPadded binPadded glb.
      jsonPadded = jsonBytes @ replicate ((4 - length jsonBytes mod 4) mod 4) 0x20
    \<and> binPadded = binU8 @ replicate ((4 - length binU8 mod 4) mod 4) 0x00
    \<and> 4 dvd length jsonPadded \<and> 4 dvd length binPadded
    \<and> buildGlb jsonBytes binU8 = Inr glb
    \<and> glb = [0x67, 0x6C, 0x54, 0x46] @ [0x02, 0, 0, 0] @ u32le (length glb)
           @ u32le (length jsonPadded) @ [0x4A, 0x53, 0x4F, 0x4E] @ jsonPadded
           @ u32le (length binPadded) @ [0x42, 0x49, 0x4E, 0x00] @ binPadded
    \<and> length glb = 12 + (8 + length jsonPadded) + (8 + length binPadded)
    \<and> le32 glb 0 = 0x46546C67 \<and> le32 glb 4 = 2
    \<and> le32 glb 16 = 0x4E4F534A \<and> le32 glb (24 + int (length jsonPadded)) = 0x004E4942
    \<and> (length glb < 4294967296 \<longrightarrow>
          uint (le32 glb 8) = int (length glb)
        \<and> uint (le32 glb 12) = int (length jsonPadded)
        \<and> uint (le32 glb (20 + int (length jsonPadded))) = int (length binPadded))"
proof -
  define jp where "jp = jsonBytes @ replicate ((4 - length jsonBytes mod 4) mod 4) (0x20 :: byte)"
  define bp where "bp = binU8 @ replicate ((4 - length binU8 mod 4) mod 4) (0x00 :: byte)"
  define glb where "glb = u32le 0x46546c67 @ u32le 2 @ u32le (28 + length jp + length bp)
          @ u32le (length jp) @ u32le 0x4e4f534a @ jp
          @ u32le (length bp) @ u32le 0x004e4942 @ bp"
  note f = container_fields [of jp bp, folded glb_def]
  have d: "4 dvd length jp" "4 dvd length bp"
    unfolding jp_def bp_def by (rule padded_dvd)+
  have r: "buildGlb jsonBytes binU8 = Inr glb"
    unfolding glb_def jp_def bp_def by (rule buildGlb_eq)
  have g: "glb = [0x67, 0x6C, 0x54, 0x46] @ [0x02, 0, 0, 0] @ u32le (length glb)
           @ u32le (length jp) @ [0x4A, 0x53, 0x4F, 0x4E] @ jp
           @ u32le (length bp) @ [0x42, 0x49, 0x4E, 0x00] @ bp"
    unfolding f(1) u32le_consts [symmetric] by (rule glb_def)
  have l: "length glb = 12 + (8 + length jp) + (8 + length bp)"
    using f(1) by simp
  have u: "uint (le32 glb 8) = int (length glb)
        \<and> uint (le32 glb 12) = int (length jp)
        \<and> uint (le32 glb (20 + int (length jp))) = int (length bp)"
    if "length glb < 4294967296"
  proof -
    have "length jp < 4294967296" "length bp < 4294967296"
      using that l by simp_all
    with that show ?thesis
      unfolding f(4,5,7) by (simp only: uint_word_of_nat_32 simp_thms)
  qed
  show ?thesis
  proof (rule exI [of _ jp], rule exI [of _ bp], rule exI [of _ glb], intro conjI impI)
    show "jp = jsonBytes @ replicate ((4 - length jsonBytes mod 4) mod 4) (0x20 :: byte)"
      by (rule jp_def)
    show "bp = binU8 @ replicate ((4 - length binU8 mod 4) mod 4) (0x00 :: byte)"
      by (rule bp_def)
    show "4 dvd length jp" by (rule d(1))
    show "4 dvd length bp" by (rule d(2))
    show "buildGlb jsonBytes binU8 = Inr glb" by (rule r)
    show "glb = [0x67, 0x6C, 0x54, 0x46] @ [0x02, 0, 0, 0] @ u32le (length glb)
           @ u32le (length jp) @ [0x4A, 0x53, 0x4F, 0x4E] @ jp
           @ u32le (length bp) @ [0x42, 0x49, 0x4E, 0x00] @ bp" by (rule g)
    show "length glb = 12 + (8 + length jp) + (8 + length bp)" by (rule l)
    show "le32 glb 0 = 0x46546C67" by (rule f(2))
    show "le32 glb 4 = 2" by (rule f(3))
    show "le32 glb 16 = 0x4E4F534A" by (rule f(6))
    show "le32 glb (24 + int (length jp)) = 0x004E4942" by (rule f(8))
  next
    assume "length glb < 4294967296"
    from u [OF this] show "uint (le32 glb 8) = int (length glb)" by (rule conjunct1)
  next
    assume "length glb < 4294967296"
    from u [OF this] show "uint (le32 glb 12) = int (length jp)" by simp
  next
    assume "length glb < 4294967296"
    from u [OF this] show "uint (le32 glb (20 + int (length jp))) = int (length bp)" by simp
  qed
qed

theorem buildGlb_layout_witness:
  "buildGlb [0x7B, 0x7D] [1, 2, 3, 4, 5]
     = Inr [0x67, 0x6C, 0x54, 0x46,  2, 0, 0, 0,  40, 0, 0, 0,
            4, 0, 0, 0,  0x4A, 0x53, 0x4F, 0x4E,  0x7B, 0x7D, 0x20, 0x20,
            8, 0, 0, 0,  0x42, 0x49, 0x4E, 0x00,  1, 2, 3, 4, 5, 0, 0, 0]
   \<and> (\<exists>glb. buildGlb [0x7B, 0x7D] [1, 2, 3, 4, 5] = Inr glb
         \<and> length glb = 40 \<and> length glb < 4294967296
         \<and> uint (le32 glb 8) = 40 \<and> uint (le32 glb 12) = 4 \<and> uint (le32 glb 24) = 8)"
proof -
  from buildGlb_layout [of "[0x7B, 0x7D]" "[1, 2, 3, 4, 5]"]
  obtain jp bp glb where
        jp: "jp = [0x7B, 0x7D] @ replicate ((4 - length [0x7B, 0x7D :: byte] mod 4) mod 4) (0x20 :: byte)"
    and bp: "bp = [1, 2, 3, 4, 5] @ replicate ((4 - length [1, 2, 3, 4, 5 :: byte] mod 4) mod 4) (0x00 :: byte)"
    and r: "buildGlb [0x7B, 0x7D] [1, 2, 3, 4, 5] = Inr glb"
    and g: "glb = [0x67, 0x6C, 0x54, 0x46] @ [0x02, 0, 0, 0] @ u32le (length glb)
           @ u32le (length jp) @ [0x4A, 0x53, 0x4F, 0x4E] @ jp
           @ u32le (length bp) @ [0x42, 0x49, 0x4E, 0x00] @ bp"
    and l: "length glb = 12 + (8 + length jp) + (8 + length bp)"
    and u: "length glb < 4294967296 \<longrightarrow>
          uint (le32 glb 8) = int (length glb)
        \<and> uint (le32 glb 12) = int (length jp)
        \<and> uint (le32 glb (20 + int (length jp))) = int (length bp)"
    by blast
  have jp': "jp = [0x7B, 0x7D, 0x20, 0x20]"
    unfolding jp by (simp add: replicate_small)
  have bp': "bp = [1, 2, 3, 4, 5, 0, 0, 0]"
    unfolding bp by (simp add: replicate_small)
  have lj: "length jp = 4" and lb: "length bp = 8"
    unfolding jp' bp' by simp_all
  have l': "length glb = 40"
    unfolding l lj lb by simp
  have e: "u32le 40 = [40, 0, 0, 0]" "u32le 4 = [4, 0, 0, 0]" "u32le 8 = [8, 0, 0, 0]"
    by (simp_all add: u32le_def Let_def)
  have g': "glb = [0x67, 0x6C, 0x54, 0x46,  2, 0, 0, 0,  40, 0, 0, 0,
            4, 0, 0, 0,  0x4A, 0x53, 0x4F, 0x4E,  0x7B, 0x7D, 0x20, 0x20,
            8, 0, 0, 0,  0x42, 0x49, 0x4E, 0x00,  1, 2, 3, 4, 5, 0, 0, 0]"
    using g unfolding l' lj lb e unfolding jp' bp' by simp
  have f: "uint (le32 glb 8) = 40 \<and> uint (le32 glb 12) = 4 \<and> uint (le32 glb 24) = 8"
    using u unfolding l' lj lb by simp
  have "buildGlb [0x7B, 0x7D] [1, 2, 3, 4, 5] = Inr glb
         \<and> length glb = 40 \<and> length glb < 4294967296
         \<and> uint (le32 glb 8) = 40 \<and> uint (le32 glb 12) = 4 \<and> uint (le32 glb 24) = 8"
    using r l' f by simp
  then have "\<exists>glb. buildGlb [0x7B, 0x7D] [1, 2, 3, 4, 5] = Inr glb
         \<and> length glb = 40 \<and> length glb < 4294967296
         \<and> uint (le32 glb 8) = 40 \<and> uint (le32 glb 12) = 4 \<and> uint (le32 glb 24) = 8"
    by (rule exI)
  moreover have "buildGlb [0x7B, 0x7D] [1, 2, 3, 4, 5]
     = Inr [0x67, 0x6C, 0x54, 0x46,  2, 0, 0, 0,  40, 0, 0, 0,
            4, 0, 0, 0,  0x4A, 0x53, 0x4F, 0x4E,  0x7B, 0x7D, 0x20, 0x20,
            8, 0, 0, 0,  0x42, 0x49, 0x4E, 0x00,  1, 2, 3, 4, 5, 0, 0, 0]"
    using r unfolding g' .
  ultimately show ?thesis by (rule conjI [rotated])
qed

theorem buildGlb_length_field_wraps:
  "buildGlb [] (replicate 4294967296 0)
     = Inr ([0x67, 0x6C, 0x54, 0x46,  2, 0, 0, 0,  28, 0, 0, 0,
             0, 0, 0, 0,  0x4A, 0x53, 0x4F, 0x4E,
             0, 0, 0, 0,  0x42, 0x49, 0x4E, 0x00] @ replicate 4294967296 0)
   \<and> length ([0x67, 0x6C, 0x54, 0x46,  2, 0, 0, 0,  28, 0, 0, 0,
             0, 0, 0, 0,  0x4A, 0x53, 0x4F, 0x4E,
             0, 0, 0, 0,  0x42, 0x49, 0x4E, 0x00] @ replicate 4294967296 (0 :: byte)) = 4294967324
   \<and> uint (le32 ([0x67, 0x6C, 0x54, 0x46,  2, 0, 0, 0,  28, 0, 0, 0,
             0, 0, 0, 0,  0x4A, 0x53, 0x4F, 0x4E,
             0, 0, 0, 0,  0x42, 0x49, 0x4E, 0x00] @ replicate 4294967296 0) 8) = 28"
proof -
  have e: "u32le 4294967324 = [28, 0, 0, 0]" "u32le 0 = [0, 0, 0, 0]"
    "u32le 4294967296 = [0, 0, 0, 0]"
    by (simp_all add: u32le_def Let_def)
  have p: "(4 - length ([] :: byte list) mod 4) mod 4 = 0"
    "(4 - length (replicate 4294967296 (0 :: byte)) mod 4) mod 4 = 0"
    by simp_all
  have a: "buildGlb [] (replicate 4294967296 0)
     = Inr ([0x67, 0x6C, 0x54, 0x46,  2, 0, 0, 0,  28, 0, 0, 0,
             0, 0, 0, 0,  0x4A, 0x53, 0x4F, 0x4E,
             0, 0, 0, 0,  0x42, 0x49, 0x4E, 0x00] @ replicate 4294967296 0)"
    unfolding buildGlb_eq [of "[]" "replicate 4294967296 0"] p
    by (simp add: e u32le_consts)
  have b: "length ([0x67, 0x6C, 0x54, 0x46,  2, 0, 0, 0,  28, 0, 0, 0,
             0, 0, 0, 0,  0x4A, 0x53, 0x4F, 0x4E,
             0, 0, 0, 0,  0x42, 0x49, 0x4E, 0x00] @ replicate 4294967296 (0 :: byte)) = 4294967324"
    by simp
  have c: "uint (le32 ([0x67, 0x6C, 0x54, 0x46,  2, 0, 0, 0,  28, 0, 0, 0,
             0, 0, 0, 0,  0x4A, 0x53, 0x4F, 0x4E,
             0, 0, 0, 0,  0x42, 0x49, 0x4E, 0x00] @ replicate 4294967296 0) 8) = 28"
    by (simp add: le32_def byteAt_def nth_append)
  show ?thesis by (rule conjI [OF a conjI [OF b c]])
qed

section \<open>Attribute classification\<close>

text \<open>
  C5. The classifier scans the draw call's attributes in ascending order of slot index
  (a stable sort of the attribute list) and takes the first match: the position attribute
  is the first one of size 3 whose type is 32-bit float, or 16-bit unsigned with the
  normalized flag not set. With no match \<open>buildGltf\<close> fails with
  \<open>MissingPositionAttribute\<close>. With no normal candidate, or no UV candidate, the decode
  is that of the remaining stages with the channel \<open>null\<close>: the absence adds no error.
\<close>

theorem classifier_first_match:
  "sorted (map index (sortedAttribs d))
   \<and> (\<forall>k. filter (\<lambda>a. index a = k) (sortedAttribs d)
            = filter (\<lambda>a. index a = k) (orEmpty (attribs d)))
   \<and> (findPositionAttrib as = Some a
        \<longleftrightarrow> (\<exists>k < length as. as ! k = a
               \<and> size' a = 3
               \<and> (typeEnum a = 5126 \<or> (typeEnum a = 5123 \<and> normalized a \<noteq> Some True))
               \<and> (\<forall>j < k. \<not> (size' (as ! j) = 3
                       \<and> (typeEnum (as ! j) = 5126
                           \<or> (typeEnum (as ! j) = 5123 \<and> normalized (as ! j) \<noteq> Some True))))))
   \<and> (findPositionAttrib (sortedAttribs (draw selected)) = None
        \<longrightarrow> buildGltf P captureBin selected options = Inl MissingPositionAttribute)
   \<and> (findNormalAttrib (sortedAttribs (draw selected)) = None
        \<longrightarrow> (\<forall>g. buildGltf P captureBin selected options = Inr g \<longrightarrow> normals g = None)
          \<and> (\<forall>posA posBuf idxBuf es.
                findPositionAttrib (sortedAttribs (draw selected)) = Some posA
              \<and> buffersById selected (bufferId posA) = Some posBuf
              \<and> lookupIndexBuffer (draw selected) (buffersById selected) = Some idxBuf
              \<and> getStride posA = Inr es
              \<longrightarrow> buildGltf P captureBin selected options =
                    bindE (decodeIndices P captureBin (draw selected) idxBuf) (\<lambda>is.
                    bindE (decodePositions P captureBin options posA posBuf es (orZero (offset posA))
                             ((byteLength posBuf - orZero (offset posA)) div es)) (\<lambda>ps.
                    bindE (decodeUvs P captureBin (buffersById selected)
                             ((byteLength posBuf - orZero (offset posA)) div es)
                             (findUvAttrib (sortedAttribs (draw selected)))) (\<lambda>ts.
                      Inr \<lparr>indices = is,
                           vertexCount = (byteLength posBuf - orZero (offset posA)) div es,
                           positions = ps, normals = None, uvs = ts\<rparr>)))))
   \<and> (findUvAttrib (sortedAttribs (draw selected)) = None
        \<longrightarrow> (\<forall>g. buildGltf P captureBin selected options = Inr g \<longrightarrow> uvs g = None)
          \<and> (\<forall>posA posBuf idxBuf es.
                findPositionAttrib (sortedAttribs (draw selected)) = Some posA
              \<and> buffersById selected (bufferId posA) = Some posBuf
              \<and> lookupIndexBuffer (draw selected) (buffersById selected) = Some idxBuf
              \<and> getStride posA = Inr es
              \<longrightarrow> buildGltf P captureBin selected options =
                    bindE (decodeIndices P captureBin (draw selected) idxBuf) (\<lambda>is.
                    bindE (decodePositions P captureBin options posA posBuf es (orZero (offset posA))
                             ((byteLength posBuf - orZero (offset posA)) div es)) (\<lambda>ps.
                    bindE (decodeNormals P captureBin (buffersById selected)
                             ((byteLength posBuf - orZero (offset posA)) div es)
                             (findNormalAttrib (sortedAttribs (draw selected)))) (\<lambda>ns.
                      Inr \<lparr>indices = is,
                           vertexCount = (byteLength posBuf - orZero (offset posA)) div es,
                           positions = ps, normals = ns, uvs = None\<rparr>)))))"
proof -
  have s1: "sorted (map index (sortedAttribs d))"
    by (simp add: sortedAttribs_def)
  have s2: "\<forall>k. filter (\<lambda>a. index a = k) (sortedAttribs d)
            = filter (\<lambda>a. index a = k) (orEmpty (attribs d))"
    by (simp add: sortedAttribs_def sort_key_stable)
  have s3: "findPositionAttrib as = Some a
        \<longleftrightarrow> (\<exists>k < length as. as ! k = a
               \<and> size' a = 3
               \<and> (typeEnum a = 5126 \<or> (typeEnum a = 5123 \<and> normalized a \<noteq> Some True))
               \<and> (\<forall>j < k. \<not> (size' (as ! j) = 3
                       \<and> (typeEnum (as ! j) = 5126
                           \<or> (typeEnum (as ! j) = 5123 \<and> normalized (as ! j) \<noteq> Some True)))))"
    unfolding findPositionAttrib_def find_Some_iff isPositionLike_def truthy_Some_True
    by auto
  have s4: "findPositionAttrib (sortedAttribs (draw selected)) = None
        \<longrightarrow> buildGltf P captureBin selected options = Inl MissingPositionAttribute"
    by (simp add: buildGltf_no_position)
  have s5: "findNormalAttrib (sortedAttribs (draw selected)) = None
        \<longrightarrow> (\<forall>g. buildGltf P captureBin selected options = Inr g \<longrightarrow> normals g = None)
          \<and> (\<forall>posA posBuf idxBuf es.
                findPositionAttrib (sortedAttribs (draw selected)) = Some posA
              \<and> buffersById selected (bufferId posA) = Some posBuf
              \<and> lookupIndexBuffer (draw selected) (buffersById selected) = Some idxBuf
              \<and> getStride posA = Inr es
              \<longrightarrow> buildGltf P captureBin selected options =
                    bindE (decodeIndices P captureBin (draw selected) idxBuf) (\<lambda>is.
                    bindE (decodePositions P captureBin options posA posBuf es (orZero (offset posA))
                             ((byteLength posBuf - orZero (offset posA)) div es)) (\<lambda>ps.
                    bindE (decodeUvs P captureBin (buffersById selected)
                             ((byteLength posBuf - orZero (offset posA)) div es)
                             (findUvAttrib (sortedAttribs (draw selected)))) (\<lambda>ts.
                      Inr \<lparr>indices = is,
                           vertexCount = (byteLength posBuf - orZero (offset posA)) div es,
                           positions = ps, normals = None, uvs = ts\<rparr>))))"
  proof (intro impI conjI allI)
    fix g assume "findNormalAttrib (sortedAttribs (draw selected)) = None"
      and "buildGltf P captureBin selected options = Inr g"
    then show "normals g = None"
      using buildGltf_normals_None by blast
  next
    fix posA posBuf idxBuf es
    assume n: "findNormalAttrib (sortedAttribs (draw selected)) = None"
      and l: "findPositionAttrib (sortedAttribs (draw selected)) = Some posA
              \<and> buffersById selected (bufferId posA) = Some posBuf
              \<and> lookupIndexBuffer (draw selected) (buffersById selected) = Some idxBuf
              \<and> getStride posA = Inr es"
    from l have l1: "findPositionAttrib (sortedAttribs (draw selected)) = Some posA"
      and l2: "buffersById selected (bufferId posA) = Some posBuf"
      and l3: "lookupIndexBuffer (draw selected) (buffersById selected) = Some idxBuf"
      and l4: "getStride posA = Inr es"
      by simp_all
    show "buildGltf P captureBin selected options =
                    bindE (decodeIndices P captureBin (draw selected) idxBuf) (\<lambda>is.
                    bindE (decodePositions P captureBin options posA posBuf es (orZero (offset posA))
                             ((byteLength posBuf - orZero (offset posA)) div es)) (\<lambda>ps.
                    bindE (decodeUvs P captureBin (buffersById selected)
                             ((byteLength posBuf - orZero (offset posA)) div es)
                             (findUvAttrib (sortedAttribs (draw selected)))) (\<lambda>ts.
                      Inr \<lparr>indices = is,
                           vertexCount = (byteLength posBuf - orZero (offset posA)) div es,
                           positions = ps, normals = None, uvs = ts\<rparr>)))"
      by (rule buildGltf_normals_absent [OF l1 l2 l3 l4 disjI1 [OF n]])
  qed
  have s6: "findUvAttrib (sortedAttribs (draw selected)) = None
        \<longrightarrow> (\<forall>g. buildGltf P captureBin selected options = Inr g \<longrightarrow> uvs g = None)
          \<and> (\<forall>posA posBuf idxBuf es.
                findPositionAttrib (sortedAttribs (draw selected)) = Some posA
              \<and> buffersById selected (bufferId posA) = Some posBuf
              \<and> lookupIndexBuffer (draw selected) (buffersById selected) = Some idxBuf
              \<and> getStride posA = Inr es
              \<longrightarrow> buildGltf P captureBin selected options =
                    bindE (decodeIndices P captureBin (draw selected) idxBuf) (\<lambda>is.
                    bindE (decodePositions P captureBin options posA posBuf es (orZero (offset posA))
                             ((byteLength posBuf - orZero (offset posA)) div es)) (\<lambda>ps.
                    bindE (decodeNormals P captureBin (buffersById selected)
                             ((byteLength posBuf - orZero (offset posA)) div es)
                             (findNormalAttrib (sortedAttribs (draw selected)))) (\<lambda>ns.
                      Inr \<lparr>indices = is,
                           vertexCount = (byteLength posBuf - orZero (offset posA)) div es,
                           positions = ps, normals = ns, uvs = None\<rparr>))))"
  proof (intro impI conjI allI)
    fix g assume "findUvAttrib (sortedAttribs (draw selected)) = None"
      and "buildGltf P captureBin selected options = Inr g"
    then show "uvs g = None"
      using buildGltf_uvs_None by blast
  next
    fix posA posBuf idxBuf es
    assume n: "findUvAttrib (sortedAttribs (draw selected)) = None"
      and l: "findPositionAttrib (sortedAttribs (draw selected)) = Some posA
              \<and> buffersById selected (bufferId posA) = Some posBuf
              \<and> lookupIndexBuffer (draw selected) (buffersById selected) = Some idxBuf
              \<and> getStride posA = Inr es"
    from l have l1: "findPositionAttrib (sortedAttribs (draw selected)) = Some posA"
      and l2: "buffersById selected (bufferId posA) = Some posBuf"
      and l3: "lookupIndexBuffer (draw selected) (buffersById selected) = Some idxBuf"
      and l4: "getStride posA = Inr es"
      by simp_all
    show "buildGltf P captureBin selected options =
                    bindE (decodeIndices P captureBin (draw selected) idxBuf) (\<lambda>is.
                    bindE (decodePositions P captureBin options posA posBuf es (orZero (offset posA))
                             ((byteLength posBuf - orZero (offset posA)) div es)) (\<lambda>ps.
                    bindE (decodeNormals P captureBin (buffersById selected)
                             ((byteLength posBuf - orZero (offset posA)) div es)
                             (findNormalAttrib (sortedAttribs (draw selected)))) (\<lambda>ns.
                      Inr \<lparr>indices = is,
                           vertexCount = (byteLength posBuf - orZero (offset posA)) div es,
                           positions = ps, normals = ns, uvs = None\<rparr>)))"
      by (rule buildGltf_uvs_absent [OF l1 l2 l3 l4 disjI1 [OF n]])
  qed
  show ?thesis
    by (rule conjI [OF s1 conjI [OF s2 conjI [OF s3 conjI [OF s4 conjI [OF s5 s6]]]]])
qed

theorem classifier_first_match_witness:
  "findPositionAttrib (sortedAttribs (draw (exSelected\<lparr>draw := exDraw\<lparr>attribs := Some [exUvAttr]\<rparr>\<rparr>))) = None
   \<and> buildGltf exPlatform exBin (exSelected\<lparr>draw := exDraw\<lparr>attribs := Some [exUvAttr]\<rparr>\<rparr>) exOptions
       = Inl MissingPositionAttribute
   \<and> findNormalAttrib (sortedAttribs (draw (exSelected\<lparr>draw := exDraw\<lparr>attribs := Some [exUvAttr, exPosAttr]\<rparr>\<rparr>))) = None
   \<and> buildGltf exPlatform exBin (exSelected\<lparr>draw := exDraw\<lparr>attribs := Some [exUvAttr, exPosAttr]\<rparr>\<rparr>) exOptions
       = Inr \<lparr>indices = [0, 1, 1], vertexCount = 2, positions = [3, 6, -4, 513, 12, -10],
              normals = None, uvs = Some [1, 0, 0, 1 / 5]\<rparr>
   \<and> findPositionAttrib [exUvAttr, exPosAttr, exNrmAttr] = Some exPosAttr
   \<and> \<not> (size' exUvAttr = 3
          \<and> (typeEnum exUvAttr = 5126 \<or> (typeEnum exUvAttr = 5123 \<and> normalized exUvAttr \<noteq> Some True)))"
proof -
  let ?s1 = "exSelected\<lparr>draw := exDraw\<lparr>attribs := Some [exUvAttr]\<rparr>\<rparr>"
  let ?s2 = "exSelected\<lparr>draw := exDraw\<lparr>attribs := Some [exUvAttr, exPosAttr]\<rparr>\<rparr>"
  note thm1 = classifier_first_match [of _ _ _ ?s1 exPlatform exBin exOptions]
  note thm2 = classifier_first_match [of _ _ _ ?s2 exPlatform exBin exOptions]
  note thm3 = classifier_first_match [of _ "[exUvAttr, exPosAttr, exNrmAttr]" exPosAttr]
  have a1: "sortedAttribs (draw ?s1) = [exUvAttr]"
    by (simp add: sortedAttribs_def orEmpty_def)
  have p1: "findPositionAttrib (sortedAttribs (draw ?s1)) = None"
    unfolding a1 by (simp add: findPositionAttrib_def isPositionLike_def exUvAttr_def)
  have r1: "buildGltf exPlatform exBin ?s1 exOptions = Inl MissingPositionAttribute"
    using thm1 p1 by blast
  have a2: "sortedAttribs (draw ?s2) = [exPosAttr, exUvAttr]"
    by (simp add: sortedAttribs_def orEmpty_def exUvAttr_def exPosAttr_def)
  have n2: "findNormalAttrib (sortedAttribs (draw ?s2)) = None"
    unfolding a2 by (simp add: findNormalAttrib_def isNormalLike_def exUvAttr_def exPosAttr_def)
  have l2: "findPositionAttrib (sortedAttribs (draw ?s2)) = Some exPosAttr
      \<and> buffersById ?s2 (bufferId exPosAttr) = Some exPosBuf
      \<and> lookupIndexBuffer (draw ?s2) (buffersById ?s2) = Some exIdxBuf
      \<and> getStride exPosAttr = Inr 6"
    unfolding a2
    by (simp add: findPositionAttrib_def isPositionLike_def truthy_def lookupIndexBuffer_def
        getStride_def bytesPerComponent_def exSelected_def exDraw_def exPosAttr_def)
  have u2: "findUvAttrib (sortedAttribs (draw ?s2)) = Some exUvAttr"
    unfolding a2
    by (simp add: findUvAttrib_def isUvLike_def truthy_def exUvAttr_def exPosAttr_def)
  have e: "orZero (offset exPosAttr) = 0" "byteLength exPosBuf = 12"
    by (simp_all add: orZero_def exPosAttr_def exPosBuf_def)
  have d2: "draw ?s2 = exDraw\<lparr>attribs := Some [exUvAttr, exPosAttr]\<rparr>"
    "buffersById ?s2 = buffersById exSelected"
    by simp_all
  from thm2 n2 l2 have
    "buildGltf exPlatform exBin ?s2 exOptions =
                    bindE (decodeIndices exPlatform exBin (draw ?s2) exIdxBuf) (\<lambda>is.
                    bindE (decodePositions exPlatform exBin exOptions exPosAttr exPosBuf 6 (orZero (offset exPosAttr))
                             ((byteLength exPosBuf - orZero (offset exPosAttr)) div 6)) (\<lambda>ps.
                    bindE (decodeUvs exPlatform exBin (buffersById ?s2)
                             ((byteLength exPosBuf - orZero (offset exPosAttr)) div 6)
                             (findUvAttrib (sortedAttribs (draw ?s2)))) (\<lambda>ts.
                      Inr \<lparr>indices = is,
                           vertexCount = (byteLength exPosBuf - orZero (offset exPosAttr)) div 6,
                           positions = ps, normals = None, uvs = ts\<rparr>)))"
    by blast
  then have r2: "buildGltf exPlatform exBin ?s2 exOptions
       = Inr \<lparr>indices = [0, 1, 1], vertexCount = 2, positions = [3, 6, -4, 513, 12, -10],
              normals = None, uvs = Some [1, 0, 0, 1 / 5]\<rparr>"
    using u2 unfolding d2 e
    by (simp add: ex_decodeIndices_any_attribs ex_decodePositions ex_decodeUvs)
  have f: "\<not> (size' exUvAttr = 3
          \<and> (typeEnum exUvAttr = 5126 \<or> (typeEnum exUvAttr = 5123 \<and> normalized exUvAttr \<noteq> Some True)))"
    by (simp add: exUvAttr_def)
  have "\<exists>k < length [exUvAttr, exPosAttr, exNrmAttr]. [exUvAttr, exPosAttr, exNrmAttr] ! k = exPosAttr
               \<and> size' exPosAttr = 3
               \<and> (typeEnum exPosAttr = 5126 \<or> (typeEnum exPosAttr = 5123 \<and> normalized exPosAttr \<noteq> Some True))
               \<and> (\<forall>j < k. \<not> (size' ([exUvAttr, exPosAttr, exNrmAttr] ! j) = 3
                       \<and> (typeEnum ([exUvAttr, exPosAttr, exNrmAttr] ! j) = 5126
                           \<or> (typeEnum ([exUvAttr, exPosAttr, exNrmAttr] ! j) = 5123
                               \<and> normalized ([exUvAttr, exPosAttr, exNrmAttr] ! j) \<noteq> Some True))))"
    by (rule exI [of _ 1]) (simp add: exPosAttr_def exUvAttr_def)
  with thm3 have r3: "findPositionAttrib [exUvAttr, exPosAttr, exNrmAttr] = Some exPosAttr"
    by blast
  from p1 r1 n2 r2 r3 f show ?thesis by blast
qed

section \<open>Missing buffer entries\<close>

text \<open>
  C6, as amended. Once a position attribute has been classified (the check that comes
  first), a selection whose map lacks the position attribute's buffer entry fails with the
  missing-position-buffer error, and one that lacks the index buffer entry (or whose draw
  call has no index buffer id) fails with one of the two missing-buffer errors. A normal
  or UV attribute whose buffer entry is missing raises nothing: the decode is that of the
  remaining stages, with the channel \<open>null\<close> in whatever it returns.
\<close>

theorem missing_buffer_descriptor:
  assumes "findPositionAttrib (sortedAttribs (draw selected)) = Some posA"
  shows "(buffersById selected (bufferId posA) = None
            \<longrightarrow> buildGltf P captureBin selected options = Inl MissingPositionBuffer)
       \<and> (lookupIndexBuffer (draw selected) (buffersById selected) = None
            \<longrightarrow> buildGltf P captureBin selected options = Inl MissingPositionBuffer
              \<or> buildGltf P captureBin selected options = Inl MissingIndexBuffer)
       \<and> (\<forall>a. findNormalAttrib (sortedAttribs (draw selected)) = Some a
              \<and> buffersById selected (bufferId a) = None
            \<longrightarrow> (\<forall>g. buildGltf P captureBin selected options = Inr g \<longrightarrow> normals g = None)
              \<and> (\<forall>posBuf idxBuf es.
                    buffersById selected (bufferId posA) = Some posBuf
                  \<and> lookupIndexBuffer (draw selected) (buffersById selected) = Some idxBuf
                  \<and> getStride posA = Inr es
                  \<longrightarrow> buildGltf P captureBin selected options =
                        bindE (decodeIndices P captureBin (draw selected) idxBuf) (\<lambda>is.
                        bindE (decodePositions P captureBin options posA posBuf es (orZero (offset posA))
                                 ((byteLength posBuf - orZero (offset posA)) div es)) (\<lambda>ps.
                        bindE (decodeUvs P captureBin (buffersById selected)
                                 ((byteLength posBuf - orZero (offset posA)) div es)
                                 (findUvAttrib (sortedAttribs (draw selected)))) (\<lambda>ts.
                          Inr \<lparr>indices = is,
                               vertexCount = (byteLength posBuf - orZero (offset posA)) div es,
                               positions = ps, normals = None, uvs = ts\<rparr>)))))
       \<and> (\<forall>a. findUvAttrib (sortedAttribs (draw selected)) = Some a
              \<and> buffersById selected (bufferId a) = None
            \<longrightarrow> (\<forall>g. buildGltf P captureBin selected options = Inr g \<longrightarrow> uvs g = None)
              \<and> (\<forall>posBuf idxBuf es.
                    buffersById selected (bufferId posA) = Some posBuf
                  \<and> lookupIndexBuffer (draw selected) (buffersById selected) = Some idxBuf
                  \<and> getStride posA = Inr es
                  \<longrightarrow> buildGltf P captureBin selected options =
                        bindE (decodeIndices P captureBin (draw selected) idxBuf) (\<lambda>is.
                        bindE (decodePositions P captureBin options posA posBuf es (orZero (offset posA))
                                 ((byteLength posBuf - orZero (offset posA)) div es)) (\<lambda>ps.
                        bindE (decodeNormals P captureBin (buffersById selected)
                                 ((byteLength posBuf - orZero (offset posA)) div es)
                                 (findNormalAttrib (sortedAttribs (draw selected)))) (\<lambda>ns.
                          Inr \<lparr>indices = is,
                               vertexCount = (byteLength posBuf - orZero (offset posA)) div es,
                               positions = ps, normals = ns, uvs = None\<rparr>)))))"
proof -
  have c1: "buffersById selected (bufferId posA) = None
            \<longrightarrow> buildGltf P captureBin selected options = Inl MissingPositionBuffer"
    using buildGltf_no_position_buffer [OF assms] by blast
  have c2: "lookupIndexBuffer (draw selected) (buffersById selected) = None
            \<longrightarrow> buildGltf P captureBin selected options = Inl MissingPositionBuffer
              \<or> buildGltf P captureBin selected options = Inl MissingIndexBuffer"
  proof (cases "buffersById selected (bufferId posA)")
    case None
    then show ?thesis using c1 by blast
  next
    case (Some posBuf)
    show ?thesis
      using buildGltf_no_index_buffer [OF assms Some] by blast
  qed
  have c3: "\<forall>a. findNormalAttrib (sortedAttribs (draw selected)) = Some a
              \<and> buffersById selected (bufferId a) = None
            \<longrightarrow> (\<forall>g. buildGltf P captureBin selected options = Inr g \<longrightarrow> normals g = None)
              \<and> (\<forall>posBuf idxBuf es.
                    buffersById selected (bufferId posA) = Some posBuf
                  \<and> lookupIndexBuffer (draw selected) (buffersById selected) = Some idxBuf
                  \<and> getStride posA = Inr es
                  \<longrightarrow> buildGltf P captureBin selected options =
                        bindE (decodeIndices P captureBin (draw selected) idxBuf) (\<lambda>is.
                        bindE (decodePositions P captureBin options posA posBuf es (orZero (offset posA))
                                 ((byteLength posBuf - orZero (offset posA)) div es)) (\<lambda>ps.
                        bindE (decodeUvs P captureBin (buffersById selected)
                                 ((byteLength posBuf - orZero (offset posA)) div es)
                                 (findUvAttrib (sortedAttribs (draw selected)))) (\<lambda>ts.
                          Inr \<lparr>indices = is,
                               vertexCount = (byteLength posBuf - orZero (offset posA)) div es,
                               positions = ps, normals = None, uvs = ts\<rparr>))))"
  proof (intro allI impI conjI)
    fix a g
    assume "findNormalAttrib (sortedAttribs (draw selected)) = Some a
              \<and> buffersById selected (bufferId a) = None"
      and "buildGltf P captureBin selected options = Inr g"
    then show "normals g = None"
      using buildGltf_normals_None [of P captureBin selected options g] by blast
  next
    fix a posBuf idxBuf es
    assume m: "findNormalAttrib (sortedAttribs (draw selected)) = Some a
              \<and> buffersById selected (bufferId a) = None"
      and l: "buffersById selected (bufferId posA) = Some posBuf
                  \<and> lookupIndexBuffer (draw selected) (buffersById selected) = Some idxBuf
                  \<and> getStride posA = Inr es"
    from l have l2: "buffersById selected (bufferId posA) = Some posBuf"
      and l3: "lookupIndexBuffer (draw selected) (buffersById selected) = Some idxBuf"
      and l4: "getStride posA = Inr es"
      by simp_all
    from m have m': "findNormalAttrib (sortedAttribs (draw selected)) = None
         \<or> (\<exists>a. findNormalAttrib (sortedAttribs (draw selected)) = Some a
                \<and> buffersById selected (bufferId a) = None)"
      by blast
    show "buildGltf P captureBin selected options =
                        bindE (decodeIndices P captureBin (draw selected) idxBuf) (\<lambda>is.
                        bindE (decodePositions P captureBin options posA posBuf es (orZero (offset posA))
                                 ((byteLength posBuf - orZero (offset posA)) div es)) (\<lambda>ps.
                        bindE (decodeUvs P captureBin (buffersById selected)
                                 ((byteLength posBuf - orZero (offset posA)) div es)
                                 (findUvAttrib (sortedAttribs (draw selected)))) (\<lambda>ts.
                          Inr \<lparr>indices = is,
                               vertexCount = (byteLength posBuf - orZero (offset posA)) div es,
                               positions = ps, normals = None, uvs = ts\<rparr>)))"
      by (rule buildGltf_normals_absent [OF assms l2 l3 l4 m'])
  qed
  have c4: "\<forall>a. findUvAttrib (sortedAttribs (draw selected)) = Some a
              \<and> buffersById selected (bufferId a) = None
            \<longrightarrow> (\<forall>g. buildGltf P captureBin selected options = Inr g \<longrightarrow> uvs g = None)
              \<and> (\<forall>posBuf idxBuf es.
                    buffersById selected (bufferId posA) = Some posBuf
                  \<and> lookupIndexBuffer (draw selected) (buffersById selected) = Some idxBuf
                  \<and> getStride posA = Inr es
                  \<longrightarrow> buildGltf P captureBin selected options =
                        bindE (decodeIndices P captureBin (draw selected) idxBuf) (\<lambda>is.
                        bindE (decodePositions P captureBin options posA posBuf es (orZero (offset posA))
                                 ((byteLength posBuf - orZero (offset posA)) div es)) (\<lambda>ps.
                        bindE (decodeNormals P captureBin (buffersById selected)
                                 ((byteLength posBuf - orZero (offset posA)) div es)
                                 (findNormalAttrib (sortedAttribs (draw selected)))) (\<lambda>ns.
                          Inr \<lparr>indices = is,
                               vertexCount = (byteLength posBuf - orZero (offset posA)) div es,
                               positions = ps, normals = ns, uvs = None\<rparr>))))"
  proof (intro allI impI conjI)
    fix a g
    assume "findUvAttrib (sortedAttribs (draw selected)) = Some a
              \<and> buffersById selected (bufferId a) = None"
      and "buildGltf P captureBin selected options = Inr g"
    then show "uvs g = None"
      using buildGltf_uvs_None [of P captureBin selected options g] by blast
  next
    fix a posBuf idxBuf es
    assume m: "findUvAttrib (sortedAttribs (draw selected)) = Some a
              \<and> buffersById selected (bufferId a) = None"
      and l: "buffersById selected (bufferId posA) = Some posBuf
                  \<and> lookupIndexBuffer (draw selected) (buffersById selected) = Some idxBuf
                  \<and> getStride posA = Inr es"
    from l have l2: "buffersById selected (bufferId posA) = Some posBuf"
      and l3: "lookupIndexBuffer (draw selected) (buffersById selected) = Some idxBuf"
      and l4: "getStride posA = Inr es"
      by simp_all
    from m have m': "findUvAttrib (sortedAttribs (draw selected)) = None
         \<or> (\<exists>a. findUvAttrib (sortedAttribs (draw selected)) = Some a
                \<and> buffersById selected (bufferId a) = None)"
      by blast
    show "buildGltf P captureBin selected options =
                        bindE (decodeIndices P captureBin (draw selected) idxBuf) (\<lambda>is.
                        bindE (decodePositions P captureBin options posA posBuf es (orZero (offset posA))
                                 ((byteLength posBuf - orZero (offset posA)) div es)) (\<lambda>ps.
                        bindE (decodeNormals P captureBin (buffersById selected)
                                 ((byteLength posBuf - orZero (offset posA)) div es)
                                 (findNormalAttrib (sortedAttribs (draw selected)))) (\<lambda>ns.
                          Inr \<lparr>indices = is,
                               vertexCount = (byteLength posBuf - orZero (offset posA)) div es,
                               positions = ps, normals = ns, uvs = None\<rparr>)))"
      by (rule buildGltf_uvs_absent [OF assms l2 l3 l4 m'])
  qed
  show ?thesis
    by (rule conjI [OF c1 conjI [OF c2 conjI [OF c3 c4]]])
qed

theorem missing_buffer_descriptor_witness:
  "findPositionAttrib (sortedAttribs (draw exSelected)) = Some exPosAttr
   \<and> buildGltf exPlatform exBin (exSelected\<lparr>buffersById := (buffersById exSelected)(1 := None)\<rparr>) exOptions
       = Inl MissingPositionBuffer
   \<and> buildGltf exPlatform exBin (exSelected\<lparr>buffersById := (buffersById exSelected)(4 := None)\<rparr>) exOptions
       = Inl MissingIndexBuffer
   \<and> findNormalAttrib (sortedAttribs (draw exSelected)) = Some exNrmAttr
   \<and> ((buffersById exSelected)(3 := None)) (bufferId exNrmAttr) = None
   \<and> buildGltf exPlatform exBin (exSelected\<lparr>buffersById := (buffersById exSelected)(3 := None)\<rparr>) exOptions
       = Inr \<lparr>indices = [0, 1, 1], vertexCount = 2, positions = [3, 6, -4, 513, 12, -10],
              normals = None, uvs = Some [1, 0, 0, 1 / 5]\<rparr>"
proof -
  let ?s1 = "exSelected\<lparr>buffersById := (buffersById exSelected)(1 := None)\<rparr>"
  let ?s4 = "exSelected\<lparr>buffersById := (buffersById exSelected)(4 := None)\<rparr>"
  let ?s3 = "exSelected\<lparr>buffersById := (buffersById exSelected)(3 := None)\<rparr>"
  have p: "findPositionAttrib (sortedAttribs (draw exSelected)) = Some exPosAttr"
    by (simp add: exSelected_def ex_sortedAttribs ex_findPosition)
  have p1: "findPositionAttrib (sortedAttribs (draw ?s1)) = Some exPosAttr"
    and p4: "findPositionAttrib (sortedAttribs (draw ?s4)) = Some exPosAttr"
    and p3: "findPositionAttrib (sortedAttribs (draw ?s3)) = Some exPosAttr"
    using p by simp_all
  have b1: "buffersById ?s1 (bufferId exPosAttr) = None"
    by (simp add: exPosAttr_def)
  have r1: "buildGltf exPlatform exBin ?s1 exOptions = Inl MissingPositionBuffer"
    using missing_buffer_descriptor [OF p1, of exPlatform exBin exOptions] b1 by blast
  have b4: "lookupIndexBuffer (draw ?s4) (buffersById ?s4) = None"
    by (simp add: lookupIndexBuffer_def exSelected_def exDraw_def)
  have b4': "buffersById ?s4 (bufferId exPosAttr) = Some exPosBuf"
    by (simp add: exSelected_def exPosAttr_def)
  have "buildGltf exPlatform exBin ?s4 exOptions \<noteq> Inl MissingPositionBuffer"
    using buildGltf_no_index_buffer [OF p4 b4' b4, of exPlatform exBin exOptions] by simp
  then have r4: "buildGltf exPlatform exBin ?s4 exOptions = Inl MissingIndexBuffer"
    using missing_buffer_descriptor [OF p4, of exPlatform exBin exOptions] b4 by blast
  have n3: "findNormalAttrib (sortedAttribs (draw ?s3)) = Some exNrmAttr"
    "findNormalAttrib (sortedAttribs (draw exSelected)) = Some exNrmAttr"
    by (simp_all add: exSelected_def ex_sortedAttribs ex_findNormal)
  have m3: "buffersById ?s3 (bufferId exNrmAttr) = None"
    "((buffersById exSelected)(3 := None)) (bufferId exNrmAttr) = None"
    by (simp_all add: exNrmAttr_def)
  have l3: "buffersById ?s3 (bufferId exPosAttr) = Some exPosBuf
      \<and> lookupIndexBuffer (draw ?s3) (buffersById ?s3) = Some exIdxBuf
      \<and> getStride exPosAttr = Inr 6"
    by (simp add: lookupIndexBuffer_def getStride_def bytesPerComponent_def exSelected_def
        exDraw_def exPosAttr_def)
  have u3: "decodeUvs exPlatform exBin (buffersById ?s3) 2 (findUvAttrib (sortedAttribs (draw ?s3)))
      = Inr (Some [1, 0, 0, 1 / 5])"
    by (simp add: exSelected_def ex_sortedAttribs ex_findUv)
       (simp add: decodeUvs_def getStride_def typedArrayLength_def intNumber_def forLoop_def uvVertex_def
         orZero_def truthy_def upt_2 codec_defs exPlatform_def exBin_def exUvAttr_def exUvBuf_def)
  have e: "orZero (offset exPosAttr) = 0" "byteLength exPosBuf = 12" "draw ?s3 = exDraw"
    by (simp_all add: orZero_def exPosAttr_def exPosBuf_def exSelected_def)
  from missing_buffer_descriptor [OF p3, of exPlatform exBin exOptions] n3(1) m3(1) l3
  have "buildGltf exPlatform exBin ?s3 exOptions =
                        bindE (decodeIndices exPlatform exBin (draw ?s3) exIdxBuf) (\<lambda>is.
                        bindE (decodePositions exPlatform exBin exOptions exPosAttr exPosBuf 6 (orZero (offset exPosAttr))
                                 ((byteLength exPosBuf - orZero (offset exPosAttr)) div 6)) (\<lambda>ps.
                        bindE (decodeUvs exPlatform exBin (buffersById ?s3)
                                 ((byteLength exPosBuf - orZero (offset exPosAttr)) div 6)
                                 (findUvAttrib (sortedAttribs (draw ?s3)))) (\<lambda>ts.
                          Inr \<lparr>indices = is,
                               vertexCount = (byteLength exPosBuf - orZero (offset exPosAttr)) div 6,
                               positions = ps, normals = None, uvs = ts\<rparr>)))"
    by blast
  then have r3: "buildGltf exPlatform exBin ?s3 exOptions
       = Inr \<lparr>indices = [0, 1, 1], vertexCount = 2, positions = [3, 6, -4, 513, 12, -10],
              normals = None, uvs = Some [1, 0, 0, 1 / 5]\<rparr>"
    using u3 unfolding e
    by (simp add: ex_decodeIndices ex_decodePositions)
  from p r1 r4 n3(2) m3(2) r3 show ?thesis by blast
qed

theorem missing_index_buffer_after_missing_position:
  "lookupIndexBuffer (draw \<lparr>draw = exDraw\<lparr>attribs := Some [exUvAttr]\<rparr>, buffersById = Map.empty\<rparr>)
      (buffersById \<lparr>draw = exDraw\<lparr>attribs := Some [exUvAttr]\<rparr>, buffersById = Map.empty\<rparr>) = None
   \<and> buildGltf exPlatform exBin
        \<lparr>draw = exDraw\<lparr>attribs := Some [exUvAttr]\<rparr>, buffersById = Map.empty\<rparr> exOptions
       = Inl MissingPositionAttribute
   \<and> MissingPositionAttribute \<noteq> MissingPositionBuffer
   \<and> MissingPositionAttribute \<noteq> MissingIndexBuffer"
  by (simp add: lookupIndexBuffer_def buildGltf_def sortedAttribs_def orEmpty_def
      findPositionAttrib_def isPositionLike_def exDraw_def exUvAttr_def)

section \<open>Unsupported component types\<close>

text \<open>
  C7, as amended. For a component type outside the seven the codec knows, the byte width
  and \<open>readScalar\<close> fail with their unsupported-type error, whereas \<open>normalizeInt\<close> returns
  its argument unchanged. A draw call whose index type is such a type cannot be decoded:
  \<open>buildGltf\<close> fails, with the unsupported-type error unless one of the three lookups has
  failed before.
\<close>

theorem unsupported_component_type:
  assumes "t \<notin> supportedTypes"
  shows "bytesPerComponent t = Inl (UnsupportedComponentType t)
       \<and> readScalar P dv byteOffset t = Inl (UnsupportedScalarType t)
       \<and> normalizeInt v t = v
       \<and> (indexTypeEnum (draw selected) = t
            \<longrightarrow> buildGltf P captureBin selected options = Inl MissingPositionAttribute
              \<or> buildGltf P captureBin selected options = Inl MissingPositionBuffer
              \<or> buildGltf P captureBin selected options = Inl MissingIndexBuffer
              \<or> buildGltf P captureBin selected options = Inl (UnsupportedComponentType t))"
proof -
  have b: "bytesPerComponent t = Inl (UnsupportedComponentType t)"
    using assms by (simp add: supportedTypes_def bytesPerComponent_def)
  have r: "readScalar P dv byteOffset t = Inl (UnsupportedScalarType t)"
    using assms by (simp add: supportedTypes_def readScalar_def)
  have n: "normalizeInt v t = v"
    using assms by (simp add: supportedTypes_def normalizeInt_def)
  have d: "buildGltf P captureBin selected options = Inl MissingPositionAttribute
              \<or> buildGltf P captureBin selected options = Inl MissingPositionBuffer
              \<or> buildGltf P captureBin selected options = Inl MissingIndexBuffer
              \<or> buildGltf P captureBin selected options = Inl (UnsupportedComponentType t)"
    if t: "indexTypeEnum (draw selected) = t"
  proof (cases "findPositionAttrib (sortedAttribs (draw selected))")
    case None
    then show ?thesis by (simp add: buildGltf_no_position)
  next
    case (Some posA)
    show ?thesis
    proof (cases "buffersById selected (bufferId posA)")
      case None
      then show ?thesis using Some by (simp add: buildGltf_no_position_buffer)
    next
      case posBuf: (Some posBuf)
      show ?thesis
      proof (cases "lookupIndexBuffer (draw selected) (buffersById selected)")
        case None
        then show ?thesis using Some posBuf by (simp add: buildGltf_no_index_buffer)
      next
        case idxBuf: (Some idxBuf)
        obtain es where es: "getStride posA = Inr es"
          using getStride_nonzero [of posA] findPositionAttrib_Some [OF Some] by blast
        have "decodeIndices P captureBin (draw selected) idxBuf = Inl (UnsupportedComponentType t)"
          using b t by (simp add: decodeIndices_def Let_def)
        then show ?thesis
          unfolding buildGltf_stages [OF Some posBuf idxBuf es] by simp
      qed
    qed
  qed
  from b r n d show ?thesis by blast
qed

theorem unsupported_component_type_witness:
  "(9999::int) \<notin> supportedTypes
   \<and> bytesPerComponent 9999 = Inl (UnsupportedComponentType 9999)
   \<and> readScalar exPlatform exBin 0 9999 = Inl (UnsupportedScalarType 9999)
   \<and> normalizeInt 7 9999 = 7
   \<and> buildGltf exPlatform exBin (exSelected\<lparr>draw := exDraw\<lparr>indexTypeEnum := 9999\<rparr>\<rparr>) exOptions
       = Inl (UnsupportedComponentType 9999)"
proof -
  let ?s = "exSelected\<lparr>draw := exDraw\<lparr>indexTypeEnum := 9999\<rparr>\<rparr>"
  have h: "(9999::int) \<notin> supportedTypes"
    by (simp add: supportedTypes_def)
  have a: "sortedAttribs (draw ?s) = [exPosAttr, exNrmAttr, exUvAttr]"
    using ex_sortedAttribs by (simp add: sortedAttribs_def exDraw_def)
  have p: "findPositionAttrib (sortedAttribs (draw ?s)) = Some exPosAttr"
    unfolding a by (rule ex_findPosition)
  have b: "buffersById ?s (bufferId exPosAttr) = Some exPosBuf"
    by (simp add: exSelected_def exPosAttr_def)
  have c: "lookupIndexBuffer (draw ?s) (buffersById ?s) = Some exIdxBuf"
    by (simp add: lookupIndexBuffer_def exSelected_def exDraw_def)
  have es: "getStride exPosAttr = Inr 6"
    by (simp add: getStride_def bytesPerComponent_def exPosAttr_def)
  have "decodeIndices exPlatform exBin (draw ?s) exIdxBuf = Inl (UnsupportedComponentType 9999)"
    by (simp add: decodeIndices_def Let_def bytesPerComponent_def)
  then have r: "buildGltf exPlatform exBin ?s exOptions = Inl (UnsupportedComponentType 9999)"
    unfolding buildGltf_stages [OF p b c es] by simp
  from unsupported_component_type [OF h, of exPlatform exBin 0 7 ?s exBin exOptions] r h
  show ?thesis by blast
qed

theorem normalizeInt_unsupported_returns_value:
  "(9999::int) \<notin> supportedTypes \<and> normalizeInt 7 9999 = 7"
  by (simp add: supportedTypes_def normalizeInt_def)

section \<open>Optional channel counts\<close>

text \<open>
  C8. In every decode that returns, the position channel holds \<open>vertexCount\<close> positions
  of three components, a decoded normal channel holds exactly
  \<open>min(vertexCount, floor((buffer.byteLength - offset) / stride))\<close> normals of three
  components, and a decoded UV channel that many pairs, each with the channel's own
  buffer, the offset of its attribute (0 when absent) and its effective stride: the
  attribute's \<open>stride\<close> if that is present and non-zero, and otherwise \<open>size\<close> times the
  byte width of the component type (1 for the 8-bit types, 2 for the 16-bit types, the only
  ones a normal or UV attribute has). So neither count exceeds the position count or what
  the channel's own buffer holds.
\<close>

theorem optional_channel_counts:
  assumes "buildGltf P captureBin selected options = Inr g"
  shows "int (length (positions g)) = 3 * vertexCount g
       \<and> (\<forall>ns. normals g = Some ns \<longrightarrow>
           (\<exists>a buf w off es. findNormalAttrib (sortedAttribs (draw selected)) = Some a
              \<and> buffersById selected (bufferId a) = Some buf
              \<and> (typeEnum a = 5120 \<and> w = 1 \<or> typeEnum a = 5122 \<and> w = 2)
              \<and> off = (case offset a of None \<Rightarrow> 0 | Some v \<Rightarrow> v)
              \<and> es = (case stride a of None \<Rightarrow> size' a * w
                                       | Some s \<Rightarrow> if s = 0 then size' a * w else s)
              \<and> es \<noteq> 0
              \<and> length ns = 3 * (length ns div 3)
              \<and> int (length ns div 3)
                  = min (vertexCount g) \<lfloor>real_of_int (byteLength buf - off) / real_of_int es\<rfloor>
              \<and> int (length ns div 3) \<le> vertexCount g
              \<and> int (length ns div 3) \<le> \<lfloor>real_of_int (byteLength buf - off) / real_of_int es\<rfloor>))
       \<and> (\<forall>ts. uvs g = Some ts \<longrightarrow>
           (\<exists>a buf w off es. findUvAttrib (sortedAttribs (draw selected)) = Some a
              \<and> buffersById selected (bufferId a) = Some buf
              \<and> (typeEnum a = 5121 \<and> w = 1 \<or> typeEnum a = 5123 \<and> w = 2)
              \<and> off = (case offset a of None \<Rightarrow> 0 | Some v \<Rightarrow> v)
              \<and> es = (case stride a of None \<Rightarrow> size' a * w
                                       | Some s \<Rightarrow> if s = 0 then size' a * w else s)
              \<and> es \<noteq> 0
              \<and> length ts = 2 * (length ts div 2)
              \<and> int (length ts div 2)
                  = min (vertexCount g) \<lfloor>real_of_int (byteLength buf - off) / real_of_int es\<rfloor>
              \<and> int (length ts div 2) \<le> vertexCount g
              \<and> int (length ts div 2) \<le> \<lfloor>real_of_int (byteLength buf - off) / real_of_int es\<rfloor>))"
proof -
  from buildGltf_Inr [OF assms]
  obtain posA posBuf pes vc ixs ps ns' ts' where
        pa: "findPositionAttrib (sortedAttribs (draw selected)) = Some posA"
    and dp: "decodePositions P captureBin options posA posBuf pes (orZero (offset posA)) vc = Inr ps"
    and dn: "decodeNormals P captureBin (buffersById selected) vc
               (findNormalAttrib (sortedAttribs (draw selected))) = Inr ns'"
    and du: "decodeUvs P captureBin (buffersById selected) vc
               (findUvAttrib (sortedAttribs (draw selected))) = Inr ts'"
    and g: "g = \<lparr>indices = ixs, vertexCount = vc, positions = ps, normals = ns', uvs = ts'\<rparr>"
    by blast
  have vc: "vertexCount g = vc" and gp: "positions g = ps" and gn: "normals g = ns'"
    and gu: "uvs g = ts'"
    using g by simp_all
  obtain pw where "bytesPerComponent (typeEnum posA) = Inr pw"
    using isPositionLike_width [OF findPositionAttrib_Some [OF pa]] by blast
  from decodePositions_length [OF dp this]
  have p: "int (length (positions g)) = 3 * vertexCount g"
    unfolding vc gp by simp
  have n: "\<exists>a buf w off es. findNormalAttrib (sortedAttribs (draw selected)) = Some a
              \<and> buffersById selected (bufferId a) = Some buf
              \<and> (typeEnum a = 5120 \<and> w = 1 \<or> typeEnum a = 5122 \<and> w = 2)
              \<and> off = (case offset a of None \<Rightarrow> 0 | Some v \<Rightarrow> v)
              \<and> es = (case stride a of None \<Rightarrow> size' a * w
                                       | Some s \<Rightarrow> if s = 0 then size' a * w else s)
              \<and> es \<noteq> 0
              \<and> length ns = 3 * (length ns div 3)
              \<and> int (length ns div 3)
                  = min (vertexCount g) \<lfloor>real_of_int (byteLength buf - off) / real_of_int es\<rfloor>
              \<and> int (length ns div 3) \<le> vertexCount g
              \<and> int (length ns div 3) \<le> \<lfloor>real_of_int (byteLength buf - off) / real_of_int es\<rfloor>"
    if "normals g = Some ns" for ns
  proof -
    have "decodeNormals P captureBin (buffersById selected) vc
            (findNormalAttrib (sortedAttribs (draw selected))) = Inr (Some ns)"
      using that gn dn by simp
    from decodeNormals_Some [OF this]
    obtain a buf es where a: "findNormalAttrib (sortedAttribs (draw selected)) = Some a"
      "buffersById selected (bufferId a) = Some buf" "getStride a = Inr es"
      and c: "0 \<le> min vc ((byteLength buf - orZero (offset a)) div es)"
        "length ns = 3 * nat (min vc ((byteLength buf - orZero (offset a)) div es))"
      by blast
    define w :: int where "w = (if typeEnum a = 5120 then 1 else 2)"
    define off where "off = (case offset a of None \<Rightarrow> 0 | Some v \<Rightarrow> v)"
    have like: "isNormalLike a" by (rule findNormalAttrib_Some [OF a(1)])
    have t: "typeEnum a = 5120 \<and> w = 1 \<or> typeEnum a = 5122 \<and> w = 2"
      using like by (auto simp: isNormalLike_def w_def)
    have wb: "bytesPerComponent (typeEnum a) = Inr w"
      using isNormalLike_width [OF like] by (simp add: w_def)
    have oz: "orZero (offset a) = off" by (simp add: orZero_def off_def)
    have es_eq: "es = (case stride a of None \<Rightarrow> size' a * w
                       | Some s \<Rightarrow> if s = 0 then size' a * w else s)"
      using getStride_width [OF wb] a(3) by simp
    have nz: "es \<noteq> 0"
      using getStride_nonzero [of a] like a(3) by auto
    have d: "length ns div 3 = nat (min vc ((byteLength buf - off) div es))"
      using c(2) by (simp add: oz)
    have e: "int (length ns div 3) = min vc ((byteLength buf - off) div es)"
      using d c(1) by (simp add: oz)
    have l: "length ns = 3 * (length ns div 3)"
      using c(2) d by (simp add: oz)
    have m: "int (length ns div 3)
               = min (vertexCount g) \<lfloor>real_of_int (byteLength buf - off) / real_of_int es\<rfloor>"
      using e unfolding vc floor_divide_of_int_eq .
    have le: "int (length ns div 3) \<le> vertexCount g"
      "int (length ns div 3) \<le> \<lfloor>real_of_int (byteLength buf - off) / real_of_int es\<rfloor>"
      using m by simp_all
    show ?thesis
      apply (rule exI [of _ a], rule exI [of _ buf], rule exI [of _ w], rule exI [of _ off],
             rule exI [of _ es])
      using a(1,2) t off_def es_eq nz l m le by (intro conjI)
  qed
  have u: "\<exists>a buf w off es. findUvAttrib (sortedAttribs (draw selected)) = Some a
              \<and> buffersById selected (bufferId a) = Some buf
              \<and> (typeEnum a = 5121 \<and> w = 1 \<or> typeEnum a = 5123 \<and> w = 2)
              \<and> off = (case offset a of None \<Rightarrow> 0 | Some v \<Rightarrow> v)
              \<and> es = (case stride a of None \<Rightarrow> size' a * w
                                       | Some s \<Rightarrow> if s = 0 then size' a * w else s)
              \<and> es \<noteq> 0
              \<and> length ts = 2 * (length ts div 2)
              \<and> int (length ts div 2)
                  = min (vertexCount g) \<lfloor>real_of_int (byteLength buf - off) / real_of_int es\<rfloor>
              \<and> int (length ts div 2) \<le> vertexCount g
              \<and> int (length ts div 2) \<le> \<lfloor>real_of_int (byteLength buf - off) / real_of_int es\<rfloor>"
    if "uvs g = Some ts" for ts
  proof -
    have "decodeUvs P captureBin (buffersById selected) vc
            (findUvAttrib (sortedAttribs (draw selected))) = Inr (Some ts)"
      using that gu du by simp
    from decodeUvs_Some [OF this]
    obtain a buf es where a: "findUvAttrib (sortedAttribs (draw selected)) = Some a"
      "buffersById selected (bufferId a) = Some buf" "getStride a = Inr es"
      and c: "0 \<le> min vc ((byteLength buf - orZero (offset a)) div es)"
        "length ts = 2 * nat (min vc ((byteLength buf - orZero (offset a)) div es))"
      by blast
    define w :: int where "w = (if typeEnum a = 5121 then 1 else 2)"
    define off where "off = (case offset a of None \<Rightarrow> 0 | Some v \<Rightarrow> v)"
    have like: "isUvLike a" by (rule findUvAttrib_Some [OF a(1)])
    have t: "typeEnum a = 5121 \<and> w = 1 \<or> typeEnum a = 5123 \<and> w = 2"
      using like by (auto simp: isUvLike_def w_def)
    have wb: "bytesPerComponent (typeEnum a) = Inr w"
      using isUvLike_width [OF like] by (simp add: w_def)
    have oz: "orZero (offset a) = off" by (simp add: orZero_def off_def)
    have es_eq: "es = (case stride a of None \<Rightarrow> size' a * w
                       | Some s \<Rightarrow> if s = 0 then size' a * w else s)"
      using getStride_width [OF wb] a(3) by simp
    have nz: "es \<noteq> 0"
      using getStride_nonzero [of a] like a(3) by auto
    have d: "length ts div 2 = nat (min vc ((byteLength buf - off) div es))"
      using c(2) by (simp add: oz)
    have e: "int (length ts div 2) = min vc ((byteLength buf - off) div es)"
      using d c(1) by (simp add: oz)
    have l: "length ts = 2 * (length ts div 2)"
      using c(2) d by (simp add: oz)
    have m: "int (length ts div 2)
               = min (vertexCount g) \<lfloor>real_of_int (byteLength buf - off) / real_of_int es\<rfloor>"
      using e unfolding vc floor_divide_of_int_eq .
    have le: "int (length ts div 2) \<le> vertexCount g"
      "int (length ts div 2) \<le> \<lfloor>real_of_int (byteLength buf - off) / real_of_int es\<rfloor>"
      using m by simp_all
    show ?thesis
      apply (rule exI [of _ a], rule exI [of _ buf], rule exI [of _ w], rule exI [of _ off],
             rule exI [of _ es])
      using a(1,2) t off_def es_eq nz l m le by (intro conjI)
  qed
  from p n u show ?thesis by blast
qed

theorem optional_channel_counts_witness:
  "buildGltf exPlatform f32Bin f32Selected f32Options
     = Inr \<lparr>indices = [0, 1, 1], vertexCount = 2, positions = [3, - 7, - 4, 2, 7, 3],
            normals = Some [1, - 1, - 1], uvs = Some [1, 0, 0, 1]\<rparr>
   \<and> findNormalAttrib (sortedAttribs (draw f32Selected)) = Some f32NrmAttr
   \<and> buffersById f32Selected (bufferId f32NrmAttr) = Some f32NrmBuf
   \<and> typeEnum f32NrmAttr = 5120 \<and> size' f32NrmAttr = 3
   \<and> offset f32NrmAttr = Some 2 \<and> stride f32NrmAttr = Some 4 \<and> byteLength f32NrmBuf = 9
   \<and> int (length [1, - 1, - 1 :: real] div 3) = min 2 \<lfloor>real_of_int (9 - 2) / real_of_int 4\<rfloor>
   \<and> min (2::int) \<lfloor>real_of_int (9 - 0) / real_of_int 4\<rfloor> = 2
   \<and> min (2::int) \<lfloor>real_of_int (9 - 2) / real_of_int (3 * 1)\<rfloor> = 2
   \<and> findUvAttrib (sortedAttribs (draw f32Selected)) = Some f32UvAttr
   \<and> buffersById f32Selected (bufferId f32UvAttr) = Some f32UvBuf
   \<and> typeEnum f32UvAttr = 5123
   \<and> offset f32UvAttr = Some 1 \<and> stride f32UvAttr = Some 5 \<and> byteLength f32UvBuf = 12
   \<and> int (length [1, 0, 0, 1 :: real] div 2) = min 2 \<lfloor>real_of_int (12 - 1) / real_of_int 5\<rfloor>
   \<and> \<lfloor>real_of_int (12 - 1) / real_of_int 5\<rfloor> = (2::int)
   \<and> buildGltf exPlatform exBin exSelected exOptions
     = Inr \<lparr>indices = [0, 1, 1], vertexCount = 2, positions = [3, 6, - 4, 513, 12, - 10],
            normals = Some [0, 1 / 127, 1 / 127], uvs = Some [1, 0, 0, 1 / 5]\<rparr>
   \<and> findNormalAttrib (sortedAttribs (draw exSelected)) = Some exNrmAttr
   \<and> buffersById exSelected (bufferId exNrmAttr) = Some exNrmBuf
   \<and> typeEnum exNrmAttr = 5120 \<and> size' exNrmAttr = 3
   \<and> offset exNrmAttr = Some 0 \<and> stride exNrmAttr = Some 0 \<and> byteLength exNrmBuf = 5
   \<and> int (length [0, 1 / 127, 1 / 127 :: real] div 3)
       = min 2 \<lfloor>real_of_int (5 - 0) / real_of_int (3 * 1)\<rfloor>"
proof -
  let ?g = "\<lparr>indices = [0, 1, 1], vertexCount = 2, positions = [3, - 7, - 4, 2, 7, 3],
            normals = Some [1, - 1, - 1], uvs = Some [1, 0, 0, 1 :: real]\<rparr>"
  have h: "buildGltf exPlatform f32Bin f32Selected f32Options = Inr ?g"
    by (rule f32_buildGltf)
  have a: "typeEnum f32NrmAttr = 5120" "size' f32NrmAttr = 3" "offset f32NrmAttr = Some 2"
    "stride f32NrmAttr = Some 4" "byteLength f32NrmBuf = 9"
    "typeEnum f32UvAttr = 5123" "offset f32UvAttr = Some 1" "stride f32UvAttr = Some 5"
    "byteLength f32UvBuf = 12"
    by (simp_all add: f32NrmAttr_def f32NrmBuf_def f32UvAttr_def f32UvBuf_def)
  note inst = optional_channel_counts [OF h]
  have "normals ?g = Some [1, - 1, - 1]" by simp
  from inst [THEN conjunct2, THEN conjunct1, rule_format, OF this]
  obtain na nbuf nw noff nes where n:
    "findNormalAttrib (sortedAttribs (draw f32Selected)) = Some na"
    "buffersById f32Selected (bufferId na) = Some nbuf"
    "noff = (case offset na of None \<Rightarrow> 0 | Some v \<Rightarrow> v)"
    "nes = (case stride na of None \<Rightarrow> size' na * nw | Some s \<Rightarrow> if s = 0 then size' na * nw else s)"
    "int (length [1, - 1, - 1 :: real] div 3)
       = min (vertexCount ?g) \<lfloor>real_of_int (byteLength nbuf - noff) / real_of_int nes\<rfloor>"
    by blast
  have na: "na = f32NrmAttr" "nbuf = f32NrmBuf"
    using n(1,2) f32_lookups(2,5) by simp_all
  have nc: "int (length [1, - 1, - 1 :: real] div 3) = min 2 \<lfloor>real_of_int (9 - 2) / real_of_int 4\<rfloor>"
    using n(5) unfolding n(3,4) na a by simp
  have "uvs ?g = Some [1, 0, 0, 1]" by simp
  from inst [THEN conjunct2, THEN conjunct2, rule_format, OF this]
  obtain ua ubuf uw uoff ues where u:
    "findUvAttrib (sortedAttribs (draw f32Selected)) = Some ua"
    "buffersById f32Selected (bufferId ua) = Some ubuf"
    "uoff = (case offset ua of None \<Rightarrow> 0 | Some v \<Rightarrow> v)"
    "ues = (case stride ua of None \<Rightarrow> size' ua * uw | Some s \<Rightarrow> if s = 0 then size' ua * uw else s)"
    "int (length [1, 0, 0, 1 :: real] div 2)
       = min (vertexCount ?g) \<lfloor>real_of_int (byteLength ubuf - uoff) / real_of_int ues\<rfloor>"
    by blast
  have ua: "ua = f32UvAttr" "ubuf = f32UvBuf"
    using u(1,2) f32_lookups(3,6) by simp_all
  have uc: "int (length [1, 0, 0, 1 :: real] div 2) = min 2 \<lfloor>real_of_int (12 - 1) / real_of_int 5\<rfloor>"
    using u(5) unfolding u(3,4) ua a by simp
  have x: "min (2::int) \<lfloor>real_of_int (9 - 0) / real_of_int 4\<rfloor> = 2"
    "min (2::int) \<lfloor>real_of_int (9 - 2) / real_of_int (3 * 1)\<rfloor> = 2"
    "\<lfloor>real_of_int (12 - 1) / real_of_int 5\<rfloor> = (2::int)"
    by simp_all
  let ?g' = "\<lparr>indices = [0, 1, 1], vertexCount = 2, positions = [3, 6, - 4, 513, 12, - 10],
            normals = Some [0, 1 / 127, 1 / 127], uvs = Some [1, 0, 0, 1 / 5 :: real]\<rparr>"
  have k: "buildGltf exPlatform exBin exSelected exOptions = Inr ?g'"
    by (rule ex_buildGltf)
  have a': "typeEnum exNrmAttr = 5120" "size' exNrmAttr = 3" "offset exNrmAttr = Some 0"
    "stride exNrmAttr = Some 0" "byteLength exNrmBuf = 5"
    by (simp_all add: exNrmAttr_def exNrmBuf_def)
  have "normals ?g' = Some [0, 1 / 127, 1 / 127]" by simp
  from optional_channel_counts [OF k, THEN conjunct2, THEN conjunct1, rule_format, OF this]
  obtain ma mbuf mw moff mes where m:
    "findNormalAttrib (sortedAttribs (draw exSelected)) = Some ma"
    "buffersById exSelected (bufferId ma) = Some mbuf"
    "typeEnum ma = 5120 \<and> mw = 1 \<or> typeEnum ma = 5122 \<and> mw = 2"
    "moff = (case offset ma of None \<Rightarrow> 0 | Some v \<Rightarrow> v)"
    "mes = (case stride ma of None \<Rightarrow> size' ma * mw | Some s \<Rightarrow> if s = 0 then size' ma * mw else s)"
    "int (length [0, 1 / 127, 1 / 127 :: real] div 3)
       = min (vertexCount ?g') \<lfloor>real_of_int (byteLength mbuf - moff) / real_of_int mes\<rfloor>"
    by blast
  have ma: "ma = exNrmAttr" "mbuf = exNrmBuf"
    using m(1,2) ex_lookups(2,5) by simp_all
  have mw: "mw = 1"
    using m(3) unfolding ma a' by simp
  have mc: "int (length [0, 1 / 127, 1 / 127 :: real] div 3)
       = min 2 \<lfloor>real_of_int (5 - 0) / real_of_int (3 * 1)\<rfloor>"
    using m(6) unfolding m(4,5) ma a' mw by simp
  show ?thesis
    using h f32_lookups(2,5,3,6) a nc uc x k ex_lookups(2,5) a' mc by (intro conjI)
qed

section \<open>The decode of buildObj\<close>

text \<open>
  C9, as amended. \<open>buildObj\<close> runs the reads and the arithmetic of \<open>buildGltf\<close> on its own:
  whenever its decode returns, \<open>buildGltf\<close> returns on the same input, with as many
  vertices, and the arrays of \<open>buildGltf\<close> are those of \<open>buildObj\<close> after the store into a
  typed array: each index reduced to an unsigned 32-bit integer, each position, normal
  and UV component rounded to binary32. With an unsigned index type the indices are equal
  element for element.
\<close>

theorem buildObj_agrees_with_buildGltf:
  assumes "buildObj P captureBin selected options = Inr ob"
  shows "\<exists>g. buildGltf P captureBin selected options = Inr g
     \<and> indices g = map toUint32 (objIndices ob)
     \<and> vertexCount g = int (length (objVertices ob))
     \<and> positions g = map (fround P) (concat (objVertices ob))
     \<and> normals g = map_option (\<lambda>vs. map (fround P) (concat vs)) (objNormals ob)
     \<and> uvs g = map_option (\<lambda>vs. map (fround P) (concat vs)) (objUvs ob)
     \<and> (indexTypeEnum (draw selected) = 5121 \<or> indexTypeEnum (draw selected) = 5123
          \<or> indexTypeEnum (draw selected) = 5125
        \<longrightarrow> map (\<lambda>w. real (unat w)) (indices g) = objIndices ob)"
proof -
  from buildObj_Inr [OF assms] obtain posA posBuf idxBuf idxBpc es n where
        a: "findPositionAttrib (sortedAttribs (draw selected)) = Some posA"
    and b: "buffersById selected (bufferId posA) = Some posBuf"
    and c: "lookupIndexBuffer (draw selected) (buffersById selected) = Some idxBuf"
    and bpc: "bytesPerComponent (indexTypeEnum (draw selected)) = Inr idxBpc"
    and es: "getStride posA = Inr es"
    and nonneg: "0 \<le> (byteLength posBuf - orZero (offset posA)) div es"
    and vs: "forLoop (nat ((byteLength posBuf - orZero (offset posA)) div es))
         (objPositionVertex P captureBin options posA posBuf es (orZero (offset posA)))
           = Inr (objVertices ob)"
    and ns: "objNormals' P captureBin (buffersById selected)
         ((byteLength posBuf - orZero (offset posA)) div es)
         (findNormalAttrib (sortedAttribs (draw selected))) = Inr (objNormals ob)"
    and ts: "objUvs' P captureBin (buffersById selected)
         ((byteLength posBuf - orZero (offset posA)) div es)
         (findUvAttrib (sortedAttribs (draw selected))) = Inr (objUvs ob)"
    and n: "arrayLength (count' (draw selected)) = Inr n"
    and ixs: "forLoop n (\<lambda>i. readScalar P captureBin
           (binOffset idxBuf + orZero (indexOffset (draw selected)) + int i * idxBpc)
           (indexTypeEnum (draw selected))) = Inr (objIndices ob)"
    by blast
  let ?vc = "(byteLength posBuf - orZero (offset posA)) div es"
  let ?g = "\<lparr>indices = map toUint32 (objIndices ob), vertexCount = ?vc,
             positions = map (fround P) (concat (objVertices ob)),
             normals = map_option (\<lambda>vs. map (fround P) (concat vs)) (objNormals ob),
             uvs = map_option (\<lambda>vs. map (fround P) (concat vs)) (objUvs ob)\<rparr>"
  obtain w where w: "bytesPerComponent (typeEnum posA) = Inr w"
    using isPositionLike_width [OF findPositionAttrib_Some [OF a]] by blast
  have di: "decodeIndices P captureBin (draw selected) idxBuf = Inr (map toUint32 (objIndices ob))"
    by (rule decodeIndices_obj [OF bpc n ixs])
  have dp: "decodePositions P captureBin options posA posBuf es (orZero (offset posA)) ?vc
              = Inr (map (fround P) (concat (objVertices ob)))"
    by (rule decodePositions_obj [OF w nonneg vs])
  have dn: "decodeNormals P captureBin (buffersById selected) ?vc
              (findNormalAttrib (sortedAttribs (draw selected)))
              = Inr (map_option (\<lambda>vs. map (fround P) (concat vs)) (objNormals ob))"
    by (rule objNormals_decodeNormals [OF ns]) (rule findNormalAttrib_Some)
  have du: "decodeUvs P captureBin (buffersById selected) ?vc
              (findUvAttrib (sortedAttribs (draw selected)))
              = Inr (map_option (\<lambda>vs. map (fround P) (concat vs)) (objUvs ob))"
    by (rule objUvs_decodeUvs [OF ts]) (rule findUvAttrib_Some)
  have g: "buildGltf P captureBin selected options = Inr ?g"
    unfolding buildGltf_stages [OF a b c es] di dp dn du by simp
  have len: "length (objVertices ob) = nat ?vc"
    using vs by (simp add: forLoop_eq_Inr)
  have cnt: "vertexCount ?g = int (length (objVertices ob))"
    using len nonneg by simp
  have uns: "map (\<lambda>w. real (unat w)) (indices ?g) = objIndices ob"
    if t: "indexTypeEnum (draw selected) = 5121 \<or> indexTypeEnum (draw selected) = 5123
          \<or> indexTypeEnum (draw selected) = 5125"
  proof (rule nth_equalityI)
    show "length (map (\<lambda>w. real (unat w)) (indices ?g)) = length (objIndices ob)" by simp
  next
    fix i assume "i < length (map (\<lambda>w. real (unat w)) (indices ?g))"
    then have i: "i < length (objIndices ob)" by simp
    then have "i < n" using ixs by (simp add: forLoop_eq_Inr)
    then have "readScalar P captureBin
           (binOffset idxBuf + orZero (indexOffset (draw selected)) + int i * idxBpc)
           (indexTypeEnum (draw selected)) = Inr (objIndices ob ! i)"
      using ixs by (simp add: forLoop_eq_Inr)
    from toUint32_unsigned [OF t this] i
    show "map (\<lambda>w. real (unat w)) (indices ?g) ! i = objIndices ob ! i" by simp
  qed
  show ?thesis
  proof (intro exI [of _ ?g] conjI)
    show "buildGltf P captureBin selected options = Inr ?g" by (rule g)
    show "indices ?g = map toUint32 (objIndices ob)" by simp
    show "vertexCount ?g = int (length (objVertices ob))" by (rule cnt)
    show "positions ?g = map (fround P) (concat (objVertices ob))" by simp
    show "normals ?g = map_option (\<lambda>vs. map (fround P) (concat vs)) (objNormals ob)" by simp
    show "uvs ?g = map_option (\<lambda>vs. map (fround P) (concat vs)) (objUvs ob)" by simp
    show "indexTypeEnum (draw selected) = 5121 \<or> indexTypeEnum (draw selected) = 5123
          \<or> indexTypeEnum (draw selected) = 5125
        \<longrightarrow> map (\<lambda>w. real (unat w)) (indices ?g) = objIndices ob"
      using uns by (rule impI)
  qed
qed

theorem buildObj_agrees_with_buildGltf_witness:
  "buildObj exPlatform exBin exSelected exOptions
     = Inr \<lparr>objVertices = [[3, 6, -4], [513, 12, -10]], objNormals = Some [[0, 1 / 127, 1 / 127]],
            objUvs = Some [[1, 0], [0, 1 / 5]], objIndices = [0, 1, 1]\<rparr>
   \<and> (\<exists>g. buildGltf exPlatform exBin exSelected exOptions = Inr g
        \<and> indices g = map toUint32 [0, 1, 1]
        \<and> vertexCount g = 2
        \<and> positions g = map (fround exPlatform) [3, 6, -4, 513, 12, -10]
        \<and> normals g = Some (map (fround exPlatform) [0, 1 / 127, 1 / 127])
        \<and> uvs g = Some (map (fround exPlatform) [1, 0, 0, 1 / 5])
        \<and> map (\<lambda>w. real (unat w)) (indices g) = [0, 1, 1])"
proof -
  let ?ob = "\<lparr>objVertices = [[3, 6, -4], [513, 12, -10]], objNormals = Some [[0, 1 / 127, 1 / 127]],
            objUvs = Some [[1, 0], [0, 1 / 5 :: real]], objIndices = [0, 1, 1]\<rparr>"
  have h: "buildObj exPlatform exBin exSelected exOptions = Inr ?ob"
    by (rule ex_buildObj)
  have t: "indexTypeEnum (draw exSelected) = 5121"
    by (simp add: exSelected_def exDraw_def)
  from buildObj_agrees_with_buildGltf [OF h] obtain g where
    g: "buildGltf exPlatform exBin exSelected exOptions = Inr g"
      "indices g = map toUint32 (objIndices ?ob)"
      "vertexCount g = int (length (objVertices ?ob))"
      "positions g = map (fround exPlatform) (concat (objVertices ?ob))"
      "normals g = map_option (\<lambda>vs. map (fround exPlatform) (concat vs)) (objNormals ?ob)"
      "uvs g = map_option (\<lambda>vs. map (fround exPlatform) (concat vs)) (objUvs ?ob)"
      "indexTypeEnum (draw exSelected) = 5121 \<or> indexTypeEnum (draw exSelected) = 5123
          \<or> indexTypeEnum (draw exSelected) = 5125
        \<longrightarrow> map (\<lambda>w. real (unat w)) (indices g) = objIndices ?ob"
    by blast
  have "buildGltf exPlatform exBin exSelected exOptions = Inr g
        \<and> indices g = map toUint32 [0, 1, 1]
        \<and> vertexCount g = 2
        \<and> positions g = map (fround exPlatform) [3, 6, -4, 513, 12, -10]
        \<and> normals g = Some (map (fround exPlatform) [0, 1 / 127, 1 / 127])
        \<and> uvs g = Some (map (fround exPlatform) [1, 0, 0, 1 / 5])
        \<and> map (\<lambda>w. real (unat w)) (indices g) = [0, 1, 1]"
    using g t by simp
  then have "\<exists>g. buildGltf exPlatform exBin exSelected exOptions = Inr g
        \<and> indices g = map toUint32 [0, 1, 1]
        \<and> vertexCount g = 2
        \<and> positions g = map (fround exPlatform) [3, 6, -4, 513, 12, -10]
        \<and> normals g = Some (map (fround exPlatform) [0, 1 / 127, 1 / 127])
        \<and> uvs g = Some (map (fround exPlatform) [1, 0, 0, 1 / 5])
        \<and> map (\<lambda>w. real (unat w)) (indices g) = [0, 1, 1]"
    by (rule exI)
  with h show ?thesis by (rule conjI)
qed

theorem signed_index_stored_unsigned:
  "buildObj exPlatform exBinSigned
      (exSelected\<lparr>draw := exDraw\<lparr>indexTypeEnum := 5120, attribs := Some [exPosAttr]\<rparr>\<rparr>) exOptions
     = Inr \<lparr>objVertices = [[3, 6, -4], [513, 12, -10]], objNormals = None, objUvs = None,
            objIndices = [-1, 1, 1]\<rparr>
   \<and> buildGltf exPlatform exBinSigned
      (exSelected\<lparr>draw := exDraw\<lparr>indexTypeEnum := 5120, attribs := Some [exPosAttr]\<rparr>\<rparr>) exOptions
     = Inr \<lparr>indices = [4294967295, 1, 1], vertexCount = 2,
            positions = [3, 6, -4, 513, 12, -10], normals = None, uvs = None\<rparr>
   \<and> map (\<lambda>w. real (unat w)) [4294967295, 1, 1 :: 32 word] \<noteq> [-1, 1, 1]"
proof -
  let ?d = "exDraw\<lparr>indexTypeEnum := 5120, attribs := Some [exPosAttr]\<rparr>"
  let ?s = "exSelected\<lparr>draw := ?d\<rparr>"
  have a: "sortedAttribs (draw ?s) = [exPosAttr]"
    by (simp add: sortedAttribs_def orEmpty_def)
  have p: "findPositionAttrib (sortedAttribs (draw ?s)) = Some exPosAttr"
    unfolding a by (simp add: findPositionAttrib_def isPositionLike_def truthy_def exPosAttr_def)
  have fn: "findNormalAttrib (sortedAttribs (draw ?s)) = None"
    unfolding a by (simp add: findNormalAttrib_def isNormalLike_def truthy_def exPosAttr_def)
  have fu: "findUvAttrib (sortedAttribs (draw ?s)) = None"
    unfolding a by (simp add: findUvAttrib_def isUvLike_def truthy_def exPosAttr_def)
  have b: "buffersById ?s (bufferId exPosAttr) = Some exPosBuf"
    by (simp add: exSelected_def exPosAttr_def)
  have c: "lookupIndexBuffer (draw ?s) (buffersById ?s) = Some exIdxBuf"
    by (simp add: lookupIndexBuffer_def exSelected_def exDraw_def)
  have w: "bytesPerComponent (indexTypeEnum (draw ?s)) = Inr 1"
    by (simp add: bytesPerComponent_def)
  have e: "(byteLength exPosBuf - 0) div 6 = 2" "orZero (offset exPosAttr) = 0"
    by (simp_all add: orZero_def exPosAttr_def exPosBuf_def)
  have l: "arrayLength (intNumber 2) = Inr 2" "arrayLength (count' (draw ?s)) = Inr 3"
    by (simp_all add: arrayLength_def intNumber_def exDraw_def)
  have v: "forLoop 2 (objPositionVertex exPlatform exBinSigned exOptions exPosAttr exPosBuf 6 0)
             = Inr [[3, 6, -4], [513, 12, -10]]"
    by (simp add: forLoop_def objPositionVertex_def transform_def truthy_def upt_2 codec_defs
        exPlatform_def exBinSigned_def exOptions_def exPosAttr_def exPosBuf_def)
  have n: "objNormals' exPlatform exBinSigned (buffersById ?s) 2 None = Inr None"
    "objUvs' exPlatform exBinSigned (buffersById ?s) 2 None = Inr None"
    by (simp_all add: objNormals'_def objUvs'_def)
  have i: "forLoop 3 (\<lambda>i. readScalar exPlatform exBinSigned
              (binOffset exIdxBuf + orZero (indexOffset (draw ?s)) + int i * 1)
              (indexTypeEnum (draw ?s))) = Inr [-1, 1, 1]"
    by (simp add: forLoop_def upt_3 codec_defs orZero_def exBinSigned_def exDraw_def exIdxBuf_def)
  have o: "buildObj exPlatform exBinSigned ?s exOptions
     = Inr \<lparr>objVertices = [[3, 6, -4], [513, 12, -10]], objNormals = None, objUvs = None,
            objIndices = [-1, 1, 1]\<rparr>"
    unfolding buildObj_stages [OF p b c w ex_lookups(9)]
    by (simp only: e l v n i fn fu bindE_simps)
  have m1: "toUint32 (- 1) = 4294967295"
    using toUint32_of_int [of "- 1"] by simp
  have p1: "toUint32 1 = 1"
    using toUint32_of_int [of 1] by simp
  have di: "decodeIndices exPlatform exBinSigned (draw ?s) exIdxBuf = Inr [4294967295, 1, 1]"
    by (simp add: decodeIndices_def typedArrayLength_def intNumber_def forLoop_def orZero_def m1 p1 upt_3
      codec_defs exDraw_def exIdxBuf_def exBinSigned_def)
  have dp: "decodePositions exPlatform exBinSigned exOptions exPosAttr exPosBuf 6 0 2
      = Inr [3, 6, -4, 513, 12, -10]"
    by (simp add: decodePositions_def typedArrayLength_def intNumber_def forLoop_def positionVertex_def
      transform_def truthy_def upt_2 codec_defs
      exPlatform_def exBinSigned_def exOptions_def exPosAttr_def exPosBuf_def)
  have dn: "decodeNormals exPlatform exBinSigned (buffersById ?s) 2 None = Inr None"
    "decodeUvs exPlatform exBinSigned (buffersById ?s) 2 None = Inr None"
    by (simp_all add: decodeNormals_def decodeUvs_def)
  have g: "buildGltf exPlatform exBinSigned ?s exOptions
     = Inr \<lparr>indices = [4294967295, 1, 1], vertexCount = 2,
            positions = [3, 6, -4, 513, 12, -10], normals = None, uvs = None\<rparr>"
    unfolding buildGltf_stages [OF p b c ex_lookups(9)]
    by (simp only: e di dp dn fn fu bindE_simps)
  have d: "map (\<lambda>w. real (unat w)) [4294967295, 1, 1 :: 32 word] \<noteq> [-1, 1, 1]"
    by simp
  show ?thesis by (rule conjI [OF o conjI [OF g d]])
qed

section \<open>Range errors\<close>

text \<open>
  C10. The decoder checks no address against the raw buffer: its only bounds check is the
  one inside each \<open>DataView\<close> getter. Once the three lookups have succeeded and the index
  type is supported, every failure of \<open>buildGltf\<close> is a \<open>RangeError\<close> of the platform: an
  out-of-range read or an invalid (negative or non-finite) array length. If every address
  the index loop and the channel loops dereference lies within the raw buffer (and the
  position buffer's byte length is at least the attribute offset), no read is out of range.
\<close>

theorem decode_range_errors:
  assumes "findPositionAttrib (sortedAttribs (draw selected)) = Some posA"
    and "buffersById selected (bufferId posA) = Some posBuf"
    and "lookupIndexBuffer (draw selected) (buffersById selected) = Some idxBuf"
    and "bytesPerComponent (indexTypeEnum (draw selected)) = Inr idxBpc"
    and "getStride posA = Inr es"
    and "bytesPerComponent (typeEnum posA) = Inr w"
  shows "(\<forall>e. buildGltf P captureBin selected options = Inl e
            \<longrightarrow> e = OffsetOutOfBounds \<or> e = InvalidArrayLength)
       \<and> ((\<forall>r. count' (draw selected) = Finite r
               \<longrightarrow> readsWithin captureBin
                     (binOffset idxBuf + orZero (indexOffset (draw selected))) idxBpc idxBpc 1 \<lceil>r\<rceil>)
          \<and> readsWithin captureBin (binOffset posBuf + orZero (offset posA)) es w 3
               ((byteLength posBuf - orZero (offset posA)) div es)
          \<and> (\<forall>a buf es' w'.
                findNormalAttrib (sortedAttribs (draw selected)) = Some a
              \<and> buffersById selected (bufferId a) = Some buf
              \<and> getStride a = Inr es' \<and> bytesPerComponent (typeEnum a) = Inr w'
              \<longrightarrow> readsWithin captureBin (binOffset buf + orZero (offset a)) es' w' 3
                    (min ((byteLength posBuf - orZero (offset posA)) div es)
                         ((byteLength buf - orZero (offset a)) div es')))
          \<and> (\<forall>a buf es' w'.
                findUvAttrib (sortedAttribs (draw selected)) = Some a
              \<and> buffersById selected (bufferId a) = Some buf
              \<and> getStride a = Inr es' \<and> bytesPerComponent (typeEnum a) = Inr w'
              \<longrightarrow> readsWithin captureBin (binOffset buf + orZero (offset a)) es' w' 2
                    (min ((byteLength posBuf - orZero (offset posA)) div es)
                         ((byteLength buf - orZero (offset a)) div es')))
          \<and> orZero (offset posA) \<le> byteLength posBuf
          \<longrightarrow> buildGltf P captureBin selected options \<noteq> Inl OffsetOutOfBounds)"
proof -
  let ?vc = "(byteLength posBuf - orZero (offset posA)) div es"
  note stage = buildGltf_Inl_stage [OF assms(1,2,3,5)]
  have nl: "\<And>a. findNormalAttrib (sortedAttribs (draw selected)) = Some a \<Longrightarrow> isNormalLike a"
    by (rule findNormalAttrib_Some)
  have ul: "\<And>a. findUvAttrib (sortedAttribs (draw selected)) = Some a \<Longrightarrow> isUvLike a"
    by (rule findUvAttrib_Some)
  note dn = decodeNormals_Inl [of P captureBin "buffersById selected" ?vc
      "findNormalAttrib (sortedAttribs (draw selected))", OF _ nl]
  note du = decodeUvs_Inl [of P captureBin "buffersById selected" ?vc
      "findUvAttrib (sortedAttribs (draw selected))", OF _ ul]
  have one: "e = OffsetOutOfBounds \<or> e = InvalidArrayLength"
    if "buildGltf P captureBin selected options = Inl e" for e
    using stage [OF that]
  proof (elim disjE)
    assume "decodeIndices P captureBin (draw selected) idxBuf = Inl e"
    from decodeIndices_Inl [OF this assms(4)] show ?thesis by blast
  next
    assume "decodePositions P captureBin options posA posBuf es (orZero (offset posA)) ?vc = Inl e"
    from decodePositions_Inl [OF this assms(6)] show ?thesis by blast
  next
    assume "decodeNormals P captureBin (buffersById selected) ?vc
                (findNormalAttrib (sortedAttribs (draw selected))) = Inl e"
    from dn [OF this] show ?thesis by blast
  next
    assume "decodeUvs P captureBin (buffersById selected) ?vc
                (findUvAttrib (sortedAttribs (draw selected))) = Inl e"
    from du [OF this] show ?thesis by blast
  qed
  have two: "buildGltf P captureBin selected options \<noteq> Inl OffsetOutOfBounds"
    if i: "\<forall>r. count' (draw selected) = Finite r
               \<longrightarrow> readsWithin captureBin
                     (binOffset idxBuf + orZero (indexOffset (draw selected))) idxBpc idxBpc 1 \<lceil>r\<rceil>"
      and p: "readsWithin captureBin (binOffset posBuf + orZero (offset posA)) es w 3 ?vc"
      and n: "\<forall>a buf es' w'.
                findNormalAttrib (sortedAttribs (draw selected)) = Some a
              \<and> buffersById selected (bufferId a) = Some buf
              \<and> getStride a = Inr es' \<and> bytesPerComponent (typeEnum a) = Inr w'
              \<longrightarrow> readsWithin captureBin (binOffset buf + orZero (offset a)) es' w' 3
                    (min ?vc ((byteLength buf - orZero (offset a)) div es'))"
      and u: "\<forall>a buf es' w'.
                findUvAttrib (sortedAttribs (draw selected)) = Some a
              \<and> buffersById selected (bufferId a) = Some buf
              \<and> getStride a = Inr es' \<and> bytesPerComponent (typeEnum a) = Inr w'
              \<longrightarrow> readsWithin captureBin (binOffset buf + orZero (offset a)) es' w' 2
                    (min ?vc ((byteLength buf - orZero (offset a)) div es'))"
  proof
    assume "buildGltf P captureBin selected options = Inl OffsetOutOfBounds"
    from stage [OF this] show False
    proof (elim disjE)
      assume "decodeIndices P captureBin (draw selected) idxBuf = Inl OffsetOutOfBounds"
      from decodeIndices_Inl [OF this assms(4)] i show False by auto
    next
      assume "decodePositions P captureBin options posA posBuf es (orZero (offset posA)) ?vc
                = Inl OffsetOutOfBounds"
      from decodePositions_Inl [OF this assms(6)] p show False by auto
    next
      assume "decodeNormals P captureBin (buffersById selected) ?vc
                (findNormalAttrib (sortedAttribs (draw selected))) = Inl OffsetOutOfBounds"
      from dn [OF this] n show False by blast
    next
      assume "decodeUvs P captureBin (buffersById selected) ?vc
                (findUvAttrib (sortedAttribs (draw selected))) = Inl OffsetOutOfBounds"
      from du [OF this] u show False by blast
    qed
  qed
  from one two show ?thesis by blast
qed

theorem decode_range_errors_witness:
  "findPositionAttrib (sortedAttribs (draw exSelected)) = Some exPosAttr
   \<and> buffersById exSelected (bufferId exPosAttr) = Some exPosBuf
   \<and> lookupIndexBuffer (draw exSelected) (buffersById exSelected) = Some exIdxBuf
   \<and> bytesPerComponent (indexTypeEnum (draw exSelected)) = Inr 1
   \<and> getStride exPosAttr = Inr 6
   \<and> bytesPerComponent (typeEnum exPosAttr) = Inr 2
   \<and> count' (draw exSelected) = Finite 3
   \<and> readsWithin exBin (binOffset exIdxBuf + orZero (indexOffset (draw exSelected))) 1 1 1 3
   \<and> readsWithin exBin (binOffset exPosBuf + orZero (offset exPosAttr)) 6 2 3
        ((byteLength exPosBuf - orZero (offset exPosAttr)) div 6)
   \<and> readsWithin exBin (binOffset exNrmBuf + orZero (offset exNrmAttr)) 3 1 3
        (min ((byteLength exPosBuf - orZero (offset exPosAttr)) div 6)
             ((byteLength exNrmBuf - orZero (offset exNrmAttr)) div 3))
   \<and> readsWithin exBin (binOffset exUvBuf + orZero (offset exUvAttr)) 2 1 2
        (min ((byteLength exPosBuf - orZero (offset exPosAttr)) div 6)
             ((byteLength exUvBuf - orZero (offset exUvAttr)) div 2))
   \<and> orZero (offset exPosAttr) \<le> byteLength exPosBuf
   \<and> buildGltf exPlatform exBin exSelected exOptions \<noteq> Inl OffsetOutOfBounds
   \<and> buildGltf exPlatform (take 13 exBin) exSelected exOptions = Inl OffsetOutOfBounds"
proof -
  note inst = decode_range_errors [OF ex_lookups(1,4,7,8,9,10)]
  have c: "count' (draw exSelected) = Finite 3"
    by (simp add: exSelected_def exDraw_def)
  have i: "readsWithin exBin (binOffset exIdxBuf + orZero (indexOffset (draw exSelected))) 1 1 1 3"
    by (auto simp: readsWithin_def inBounds_def orZero_def exSelected_def exDraw_def exIdxBuf_def
        exBin_def)
  have p: "readsWithin exBin (binOffset exPosBuf + orZero (offset exPosAttr)) 6 2 3
        ((byteLength exPosBuf - orZero (offset exPosAttr)) div 6)"
    by (auto simp: readsWithin_def inBounds_def orZero_def exPosAttr_def exPosBuf_def exBin_def)
  have n: "readsWithin exBin (binOffset exNrmBuf + orZero (offset exNrmAttr)) 3 1 3
        (min ((byteLength exPosBuf - orZero (offset exPosAttr)) div 6)
             ((byteLength exNrmBuf - orZero (offset exNrmAttr)) div 3))"
    by (auto simp: readsWithin_def inBounds_def orZero_def exPosAttr_def exPosBuf_def
        exNrmAttr_def exNrmBuf_def exBin_def)
  have u: "readsWithin exBin (binOffset exUvBuf + orZero (offset exUvAttr)) 2 1 2
        (min ((byteLength exPosBuf - orZero (offset exPosAttr)) div 6)
             ((byteLength exUvBuf - orZero (offset exUvAttr)) div 2))"
    by (auto simp: readsWithin_def inBounds_def orZero_def exPosAttr_def exPosBuf_def
        exUvAttr_def exUvBuf_def exBin_def)
  have o: "orZero (offset exPosAttr) \<le> byteLength exPosBuf"
    by (simp add: orZero_def exPosAttr_def exPosBuf_def)
  have i': "\<forall>r. count' (draw exSelected) = Finite r
               \<longrightarrow> readsWithin exBin
                     (binOffset exIdxBuf + orZero (indexOffset (draw exSelected))) 1 1 1 \<lceil>r\<rceil>"
    using i c by simp
  have n': "\<forall>a buf es' w'.
                findNormalAttrib (sortedAttribs (draw exSelected)) = Some a
              \<and> buffersById exSelected (bufferId a) = Some buf
              \<and> getStride a = Inr es' \<and> bytesPerComponent (typeEnum a) = Inr w'
              \<longrightarrow> readsWithin exBin (binOffset buf + orZero (offset a)) es' w' 3
                    (min ((byteLength exPosBuf - orZero (offset exPosAttr)) div 6)
                         ((byteLength buf - orZero (offset a)) div es'))"
    using n ex_lookups(2,5,11,12) by auto
  have u': "\<forall>a buf es' w'.
                findUvAttrib (sortedAttribs (draw exSelected)) = Some a
              \<and> buffersById exSelected (bufferId a) = Some buf
              \<and> getStride a = Inr es' \<and> bytesPerComponent (typeEnum a) = Inr w'
              \<longrightarrow> readsWithin exBin (binOffset buf + orZero (offset a)) es' w' 2
                    (min ((byteLength exPosBuf - orZero (offset exPosAttr)) div 6)
                         ((byteLength buf - orZero (offset a)) div es'))"
    using u ex_lookups(3,6,13,14) by auto
  have r: "buildGltf exPlatform exBin exSelected exOptions \<noteq> Inl OffsetOutOfBounds"
    using inst [of exPlatform exBin exOptions] i' p n' u' o by blast
  have t: "\<forall>e. buildGltf exPlatform (take 13 exBin) exSelected exOptions = Inl e
          \<longrightarrow> e = OffsetOutOfBounds \<or> e = InvalidArrayLength"
    using inst [of exPlatform "take 13 exBin" exOptions] by blast
  have "decodeIndices exPlatform (take 13 exBin) (draw exSelected) exIdxBuf = Inl OffsetOutOfBounds"
    by (simp add: decodeIndices_def typedArrayLength_def intNumber_def forLoop_def orZero_def toUint32_def upt_3
      codec_defs exSelected_def exDraw_def exIdxBuf_def exBin_def)
  then have f: "buildGltf exPlatform (take 13 exBin) exSelected exOptions = Inl OffsetOutOfBounds"
    unfolding buildGltf_stages [OF ex_lookups(1,4,7,9)] by simp
  from ex_lookups(1,4,7,8,9,10) c i p n u o r f show ?thesis by blast
qed

end
